(* ===== verification/Agx_Prelude.thy ===== *)
theory Agx_Prelude
  imports Main "HOL-Library.Word" "HOL-Library.Monad_Syntax"
begin

text \<open>
  Shared vocabulary of the development, from \<^verbatim>\<open>include/agx/types.h\<close>: the fixed-width
  integer types, the field macros and the status codes, together with the generic
  bit-field, list and option lemmas that the component theories use.
  The collection \<open>agx_field\<close> rewrites reads of a packed 64 bit message back to
  the fields that were put into it; \<open>agx_mask\<close> holds the equations that turn a literal
  mask of a header into \<open>mask n\<close>.
\<close>

unbundle bit_operations_syntax

section \<open>Fixed-width integers\<close>

type_synonym u8 = "8 word"
type_synonym u16 = "16 word"
type_synonym u32 = "32 word"
type_synonym u64 = "64 word"

named_theorems agx_mask "literal masks of the headers as mask n"
named_theorems agx_field "reading back packed bit fields"

section \<open>Macros of types.h\<close>

definition AGX_BIT64 :: "nat \<Rightarrow> u64" where
  "AGX_BIT64 n = push_bit n 1"

definition AGX_FIELD_GET :: "u64 \<Rightarrow> nat \<Rightarrow> u64 \<Rightarrow> u64" where
  "AGX_FIELD_GET value shift msk = drop_bit shift value AND msk"

definition AGX_FIELD_PUT :: "u64 \<Rightarrow> nat \<Rightarrow> u64 \<Rightarrow> u64" where
  "AGX_FIELD_PUT value shift msk = push_bit shift (value AND msk)"

text \<open>\<^verbatim>\<open>enum agx_status\<close>: every fallible function of the module returns one of these as a C int.\<close>

definition AGX_OK :: int where "AGX_OK = 0"
definition AGX_EIO :: int where "AGX_EIO = -5"
definition AGX_ENOMEM :: int where "AGX_ENOMEM = -12"
definition AGX_ENODEV :: int where "AGX_ENODEV = -19"
definition AGX_EINVAL :: int where "AGX_EINVAL = -22"
definition AGX_ENODATA :: int where "AGX_ENODATA = -61"
definition AGX_ETIMEDOUT :: int where "AGX_ETIMEDOUT = -110"

lemmas agx_status_defs =
  AGX_OK_def AGX_EIO_def AGX_ENOMEM_def AGX_ENODEV_def AGX_EINVAL_def AGX_ENODATA_def
  AGX_ETIMEDOUT_def

section \<open>Words by their bits\<close>

lemma word_eq_iff_bits:
  "(a :: 'a :: len word) = b \<longleftrightarrow> (\<forall>i<LENGTH('a). bit a i = bit b i)"
  by (auto intro: bit_word_eqI)

lemma word_less_exp_iff_bits:
  fixes w :: "'a :: len word"
  assumes "n < LENGTH('a)"
  shows "w < 2 ^ n \<longleftrightarrow> (\<forall>i. bit w i \<longrightarrow> i < n)"
proof -
  have "unat (word_of_nat (2 ^ n) :: 'a word) = 2 ^ n"
    using assms by (simp only: unsigned_of_nat) (simp add: take_bit_nat_eq_self)
  then have "w < 2 ^ n \<longleftrightarrow> take_bit n (unat w) = unat w"
    by (simp add: word_less_nat_alt take_bit_nat_eq_self_iff)
  also have "\<dots> \<longleftrightarrow> take_bit n w = w"
    by (metis unsigned_take_bit_eq word_unat_eq_iff)
  also have "\<dots> \<longleftrightarrow> (\<forall>i. bit w i \<longrightarrow> i < n)"
    by (auto simp: word_eq_iff_bits bit_take_bit_iff dest: bit_imp_le_length)
  finally show ?thesis .
qed

lemma ucast_u32_u64_u32 [simp]: "(ucast (ucast (v :: u32) :: u64) :: u32) = v"
  by (simp add: word_eq_iff_bits bit_unsigned_iff)

section \<open>Bit fields\<close>

lemma bit_AGX_BIT64 [simp]: "bit (AGX_BIT64 n) i \<longleftrightarrow> i = n \<and> n < 64"
  by (auto simp: AGX_BIT64_def bit_simps)

lemma and_bit64_zero_iff: "(va AND AGX_BIT64 n = 0) \<longleftrightarrow> (n < 64 \<longrightarrow> \<not> bit va n)"
  by (auto simp: word_eq_iff_bits bit_and_iff)

lemma bit_AGX_FIELD_GET_mask:
  "bit (AGX_FIELD_GET v s (mask k)) i \<longleftrightarrow> i < k \<and> bit v (s + i)"
  by (auto simp: AGX_FIELD_GET_def bit_simps dest: bit_imp_le_length)

lemma bit_AGX_FIELD_PUT_mask:
  "bit (AGX_FIELD_PUT v s (mask k)) i \<longleftrightarrow> s \<le> i \<and> i < 64 \<and> i - s < k \<and> bit v (i - s)"
  by (auto simp: AGX_FIELD_PUT_def bit_simps)

lemma field_get_or [agx_field]:
  "AGX_FIELD_GET (a OR b) s m = AGX_FIELD_GET a s m OR AGX_FIELD_GET b s m"
  by (simp add: AGX_FIELD_GET_def bit.conj_disj_distrib2)

lemma field_get_put_same [agx_field]:
  "s + k \<le> 64 \<Longrightarrow> AGX_FIELD_GET (AGX_FIELD_PUT v s (mask k)) s (mask k) = v AND mask k"
  by (rule bit_word_eqI) (auto simp: bit_AGX_FIELD_GET_mask bit_AGX_FIELD_PUT_mask bit_simps)

lemma field_get_put_other [agx_field]:
  "s' + k' \<le> s \<or> s + k \<le> s' \<Longrightarrow> AGX_FIELD_GET (AGX_FIELD_PUT v s (mask k)) s' (mask k') = 0"
  by (rule bit_word_eqI) (auto simp: bit_AGX_FIELD_GET_mask bit_AGX_FIELD_PUT_mask)

lemma field_get_bound:
  "k < 64 \<Longrightarrow> AGX_FIELD_GET v s (mask k) < 2 ^ k"
  by (simp add: AGX_FIELD_GET_def and_mask_less')


section \<open>Loops that may fault\<close>

text \<open>A C \<^verbatim>\<open>for\<close> loop over a fixed index list whose body may fault: \<open>None\<close> stops it.\<close>

fun foldO :: "('a \<Rightarrow> 's \<Rightarrow> 's option) \<Rightarrow> 'a list \<Rightarrow> 's \<Rightarrow> 's option" where
  "foldO f [] s = Some s"
| "foldO f (x # xs) s = do { s' \<leftarrow> f x s; foldO f xs s' }"

lemma foldO_append [simp]: "foldO f (xs @ ys) s = do { s' \<leftarrow> foldO f xs s; foldO f ys s' }"
  by (induction xs arbitrary: s) (auto split: Option.bind_splits)

text \<open>The loop rule: an invariant indexed by the number of completed iterations.\<close>

lemma foldO_upt_rule:
  assumes "I 0 s" and "\<And>i s. i < n \<Longrightarrow> I i s \<Longrightarrow> \<exists>s'. f i s = Some s' \<and> I (Suc i) s'"
  shows "\<exists>s'. foldO f [0..<n] s = Some s' \<and> I n s'"
  using assms(2)
proof (induction n)
  case 0
  then show ?case using assms(1) by simp
next
  case (Suc n)
  then obtain s' where "foldO f [0..<n] s = Some s'" "I n s'" by auto
  moreover from this Suc.prems [of n s'] obtain t where "f n s' = Some t" "I (Suc n) t" by auto
  ultimately show ?case by auto
qed

end
