(* ===== verification/Uat_Encoding.thy ===== *)
theory Uat_Encoding
  imports Agx_Prelude
begin

text \<open>
  The UAT page table geometry and the PTE and TTBR encodings of
  \<^verbatim>\<open>include/agx/uat.h\<close>: index extraction from a GPU virtual address, leaf and table
  descriptors and the TTBR slots. The lemmas show that an aligned address below the
  43 bit limit is determined by its four indices, that descriptors round trip the
  physical address field and that address and flag bits never mix.
\<close>

section \<open>Geometry\<close>

definition AGX_UAT_PAGE_BITS :: nat where "AGX_UAT_PAGE_BITS = 14"
definition AGX_UAT_PAGE_SIZE :: u64 where "AGX_UAT_PAGE_SIZE = push_bit AGX_UAT_PAGE_BITS 1"
definition AGX_UAT_PAGE_MASK :: u64 where "AGX_UAT_PAGE_MASK = AGX_UAT_PAGE_SIZE - 1"

definition AGX_UAT_L1_SHIFT :: nat where "AGX_UAT_L1_SHIFT = 36"
definition AGX_UAT_L1_BITS :: nat where "AGX_UAT_L1_BITS = 6"
definition AGX_UAT_L1_COUNT :: u32 where "AGX_UAT_L1_COUNT = push_bit AGX_UAT_L1_BITS 1"
definition AGX_UAT_L1_MASK :: u32 where "AGX_UAT_L1_MASK = AGX_UAT_L1_COUNT - 1"

definition AGX_UAT_L2_SHIFT :: nat where "AGX_UAT_L2_SHIFT = 25"
definition AGX_UAT_L2_BITS :: nat where "AGX_UAT_L2_BITS = 11"
definition AGX_UAT_L2_COUNT :: u32 where "AGX_UAT_L2_COUNT = push_bit AGX_UAT_L2_BITS 1"
definition AGX_UAT_L2_MASK :: u32 where "AGX_UAT_L2_MASK = AGX_UAT_L2_COUNT - 1"

definition AGX_UAT_L3_SHIFT :: nat where "AGX_UAT_L3_SHIFT = 14"
definition AGX_UAT_L3_BITS :: nat where "AGX_UAT_L3_BITS = 11"
definition AGX_UAT_L3_COUNT :: u32 where "AGX_UAT_L3_COUNT = push_bit AGX_UAT_L3_BITS 1"
definition AGX_UAT_L3_MASK :: u32 where "AGX_UAT_L3_MASK = AGX_UAT_L3_COUNT - 1"

definition AGX_UAT_TTBR_SELECT_BIT :: u64 where "AGX_UAT_TTBR_SELECT_BIT = AGX_BIT64 42"
definition AGX_UAT_VA_BITS :: nat where "AGX_UAT_VA_BITS = 43"
definition AGX_UAT_VA_LIMIT :: u64 where "AGX_UAT_VA_LIMIT = AGX_BIT64 AGX_UAT_VA_BITS"

definition AGX_UAT_CONTEXT_COUNT :: u32 where "AGX_UAT_CONTEXT_COUNT = 64"

section \<open>Descriptor bits\<close>

definition AGX_UAT_PTE_VALID :: u64 where "AGX_UAT_PTE_VALID = AGX_BIT64 0"
definition AGX_UAT_PTE_TYPE :: u64 where "AGX_UAT_PTE_TYPE = AGX_BIT64 1"
definition AGX_UAT_PTE_AP_SHIFT :: nat where "AGX_UAT_PTE_AP_SHIFT = 6"
definition AGX_UAT_PTE_AP_MASK :: u64 where "AGX_UAT_PTE_AP_MASK = 0x3"
definition AGX_UAT_PTE_AF :: u64 where "AGX_UAT_PTE_AF = AGX_BIT64 10"
definition AGX_UAT_PTE_ATTRIDX_SHIFT :: nat where "AGX_UAT_PTE_ATTRIDX_SHIFT = 2"
definition AGX_UAT_PTE_ATTRIDX_MASK :: u64 where "AGX_UAT_PTE_ATTRIDX_MASK = 0x7"
definition AGX_UAT_PTE_OFFSET_SHIFT :: nat where "AGX_UAT_PTE_OFFSET_SHIFT = 14"
definition AGX_UAT_PTE_OFFSET_MASK :: u64 where "AGX_UAT_PTE_OFFSET_MASK = 0x3ffffffff"
definition AGX_UAT_PTE_ADDR_MASK :: u64 where
  "AGX_UAT_PTE_ADDR_MASK = push_bit AGX_UAT_PTE_OFFSET_SHIFT AGX_UAT_PTE_OFFSET_MASK"
definition AGX_UAT_PTE_UXN :: u64 where "AGX_UAT_PTE_UXN = AGX_BIT64 54"
definition AGX_UAT_PTE_OS :: u64 where "AGX_UAT_PTE_OS = AGX_BIT64 55"

definition AGX_UAT_ATTR_NORMAL :: u64 where "AGX_UAT_ATTR_NORMAL = 0"

definition AGX_UAT_TTBR_VALID :: u64 where "AGX_UAT_TTBR_VALID = AGX_BIT64 0"
definition AGX_UAT_TTBR_BADDR_SHIFT :: nat where "AGX_UAT_TTBR_BADDR_SHIFT = 1"
definition AGX_UAT_TTBR_BADDR_MASK :: u64 where "AGX_UAT_TTBR_BADDR_MASK = 0x7fffffffffff"
definition AGX_UAT_TTBR_ASID_SHIFT :: nat where "AGX_UAT_TTBR_ASID_SHIFT = 48"
definition AGX_UAT_TTBR_ASID_MASK :: u64 where "AGX_UAT_TTBR_ASID_MASK = 0xffff"

section \<open>Encoders and decoders\<close>

definition agx_uat_l1_index :: "u64 \<Rightarrow> u32" where
  "agx_uat_l1_index va = ucast (drop_bit AGX_UAT_L1_SHIFT va AND ucast AGX_UAT_L1_MASK)"

definition agx_uat_l2_index :: "u64 \<Rightarrow> u32" where
  "agx_uat_l2_index va = ucast (drop_bit AGX_UAT_L2_SHIFT va AND ucast AGX_UAT_L2_MASK)"

definition agx_uat_l3_index :: "u64 \<Rightarrow> u32" where
  "agx_uat_l3_index va = ucast (drop_bit AGX_UAT_L3_SHIFT va AND ucast AGX_UAT_L3_MASK)"

definition agx_uat_ttbr_select :: "u64 \<Rightarrow> u32" where
  "agx_uat_ttbr_select va = (if va AND AGX_UAT_TTBR_SELECT_BIT \<noteq> 0 then 1 else 0)"

definition agx_uat_page_offset :: "u64 \<Rightarrow> u64" where
  "agx_uat_page_offset va = va AND AGX_UAT_PAGE_MASK"

definition agx_uat_pte_phys :: "u64 \<Rightarrow> u64" where
  "agx_uat_pte_phys pte = pte AND AGX_UAT_PTE_ADDR_MASK"

definition agx_uat_table_pte :: "u64 \<Rightarrow> u64" where
  "agx_uat_table_pte table_pa =
     (table_pa AND AGX_UAT_PTE_ADDR_MASK) OR AGX_UAT_PTE_VALID OR AGX_UAT_PTE_TYPE"

definition agx_uat_table_pte_addr :: "u64 \<Rightarrow> u64" where
  "agx_uat_table_pte_addr pte = agx_uat_pte_phys pte"

definition AGX_UAT_ATTR :: "u64 \<Rightarrow> u64" where
  "AGX_UAT_ATTR n = AGX_FIELD_PUT n AGX_UAT_PTE_ATTRIDX_SHIFT AGX_UAT_PTE_ATTRIDX_MASK"

definition AGX_UAT_AP :: "u64 \<Rightarrow> u64" where
  "AGX_UAT_AP n = AGX_FIELD_PUT n AGX_UAT_PTE_AP_SHIFT AGX_UAT_PTE_AP_MASK"

definition AGX_UAT_FW_BUFFER_FLAGS :: u64 where
  "AGX_UAT_FW_BUFFER_FLAGS =
     AGX_UAT_PTE_VALID OR AGX_UAT_PTE_TYPE OR AGX_UAT_PTE_OS OR
     AGX_UAT_PTE_UXN OR AGX_UAT_PTE_AF OR AGX_UAT_AP 1 OR
     AGX_UAT_ATTR AGX_UAT_ATTR_NORMAL"

definition agx_uat_pte :: "u64 \<Rightarrow> u64 \<Rightarrow> u64" where
  "agx_uat_pte phys_addr flags =
     (phys_addr AND AGX_UAT_PTE_ADDR_MASK) OR (flags AND NOT AGX_UAT_PTE_ADDR_MASK)"

definition agx_uat_ttbr :: "u64 \<Rightarrow> u32 \<Rightarrow> u64" where
  "agx_uat_ttbr table_pa asid =
     (let baddr = drop_bit AGX_UAT_TTBR_BADDR_SHIFT table_pa AND AGX_UAT_TTBR_BADDR_MASK
      in push_bit AGX_UAT_TTBR_BADDR_SHIFT baddr OR
         AGX_FIELD_PUT (ucast asid) AGX_UAT_TTBR_ASID_SHIFT AGX_UAT_TTBR_ASID_MASK OR
         (if table_pa \<noteq> 0 then AGX_UAT_TTBR_VALID else 0))"

lemmas uat_geometry_defs =
  AGX_UAT_PAGE_BITS_def AGX_UAT_PAGE_SIZE_def AGX_UAT_PAGE_MASK_def
  AGX_UAT_L1_SHIFT_def AGX_UAT_L1_BITS_def AGX_UAT_L1_COUNT_def AGX_UAT_L1_MASK_def
  AGX_UAT_L2_SHIFT_def AGX_UAT_L2_BITS_def AGX_UAT_L2_COUNT_def AGX_UAT_L2_MASK_def
  AGX_UAT_L3_SHIFT_def AGX_UAT_L3_BITS_def AGX_UAT_L3_COUNT_def AGX_UAT_L3_MASK_def
  AGX_UAT_TTBR_SELECT_BIT_def AGX_UAT_VA_BITS_def AGX_UAT_VA_LIMIT_def
  AGX_UAT_CONTEXT_COUNT_def

lemmas uat_pte_defs =
  AGX_UAT_PTE_VALID_def AGX_UAT_PTE_TYPE_def AGX_UAT_PTE_AP_SHIFT_def AGX_UAT_PTE_AP_MASK_def
  AGX_UAT_PTE_AF_def AGX_UAT_PTE_ATTRIDX_SHIFT_def AGX_UAT_PTE_ATTRIDX_MASK_def
  AGX_UAT_PTE_OFFSET_SHIFT_def AGX_UAT_PTE_OFFSET_MASK_def AGX_UAT_PTE_ADDR_MASK_def
  AGX_UAT_PTE_UXN_def AGX_UAT_PTE_OS_def AGX_UAT_ATTR_NORMAL_def
  AGX_UAT_TTBR_VALID_def AGX_UAT_TTBR_BADDR_SHIFT_def AGX_UAT_TTBR_BADDR_MASK_def
  AGX_UAT_TTBR_ASID_SHIFT_def AGX_UAT_TTBR_ASID_MASK_def

section \<open>Bit-level characterisation\<close>

lemma uat_masks [agx_mask]:
  "AGX_UAT_PAGE_MASK = mask 14" "AGX_UAT_L1_MASK = mask 6" "AGX_UAT_L2_MASK = mask 11"
  "AGX_UAT_L3_MASK = mask 11" "AGX_UAT_PTE_OFFSET_MASK = mask 34"
  "AGX_UAT_TTBR_BADDR_MASK = mask 47" "AGX_UAT_TTBR_ASID_MASK = mask 16"
  by (simp_all add: uat_geometry_defs uat_pte_defs mask_eq_exp_minus_1 push_bit_eq_mult)

lemma uat_counts [simp]:
  "unat AGX_UAT_L1_COUNT = 64" "unat AGX_UAT_L2_COUNT = 2048" "unat AGX_UAT_L3_COUNT = 2048"
  "unat AGX_UAT_CONTEXT_COUNT = 64"
  by (simp_all add: uat_geometry_defs push_bit_eq_mult)

lemma bit_ADDR_MASK: "bit AGX_UAT_PTE_ADDR_MASK i \<longleftrightarrow> 14 \<le> i \<and> i < 48"
  by (auto simp: AGX_UAT_PTE_ADDR_MASK_def agx_mask AGX_UAT_PTE_OFFSET_SHIFT_def bit_simps)

lemma bit_l1_index: "bit (agx_uat_l1_index va) i \<longleftrightarrow> i < 6 \<and> bit va (36 + i)"
  by (auto simp: agx_uat_l1_index_def agx_mask AGX_UAT_L1_SHIFT_def bit_simps)

lemma bit_l2_index: "bit (agx_uat_l2_index va) i \<longleftrightarrow> i < 11 \<and> bit va (25 + i)"
  by (auto simp: agx_uat_l2_index_def agx_mask AGX_UAT_L2_SHIFT_def bit_simps)

lemma bit_l3_index: "bit (agx_uat_l3_index va) i \<longleftrightarrow> i < 11 \<and> bit va (14 + i)"
  by (auto simp: agx_uat_l3_index_def agx_mask AGX_UAT_L3_SHIFT_def bit_simps)

lemma ttbr_select_bit: "agx_uat_ttbr_select va = (if bit va 42 then 1 else 0)"
  by (simp add: agx_uat_ttbr_select_def AGX_UAT_TTBR_SELECT_BIT_def and_bit64_zero_iff)


lemma VA_LIMIT_eq: "AGX_UAT_VA_LIMIT = 2 ^ 43"
  by (simp add: uat_geometry_defs AGX_BIT64_def push_bit_eq_mult)

lemma below_VA_LIMIT_bit: "va < AGX_UAT_VA_LIMIT \<longleftrightarrow> (\<forall>i. bit va i \<longrightarrow> i < 43)"
  using word_less_exp_iff_bits [of 43 va] by (simp add: VA_LIMIT_eq)

lemma page_offset_zero_bit: "agx_uat_page_offset va = 0 \<longleftrightarrow> (\<forall>i<14. \<not> bit va i)"
  using bit_imp_le_length [of va]
  by (auto simp: agx_uat_page_offset_def agx_mask word_eq_iff_bits bit_simps)

lemma index_bounds:
  "unat (agx_uat_l1_index va) < 64" "unat (agx_uat_l2_index va) < 2048"
  "unat (agx_uat_l3_index va) < 2048" "unat (agx_uat_ttbr_select va) < 2"
proof -
  have "agx_uat_l1_index va < 2 ^ 6" "agx_uat_l2_index va < 2 ^ 11" "agx_uat_l3_index va < 2 ^ 11"
    by (subst word_less_exp_iff_bits; simp add: bit_l1_index bit_l2_index bit_l3_index)+
  then show "unat (agx_uat_l1_index va) < 64" "unat (agx_uat_l2_index va) < 2048"
    "unat (agx_uat_l3_index va) < 2048"
    by (simp_all add: word_less_nat_alt)
  show "unat (agx_uat_ttbr_select va) < 2"
    by (simp add: agx_uat_ttbr_select_def)
qed

section \<open>Addresses and their indices\<close>

text \<open>The four table indices of an address, in the order the walk uses them.\<close>

definition uat_indices :: "u64 \<Rightarrow> nat \<times> nat \<times> nat \<times> nat" where
  "uat_indices va = (unat (agx_uat_ttbr_select va), unat (agx_uat_l1_index va),
     unat (agx_uat_l2_index va), unat (agx_uat_l3_index va))"

lemma uat_indices_eq_iff_bits:
  "uat_indices a = uat_indices b \<longleftrightarrow> (\<forall>i. 14 \<le> i \<and> i < 43 \<longrightarrow> bit a i = bit b i)"
proof
  assume "uat_indices a = uat_indices b"
  then have s: "agx_uat_ttbr_select a = agx_uat_ttbr_select b"
    and l1: "agx_uat_l1_index a = agx_uat_l1_index b"
    and l2: "agx_uat_l2_index a = agx_uat_l2_index b"
    and l3: "agx_uat_l3_index a = agx_uat_l3_index b"
    by (simp_all add: uat_indices_def word_unat_eq_iff)
  show "\<forall>i. 14 \<le> i \<and> i < 43 \<longrightarrow> bit a i = bit b i"
  proof (intro allI impI, elim conjE)
    fix i :: nat assume i: "14 \<le> i" "i < 43"
    consider "i < 25" | "25 \<le> i" "i < 36" | "36 \<le> i" "i < 42" | "i = 42" using i by linarith
    then show "bit a i = bit b i"
    proof cases
      case 1
      with i have "i - 14 < 11" "14 + (i - 14) = i" by simp_all
      with l3 bit_l3_index [of a "i - 14"] bit_l3_index [of b "i - 14"] show ?thesis by simp
    next
      case 2
      then have "i - 25 < 11" "25 + (i - 25) = i" by simp_all
      with l2 bit_l2_index [of a "i - 25"] bit_l2_index [of b "i - 25"] show ?thesis by simp
    next
      case 3
      then have "i - 36 < 6" "36 + (i - 36) = i" by simp_all
      with l1 bit_l1_index [of a "i - 36"] bit_l1_index [of b "i - 36"] show ?thesis by simp
    next
      case 4
      with s show ?thesis by (simp add: ttbr_select_bit split: if_splits)
    qed
  qed
next
  assume "\<forall>i. 14 \<le> i \<and> i < 43 \<longrightarrow> bit a i = bit b i"
  then have "agx_uat_ttbr_select a = agx_uat_ttbr_select b"
    "agx_uat_l1_index a = agx_uat_l1_index b" "agx_uat_l2_index a = agx_uat_l2_index b"
    "agx_uat_l3_index a = agx_uat_l3_index b"
    by (auto simp: ttbr_select_bit bit_l1_index bit_l2_index bit_l3_index word_eq_iff_bits)
  then show "uat_indices a = uat_indices b" by (simp add: uat_indices_def)
qed

lemma uat_indices_inject:
  assumes "a < AGX_UAT_VA_LIMIT" "b < AGX_UAT_VA_LIMIT"
    and "agx_uat_page_offset a = 0" "agx_uat_page_offset b = 0"
  shows "uat_indices a = uat_indices b \<longleftrightarrow> a = b"
proof
  assume "uat_indices a = uat_indices b"
  then have "\<forall>i. 14 \<le> i \<and> i < 43 \<longrightarrow> bit a i = bit b i" by (simp add: uat_indices_eq_iff_bits)
  with assms show "a = b"
    by (intro bit_word_eqI) (metis below_VA_LIMIT_bit page_offset_zero_bit linorder_not_le)
qed simp

section \<open>Descriptors\<close>

lemma bit_uat_pte:
  "bit (agx_uat_pte p f) i \<longleftrightarrow> i < 64 \<and> (if 14 \<le> i \<and> i < 48 then bit p i else bit f i)"
  by (auto simp: agx_uat_pte_def bit_ADDR_MASK bit_simps dest: bit_imp_le_length)

lemma bit_pte_phys: "bit (agx_uat_pte_phys p) i \<longleftrightarrow> 14 \<le> i \<and> i < 48 \<and> bit p i"
  by (auto simp: agx_uat_pte_phys_def bit_ADDR_MASK bit_simps)

lemma pte_phys_pte [simp]: "agx_uat_pte_phys (agx_uat_pte p f) = p AND AGX_UAT_PTE_ADDR_MASK"
  by (auto simp: word_eq_iff_bits bit_pte_phys bit_uat_pte bit_ADDR_MASK bit_simps)

lemma pte_phys_zero [simp]: "agx_uat_pte_phys 0 = 0"
  by (simp add: agx_uat_pte_phys_def)

lemma pte_phys_table_pte [simp]:
  "agx_uat_pte_phys (agx_uat_table_pte p) = p AND AGX_UAT_PTE_ADDR_MASK"
  by (auto simp: word_eq_iff_bits bit_pte_phys agx_uat_table_pte_def bit_ADDR_MASK bit_simps
      AGX_UAT_PTE_VALID_def AGX_UAT_PTE_TYPE_def)

lemma pte_valid_iff: "(pte AND AGX_UAT_PTE_VALID \<noteq> 0) = bit pte 0"
  by (simp add: AGX_UAT_PTE_VALID_def and_bit64_zero_iff)

lemma pte_valid_forced: "bit (agx_uat_pte p (f OR AGX_UAT_PTE_VALID)) 0"
  by (simp add: bit_uat_pte bit_or_iff AGX_UAT_PTE_VALID_def)

lemma table_pte_valid: "bit (agx_uat_table_pte p) 0" "bit (agx_uat_table_pte p) 1"
  by (simp_all add: agx_uat_table_pte_def bit_or_iff AGX_UAT_PTE_VALID_def AGX_UAT_PTE_TYPE_def)

text \<open>A physical address that a descriptor can carry: 16 KB aligned and below \<open>2 ^ 48\<close>.\<close>

definition uat_phys_ok :: "u64 \<Rightarrow> bool" where
  "uat_phys_ok p \<longleftrightarrow> unat p mod 2 ^ 14 = 0 \<and> p < 2 ^ 48"

lemma unat_mod_exp_zero: "unat (p :: u64) mod 2 ^ n = 0 \<longleftrightarrow> (\<forall>i<n. \<not> bit p i)"
proof -
  have "unat p mod 2 ^ n = 0 \<longleftrightarrow> take_bit n p = 0"
    by (simp add: take_bit_eq_mod [symmetric] flip: unsigned_take_bit_eq) (simp add: unat_eq_0)
  then show ?thesis using bit_imp_le_length [of p] by (simp add: word_eq_iff_bits bit_take_bit_iff) blast
qed

lemma uat_phys_ok_iff: "uat_phys_ok p \<longleftrightarrow> agx_uat_page_offset p = 0 \<and> p < 2 ^ 48"
  by (simp only: uat_phys_ok_def unat_mod_exp_zero page_offset_zero_bit)

lemma uat_phys_ok_mask: "uat_phys_ok p \<longleftrightarrow> p AND AGX_UAT_PTE_ADDR_MASK = p"
  using word_less_exp_iff_bits [of 48 p] bit_imp_le_length [of p]
  unfolding uat_phys_ok_iff page_offset_zero_bit
  by (simp add: word_eq_iff_bits bit_simps bit_ADDR_MASK) (meson not_less)

section \<open>TTBR slots\<close>

text \<open>The fields of a TTBR slot, as the hardware reads them.\<close>

definition ttbr_table :: "u64 \<Rightarrow> u64" where
  "ttbr_table t = push_bit AGX_UAT_TTBR_BADDR_SHIFT
     (AGX_FIELD_GET t AGX_UAT_TTBR_BADDR_SHIFT AGX_UAT_TTBR_BADDR_MASK)"

definition ttbr_asid :: "u64 \<Rightarrow> u64" where
  "ttbr_asid t = AGX_FIELD_GET t AGX_UAT_TTBR_ASID_SHIFT AGX_UAT_TTBR_ASID_MASK"

lemma bit_baddr_shift:
  "bit (push_bit AGX_UAT_TTBR_BADDR_SHIFT (x :: u64)) i \<longleftrightarrow> 0 < i \<and> i < 64 \<and> bit x (i - 1)"
  "bit (drop_bit AGX_UAT_TTBR_BADDR_SHIFT (x :: u64)) i \<longleftrightarrow> bit x (i + 1)"
  by (auto simp only: AGX_UAT_TTBR_BADDR_SHIFT_def bit_push_bit_iff bit_drop_bit_eq o_def)
    (simp_all add: add.commute)

lemma bit_ttbr:
  "bit (agx_uat_ttbr p asid) i \<longleftrightarrow> i < 64 \<and>
     (if i = 0 then p \<noteq> 0 else if i < 48 then bit p i else bit asid (i - 48) \<and> i - 48 < 16)"
  unfolding agx_uat_ttbr_def Let_def uat_masks
  by (simp add: bit_baddr_shift AGX_FIELD_PUT_def AGX_UAT_TTBR_ASID_SHIFT_def
      AGX_UAT_TTBR_VALID_def bit_or_iff bit_and_iff bit_mask_iff bit_push_bit_iff bit_unsigned_iff
      del: bit_drop_bit_eq push_bit_and)
    (auto simp: AGX_UAT_TTBR_BADDR_SHIFT_def dest: bit_imp_le_length)

lemma ttbr_zero [simp]: "agx_uat_ttbr 0 0 = 0"
  by (simp add: word_eq_iff_bits bit_ttbr)

lemma ttbr_valid_iff: "bit (agx_uat_ttbr p asid) 0 \<longleftrightarrow> p \<noteq> 0"
  by (simp add: bit_ttbr)

lemma bit_ttbr_table: "bit (ttbr_table (agx_uat_ttbr p asid)) i \<longleftrightarrow> 0 < i \<and> i < 48 \<and> bit p i"
  unfolding ttbr_table_def uat_masks
  by (cases i) (auto simp: AGX_FIELD_GET_def bit_baddr_shift bit_and_iff bit_mask_iff bit_ttbr
      simp del: bit_drop_bit_eq push_bit_and)

text \<open>A slot keeps every even address below \<open>2 ^ 48\<close>: its address field begins at bit 1.\<close>

lemma ttbr_table_iff: "ttbr_table (agx_uat_ttbr p asid) = p \<longleftrightarrow> unat p mod 2 = 0 \<and> p < 2 ^ 48"
proof -
  have "ttbr_table (agx_uat_ttbr p asid) = p \<longleftrightarrow> (\<forall>i. bit p i \<longrightarrow> 0 < i \<and> i < 48)"
    using bit_imp_le_length [of p] by (simp add: word_eq_iff_bits bit_ttbr_table) blast
  then show ?thesis
    using unat_mod_exp_zero [of p 1] word_less_exp_iff_bits [of 48 p] by auto
qed

lemma ttbr_table_ttbr: "uat_phys_ok p \<Longrightarrow> ttbr_table (agx_uat_ttbr p asid) = p"
  unfolding ttbr_table_iff uat_phys_ok_def using unat_mod_exp_zero [of p 14] unat_mod_exp_zero [of p 1] by simp

lemma ttbr_asid_iff: "ttbr_asid (agx_uat_ttbr p asid) = ucast asid \<longleftrightarrow> asid < 2 ^ 16"
proof -
  have b: "bit (ttbr_asid (agx_uat_ttbr p asid)) i \<longleftrightarrow> i < 16 \<and> bit asid i" for i
    unfolding ttbr_asid_def uat_masks by (auto simp: AGX_FIELD_GET_def AGX_UAT_TTBR_ASID_SHIFT_def bit_simps bit_ttbr)
  have u: "bit (ucast asid :: u64) i \<longleftrightarrow> bit asid i" for i
    using bit_imp_le_length [of asid i] by (auto simp: bit_unsigned_iff)
  have "ttbr_asid (agx_uat_ttbr p asid) = ucast asid \<longleftrightarrow> (\<forall>i. bit asid i \<longrightarrow> i < 16)"
  proof -
    have "i < 64" if "bit asid i" for i using bit_imp_le_length [OF that] by simp
    then show ?thesis unfolding bit_eq_iff b u by auto
  qed
  then show ?thesis using word_less_exp_iff_bits [of 16 asid] by simp
qed

end
