(* ===== verification/Uat.thy ===== *)
theory Uat
  imports Uat_Encoding
begin

text \<open>
  The UAT page table walker of \<^verbatim>\<open>src/uat.c\<close> over an explicit store.
  The C code keeps a software tree of \<^verbatim>\<open>struct agx_uat_node\<close> objects next to the
  hardware tables; both live in the heap \<open>uat_mem\<close> here, addressed by pointers, so that
  aliasing, dangling pointers and out-of-range accesses are visible. Every operation
  returns an option: \<open>None\<close> is an access to memory that is not there (undefined
  behaviour in C), and a C status is an ordinary value.
  The allocator callbacks \<^verbatim>\<open>struct agx_uat_ops\<close> are parameters of the model: functions
  on the state behind the opaque \<^verbatim>\<open>ctx\<close> pointer. The field \<open>uat_trace\<close> records, in
  program order, the stores a walking GPU can see and the table pages given back, so that
  ordering can be stated; no operation reads it.
\<close>

type_synonym ptr = u64

record agx_uat_node =
  node_cpu :: ptr
  node_phys :: u64
  node_children :: ptr
  node_child_count :: u32

text \<open>The callbacks. \<open>alloc_table\<close> returns the C status, \<^verbatim>\<open>*cpu\<close>, \<^verbatim>\<open>*phys\<close> and the words
  of the page it hands out; \<open>alloc_bookkeeping\<close> the pointer (0 for NULL) and the words
  of the object.\<close>

record 'e agx_uat_ops =
  alloc_table :: "'e \<Rightarrow> (int \<times> ptr \<times> u64 \<times> u64 list) \<times> 'e"
  free_table :: "'e \<Rightarrow> ptr \<Rightarrow> u64 \<Rightarrow> 'e"
  alloc_bookkeeping :: "'e \<Rightarrow> nat \<Rightarrow> (ptr \<times> ptr list) \<times> 'e"
  free_bookkeeping :: "'e \<Rightarrow> ptr \<Rightarrow> nat \<Rightarrow> 'e"

record uat_mem =
  mem_nodes :: "ptr \<rightharpoonup> agx_uat_node"
  mem_arrays :: "ptr \<rightharpoonup> ptr list"
  mem_tables :: "ptr \<rightharpoonup> u64 list"

datatype uat_event =
    Store_L0 nat u64
  | Store_Table ptr nat u64
  | Free_Table ptr u64

record 'e agx_uat =
  uat_ops :: "'e agx_uat_ops"
  uat_ctx :: 'e
  uat_l0 :: "u64 list"
  uat_l1 :: "ptr list list"
  uat_mem :: uat_mem
  uat_trace :: "uat_event list"

definition sizeof_agx_uat_node :: nat where "sizeof_agx_uat_node = 32"
definition sizeof_ptr :: nat where "sizeof_ptr = 8"

section \<open>Accesses to the store\<close>

definition get_node :: "'e agx_uat \<Rightarrow> ptr \<Rightarrow> agx_uat_node option" where
  "get_node uat p = mem_nodes (uat_mem uat) p"

definition read_array :: "'e agx_uat \<Rightarrow> ptr \<Rightarrow> nat \<Rightarrow> ptr option" where
  "read_array uat a i =
     (case mem_arrays (uat_mem uat) a of
        None \<Rightarrow> None
      | Some xs \<Rightarrow> if i < length xs then Some (xs ! i) else None)"

definition write_array :: "'e agx_uat \<Rightarrow> ptr \<Rightarrow> nat \<Rightarrow> ptr \<Rightarrow> 'e agx_uat option" where
  "write_array uat a i v =
     (case mem_arrays (uat_mem uat) a of
        None \<Rightarrow> None
      | Some xs \<Rightarrow>
          if i < length xs
          then Some (uat\<lparr>uat_mem := (uat_mem uat)\<lparr>mem_arrays :=
                 (mem_arrays (uat_mem uat))(a \<mapsto> xs[i := v])\<rparr>\<rparr>)
          else None)"

definition load_acq :: "'e agx_uat \<Rightarrow> ptr \<Rightarrow> nat \<Rightarrow> u64 option" where
  "load_acq uat c i =
     (case mem_tables (uat_mem uat) c of
        None \<Rightarrow> None
      | Some t \<Rightarrow> if i < length t then Some (t ! i) else None)"

definition store_rel :: "'e agx_uat \<Rightarrow> ptr \<Rightarrow> nat \<Rightarrow> u64 \<Rightarrow> 'e agx_uat option" where
  "store_rel uat c i v =
     (case mem_tables (uat_mem uat) c of
        None \<Rightarrow> None
      | Some t \<Rightarrow>
          if i < length t
          then Some (uat\<lparr>uat_mem := (uat_mem uat)\<lparr>mem_tables :=
                 (mem_tables (uat_mem uat))(c \<mapsto> t[i := v])\<rparr>,
                 uat_trace := uat_trace uat @ [Store_Table c i v]\<rparr>)
          else None)"

section \<open>The functions of uat.c\<close>

definition agx_uat_l0_write ::
  "'e agx_uat \<Rightarrow> u32 \<Rightarrow> u32 \<Rightarrow> u64 \<Rightarrow> u32 \<Rightarrow> 'e agx_uat option" where
  "agx_uat_l0_write uat ctx_id select phys asid =
     (let slot = unat (ctx_id * 2 + select); v = agx_uat_ttbr phys asid
      in if slot < length (uat_l0 uat)
         then Some (uat\<lparr>uat_l0 := (uat_l0 uat)[slot := v],
                        uat_trace := uat_trace uat @ [Store_L0 slot v]\<rparr>)
         else None)"

definition agx_uat_init ::
  "'e agx_uat \<Rightarrow> 'e agx_uat_ops \<Rightarrow> 'e \<Rightarrow> u64 list \<Rightarrow> 'e agx_uat" where
  "agx_uat_init uat ops ctx l0_cpu =
     uat\<lparr>uat_ops := ops, uat_ctx := ctx, uat_l0 := l0_cpu,
         uat_l1 := map (\<lambda>i. map (\<lambda>j. 0) [0..<2]) [0..<unat AGX_UAT_CONTEXT_COUNT]\<rparr>"

definition agx_uat_new_node :: "'e agx_uat \<Rightarrow> u32 \<Rightarrow> ptr \<times> 'e agx_uat" where
  "agx_uat_new_node uat child_count =
     (let ops = uat_ops uat; m = uat_mem uat;
          ((node, _), e1) = alloc_bookkeeping ops (uat_ctx uat) sizeof_agx_uat_node
      in if node = 0 then (0, uat\<lparr>uat_ctx := e1\<rparr>)
         else let ((ret, cpu, phys, page), e2) = alloc_table ops e1
              in if ret \<noteq> 0
                 then (0, uat\<lparr>uat_ctx := free_bookkeeping ops e2 node sizeof_agx_uat_node\<rparr>)
                 else if child_count \<noteq> 0
                 then let ((children, words), e3) =
                            alloc_bookkeeping ops e2 (sizeof_ptr * unat child_count)
                      in if children = 0
                         then (0, uat\<lparr>uat_ctx := free_bookkeeping ops
                                 (free_table ops e3 cpu phys) node sizeof_agx_uat_node\<rparr>)
                         else (node, uat\<lparr>uat_ctx := e3, uat_mem := m\<lparr>
                                mem_nodes := (mem_nodes m)(node \<mapsto>
                                  \<lparr>node_cpu = cpu, node_phys = phys, node_children = children,
                                   node_child_count = child_count\<rparr>),
                                mem_arrays := (mem_arrays m)(children \<mapsto> words),
                                mem_tables := (mem_tables m)(cpu \<mapsto> page)\<rparr>\<rparr>)
                 else (node, uat\<lparr>uat_ctx := e2, uat_mem := m\<lparr>
                         mem_nodes := (mem_nodes m)(node \<mapsto>
                           \<lparr>node_cpu = cpu, node_phys = phys, node_children = 0,
                            node_child_count = child_count\<rparr>),
                         mem_tables := (mem_tables m)(cpu \<mapsto> page)\<rparr>\<rparr>))"

text \<open>The three kinds of release in \<^verbatim>\<open>agx_uat_free_node\<close>: the object leaves the store and
  the callback runs on its address.\<close>

definition release_array :: "'e agx_uat \<Rightarrow> ptr \<Rightarrow> nat \<Rightarrow> 'e agx_uat option" where
  "release_array uat a sz =
     (case mem_arrays (uat_mem uat) a of
        None \<Rightarrow> None
      | Some _ \<Rightarrow> Some (uat\<lparr>uat_ctx := free_bookkeeping (uat_ops uat) (uat_ctx uat) a sz,
            uat_mem := (uat_mem uat)\<lparr>mem_arrays := (mem_arrays (uat_mem uat))(a := None)\<rparr>\<rparr>))"

definition release_table :: "'e agx_uat \<Rightarrow> ptr \<Rightarrow> u64 \<Rightarrow> 'e agx_uat option" where
  "release_table uat c phys =
     (case mem_tables (uat_mem uat) c of
        None \<Rightarrow> None
      | Some _ \<Rightarrow> Some (uat\<lparr>uat_ctx := free_table (uat_ops uat) (uat_ctx uat) c phys,
            uat_mem := (uat_mem uat)\<lparr>mem_tables := (mem_tables (uat_mem uat))(c := None)\<rparr>,
            uat_trace := uat_trace uat @ [Free_Table c phys]\<rparr>))"

definition release_node :: "'e agx_uat \<Rightarrow> ptr \<Rightarrow> 'e agx_uat option" where
  "release_node uat p =
     (case mem_nodes (uat_mem uat) p of
        None \<Rightarrow> None
      | Some _ \<Rightarrow> Some (uat\<lparr>uat_ctx :=
            free_bookkeeping (uat_ops uat) (uat_ctx uat) p sizeof_agx_uat_node,
            uat_mem := (uat_mem uat)\<lparr>mem_nodes := (mem_nodes (uat_mem uat))(p := None)\<rparr>\<rparr>))"

text \<open>The C function recurses along pointers, so the model spends one unit of fuel per level;
  \<open>None\<close> for a node at fuel 0 stands for recursion deeper than the bound.\<close>

primrec agx_uat_free_node ::
  "nat \<Rightarrow> 'e agx_uat \<Rightarrow> ptr \<Rightarrow> u32 \<Rightarrow> 'e agx_uat option" where
  "agx_uat_free_node 0 uat node depth = (if node = 0 then Some uat else None)"
| "agx_uat_free_node (Suc fuel) uat node depth =
     (if node = 0 then Some uat
      else do {
        n \<leftarrow> get_node uat node;
        uat \<leftarrow> (if node_children n \<noteq> 0
          then do {
            uat \<leftarrow> foldO (\<lambda>i uat. do {
                n \<leftarrow> get_node uat node;
                child \<leftarrow> read_array uat (node_children n) i;
                agx_uat_free_node fuel uat child (depth + 1)
              }) [0..<unat (node_child_count n)] uat;
            n \<leftarrow> get_node uat node;
            release_array uat (node_children n) (sizeof_ptr * unat (node_child_count n))
          }
          else Some uat);
        n \<leftarrow> get_node uat node;
        uat \<leftarrow> release_table uat (node_cpu n) (node_phys n);
        release_node uat node
      })"

definition read_l1 :: "'e agx_uat \<Rightarrow> u32 \<Rightarrow> u32 \<Rightarrow> ptr option" where
  "read_l1 uat ctx_id select =
     (if unat ctx_id < length (uat_l1 uat) \<and> unat select < length (uat_l1 uat ! unat ctx_id)
      then Some (uat_l1 uat ! unat ctx_id ! unat select) else None)"

definition write_l1 :: "'e agx_uat \<Rightarrow> u32 \<Rightarrow> u32 \<Rightarrow> ptr \<Rightarrow> 'e agx_uat option" where
  "write_l1 uat ctx_id select v =
     (if unat ctx_id < length (uat_l1 uat) \<and> unat select < length (uat_l1 uat ! unat ctx_id)
      then Some (uat\<lparr>uat_l1 := (uat_l1 uat)
             [unat ctx_id := (uat_l1 uat ! unat ctx_id)[unat select := v]]\<rparr>) else None)"

definition agx_uat_l1 ::
  "'e agx_uat \<Rightarrow> u32 \<Rightarrow> u32 \<Rightarrow> bool \<Rightarrow> u32 \<Rightarrow> (ptr \<times> 'e agx_uat) option" where
  "agx_uat_l1 uat ctx_id select create asid = do {
     node \<leftarrow> read_l1 uat ctx_id select;
     (if node \<noteq> 0 \<or> \<not> create then Some (node, uat)
      else let (node, uat) = agx_uat_new_node uat AGX_UAT_L1_COUNT
           in if node = 0 then Some (0, uat)
              else do {
                uat \<leftarrow> write_l1 uat ctx_id select node;
                n \<leftarrow> get_node uat node;
                uat \<leftarrow> agx_uat_l0_write uat ctx_id select (node_phys n) asid;
                Some (node, uat)
              })
   }"

definition agx_uat_child ::
  "'e agx_uat \<Rightarrow> ptr \<Rightarrow> u32 \<Rightarrow> u32 \<Rightarrow> bool \<Rightarrow> (ptr \<times> 'e agx_uat) option" where
  "agx_uat_child uat parent idx child_count create = do {
     p \<leftarrow> get_node uat parent;
     child \<leftarrow> read_array uat (node_children p) (unat idx);
     (if child \<noteq> 0 \<or> \<not> create then Some (child, uat)
      else let (child, uat) = agx_uat_new_node uat child_count
           in if child = 0 then Some (0, uat)
              else do {
                p \<leftarrow> get_node uat parent;
                uat \<leftarrow> write_array uat (node_children p) (unat idx) child;
                c \<leftarrow> get_node uat child;
                uat \<leftarrow> store_rel uat (node_cpu p) (unat idx) (agx_uat_table_pte (node_phys c));
                Some (child, uat)
              })
   }"

definition agx_uat_map_page ::
  "'e agx_uat \<Rightarrow> u32 \<Rightarrow> u64 \<Rightarrow> u64 \<Rightarrow> u64 \<Rightarrow> (int \<times> 'e agx_uat) option" where
  "agx_uat_map_page uat ctx_id iova phys flags =
     (if AGX_UAT_CONTEXT_COUNT \<le> ctx_id then Some (AGX_EINVAL, uat)
      else if agx_uat_page_offset iova \<noteq> 0 \<or> agx_uat_page_offset phys \<noteq> 0
      then Some (AGX_EINVAL, uat)
      else if AGX_UAT_VA_LIMIT \<le> iova then Some (AGX_EINVAL, uat)
      else do {
        (l1, uat) \<leftarrow> agx_uat_l1 uat ctx_id (agx_uat_ttbr_select iova) True ctx_id;
        if l1 = 0 then Some (AGX_ENOMEM, uat) else do {
        (l2, uat) \<leftarrow> agx_uat_child uat l1 (agx_uat_l1_index iova) AGX_UAT_L2_COUNT True;
        if l2 = 0 then Some (AGX_ENOMEM, uat) else do {
        (l3, uat) \<leftarrow> agx_uat_child uat l2 (agx_uat_l2_index iova) AGX_UAT_L3_COUNT True;
        if l3 = 0 then Some (AGX_ENOMEM, uat) else do {
        n \<leftarrow> get_node uat l3;
        uat \<leftarrow> store_rel uat (node_cpu n) (unat (agx_uat_l3_index iova))
                 (agx_uat_pte phys (flags OR AGX_UAT_PTE_VALID));
        Some (0, uat) }}}
      })"

text \<open>\<^verbatim>\<open>agx_uat_lookup\<close> returns the address and, through \<^verbatim>\<open>*valid\<close>, whether it is mapped.\<close>

definition agx_uat_lookup :: "'e agx_uat \<Rightarrow> u32 \<Rightarrow> u64 \<Rightarrow> (u64 \<times> bool) option" where
  "agx_uat_lookup uat ctx_id iova =
     (if AGX_UAT_CONTEXT_COUNT \<le> ctx_id \<or> AGX_UAT_VA_LIMIT \<le> iova then Some (0, False)
      else do {
        (l1, uat) \<leftarrow> agx_uat_l1 uat ctx_id (agx_uat_ttbr_select iova) False 0;
        if l1 = 0 then Some (0, False) else do {
        (l2, uat) \<leftarrow> agx_uat_child uat l1 (agx_uat_l1_index iova) 0 False;
        if l2 = 0 then Some (0, False) else do {
        (l3, uat) \<leftarrow> agx_uat_child uat l2 (agx_uat_l2_index iova) 0 False;
        if l3 = 0 then Some (0, False) else do {
        n \<leftarrow> get_node uat l3;
        pte \<leftarrow> load_acq uat (node_cpu n) (unat (agx_uat_l3_index iova));
        Some (agx_uat_pte_phys pte, pte AND AGX_UAT_PTE_VALID \<noteq> 0) }}}
      })"

definition agx_uat_unmap_page ::
  "'e agx_uat \<Rightarrow> u32 \<Rightarrow> u64 \<Rightarrow> (int \<times> 'e agx_uat) option" where
  "agx_uat_unmap_page uat ctx_id iova =
     (if AGX_UAT_CONTEXT_COUNT \<le> ctx_id \<or> AGX_UAT_VA_LIMIT \<le> iova then Some (AGX_EINVAL, uat)
      else do {
        (l1, uat) \<leftarrow> agx_uat_l1 uat ctx_id (agx_uat_ttbr_select iova) False 0;
        if l1 = 0 then Some (AGX_ENODATA, uat) else do {
        (l2, uat) \<leftarrow> agx_uat_child uat l1 (agx_uat_l1_index iova) 0 False;
        if l2 = 0 then Some (AGX_ENODATA, uat) else do {
        (l3, uat) \<leftarrow> agx_uat_child uat l2 (agx_uat_l2_index iova) 0 False;
        if l3 = 0 then Some (AGX_ENODATA, uat) else do {
        n \<leftarrow> get_node uat l3;
        pte \<leftarrow> load_acq uat (node_cpu n) (unat (agx_uat_l3_index iova));
        if pte AND AGX_UAT_PTE_VALID = 0 then Some (AGX_ENODATA, uat) else do {
        uat \<leftarrow> store_rel uat (node_cpu n) (unat (agx_uat_l3_index iova)) 0;
        Some (0, uat) }}}}
      })"

text \<open>Tables are at most three levels deep, so four units of fuel are enough for
  \<open>agx_uat_free_node\<close> on every tree the walker builds (\<open>free_context_total\<close> below).\<close>

definition uat_free_fuel :: nat where "uat_free_fuel = 4"

definition agx_uat_free_context :: "'e agx_uat \<Rightarrow> u32 \<Rightarrow> 'e agx_uat option" where
  "agx_uat_free_context uat ctx_id =
     (if AGX_UAT_CONTEXT_COUNT \<le> ctx_id then Some uat
      else foldO (\<lambda>select uat. do {
          node \<leftarrow> read_l1 uat ctx_id select;
          uat \<leftarrow> agx_uat_free_node uat_free_fuel uat node 1;
          uat \<leftarrow> write_l1 uat ctx_id select 0;
          agx_uat_l0_write uat ctx_id select 0 0
        }) [0, 1] uat)"

end
