(* ===== verification/Uat_Inv.thy ===== *)
theory Uat_Inv
  imports Uat
begin

text \<open>
  The data structure invariant of the UAT walker and the contract of its allocator.
  A node is named by the path that leads to it, innermost index first: \<open>[s, c]\<close> is the L1
  node of context \<open>c\<close> and TTBR select \<open>s\<close>, \<open>[i, s, c]\<close> the L2 node below its slot \<open>i\<close>,
  \<open>[j, i, s, c]\<close> the L3 node. The invariant \<open>uat_wf\<close> says that paths and live nodes are in
  bijection, that every node owns one child array and one table page of the right size,
  that nothing is shared and nothing is leaked; \<open>hw_ok\<close> adds that the hardware tables
  mirror the software tree.
\<close>

section \<open>Paths\<close>

definition kid :: "uat_mem \<Rightarrow> ptr \<Rightarrow> nat \<Rightarrow> ptr" where
  "kid m p i =
     (case mem_nodes m p of None \<Rightarrow> 0
      | Some n \<Rightarrow> (case mem_arrays m (node_children n) of None \<Rightarrow> 0
                  | Some xs \<Rightarrow> if i < length xs then xs ! i else 0))"

definition root :: "ptr list list \<Rightarrow> nat \<Rightarrow> nat \<Rightarrow> ptr" where
  "root l c s = (if c < length l \<and> s < length (l ! c) then l ! c ! s else 0)"

fun nd :: "'e agx_uat \<Rightarrow> nat list \<Rightarrow> ptr" where
  "nd u (i # x # y # r) = kid (uat_mem u) (nd u (x # y # r)) i"
| "nd u [s, c] = root (uat_l1 u) c s"
| "nd u _ = 0"

lemma nd_Cons: "2 \<le> length a \<Longrightarrow> nd u (i # a) = kid (uat_mem u) (nd u a) i"
  by (cases a rule: list.exhaust, simp, cases "tl a") (auto simp: Suc_le_eq neq_Nil_conv)

lemma nd_short: "length a < 2 \<Longrightarrow> nd u a = 0"
  by (cases a) (auto simp: less_Suc_eq_0_disj neq_Nil_conv)

lemma nd_nonzero_length: "nd u a \<noteq> 0 \<Longrightarrow> 2 \<le> length a"
  by (metis nd_short not_less)

section \<open>The allocator contract\<close>

text \<open>
  \<open>ainv e B T\<close>: in allocator state \<open>e\<close> the live bookkeeping objects are \<open>B\<close> and the live
  table pages, as pairs of CPU and physical address, are \<open>T\<close>. An allocation that succeeds
  returns zeroed memory at an address not in use; a release returns what was handed out.
\<close>

locale uat_allocator =
  fixes ainv :: "'e \<Rightarrow> ptr set \<Rightarrow> (ptr \<times> u64) set \<Rightarrow> bool"
    and ops :: "'e agx_uat_ops"
  assumes bookkeeping_null:
      "ainv e B T \<Longrightarrow> alloc_bookkeeping ops e n = ((0, ws), e') \<Longrightarrow> ainv e' B T"
    and bookkeeping_fresh:
      "ainv e B T \<Longrightarrow> alloc_bookkeeping ops e n = ((p, ws), e') \<Longrightarrow> p \<noteq> 0 \<Longrightarrow>
         p \<notin> B \<and> ws = replicate (n div 8) 0 \<and> ainv e' (insert p B) T"
    and table_fails:
      "ainv e B T \<Longrightarrow> alloc_table ops e = ((r, c, ph, pg), e') \<Longrightarrow> r \<noteq> 0 \<Longrightarrow> ainv e' B T"
    and table_fresh:
      "ainv e B T \<Longrightarrow> alloc_table ops e = ((0, c, ph, pg), e') \<Longrightarrow>
         c \<notin> fst ` T \<and> ph \<notin> snd ` T \<and> pg = replicate 2048 0 \<and> ainv e' B (insert (c, ph) T)"
    and bookkeeping_release:
      "ainv e B T \<Longrightarrow> p \<in> B \<Longrightarrow> ainv (free_bookkeeping ops e p n) (B - {p}) T"
    and table_release:
      "ainv e B T \<Longrightarrow> (c, ph) \<in> T \<Longrightarrow> ainv (free_table ops e c ph) B (T - {(c, ph)})"

section \<open>The invariant\<close>

definition level_count :: "nat \<Rightarrow> u32" where
  "level_count k = (if k = 2 then AGX_UAT_L1_COUNT else if k = 3 then AGX_UAT_L2_COUNT
     else AGX_UAT_L3_COUNT)"

definition node_ok :: "uat_mem \<Rightarrow> ptr \<Rightarrow> u32 \<Rightarrow> bool" where
  "node_ok m p cnt \<longleftrightarrow> (\<exists>n xs t. mem_nodes m p = Some n \<and> node_children n \<noteq> 0 \<and>
     node_child_count n = cnt \<and> mem_arrays m (node_children n) = Some xs \<and>
     length xs = unat cnt \<and> mem_tables m (node_cpu n) = Some t \<and> length t = 2048)"

definition live_tables :: "uat_mem \<Rightarrow> (ptr \<times> u64) set" where
  "live_tables m = (\<lambda>n. (node_cpu n, node_phys n)) ` ran (mem_nodes m)"

definition live_objects :: "uat_mem \<Rightarrow> ptr set" where
  "live_objects m = dom (mem_nodes m) \<union> dom (mem_arrays m)"

definition l1_shape :: "'e agx_uat \<Rightarrow> bool" where
  "l1_shape u \<longleftrightarrow> length (uat_l1 u) = 64 \<and> (\<forall>c<64. length (uat_l1 u ! c) = 2) \<and>
     length (uat_l0 u) = 128"

definition separated :: "uat_mem \<Rightarrow> bool" where
  "separated m \<longleftrightarrow> mem_nodes m 0 = None \<and> dom (mem_nodes m) \<inter> dom (mem_arrays m) = {} \<and>
     (\<forall>p q n n'. mem_nodes m p = Some n \<longrightarrow> mem_nodes m q = Some n' \<longrightarrow> p \<noteq> q \<longrightarrow>
        node_children n \<noteq> node_children n' \<and> node_cpu n \<noteq> node_cpu n' \<and>
        node_phys n \<noteq> node_phys n')"

definition no_leak :: "'e agx_uat \<Rightarrow> bool" where
  "no_leak u \<longleftrightarrow> dom (mem_nodes (uat_mem u)) = range (nd u) - {0} \<and>
     dom (mem_arrays (uat_mem u)) = node_children ` ran (mem_nodes (uat_mem u)) \<and>
     dom (mem_tables (uat_mem u)) = node_cpu ` ran (mem_nodes (uat_mem u))"

definition tree_ok :: "'e agx_uat \<Rightarrow> bool" where
  "tree_ok u \<longleftrightarrow>
     (\<forall>a b. nd u a = nd u b \<longrightarrow> nd u a \<noteq> 0 \<longrightarrow> a = b) \<and>
     (\<forall>a. nd u a \<noteq> 0 \<longrightarrow> length a \<le> 4 \<and> node_ok (uat_mem u) (nd u a) (level_count (length a)))"

definition uat_wf :: "('e \<Rightarrow> ptr set \<Rightarrow> (ptr \<times> u64) set \<Rightarrow> bool) \<Rightarrow> 'e agx_uat \<Rightarrow> bool" where
  "uat_wf I u \<longleftrightarrow> l1_shape u \<and> separated (uat_mem u) \<and> no_leak u \<and> tree_ok u \<and>
     I (uat_ctx u) (live_objects (uat_mem u)) (live_tables (uat_mem u))"

section \<open>New nodes\<close>

definition add_node :: "uat_mem \<Rightarrow> ptr \<Rightarrow> agx_uat_node \<Rightarrow> uat_mem" where
  "add_node m q n = m\<lparr>mem_nodes := (mem_nodes m)(q \<mapsto> n),
     mem_arrays := (mem_arrays m)(node_children n \<mapsto> replicate (unat (node_child_count n)) 0),
     mem_tables := (mem_tables m)(node_cpu n \<mapsto> replicate 2048 0)\<rparr>"

context uat_allocator
begin

lemma new_node_cases:
  assumes I: "ainv (uat_ctx u) B T" and ops: "uat_ops u = ops" and cnt: "cnt \<noteq> 0"
    and r: "agx_uat_new_node u cnt = (q, u1)"
  obtains (null) e where "q = 0" "u1 = u\<lparr>uat_ctx := e\<rparr>" "ainv e B T"
  | (fresh) e n where "q \<noteq> 0" "q \<notin> B" "node_children n \<notin> insert q B" "node_children n \<noteq> 0"
      "node_cpu n \<notin> fst ` T" "node_phys n \<notin> snd ` T" "node_child_count n = cnt"
      "u1 = u\<lparr>uat_ctx := e, uat_mem := add_node (uat_mem u) q n\<rparr>"
      "ainv e (insert (node_children n) (insert q B)) (insert (node_cpu n, node_phys n) T)"
proof -
  obtain p ws e1 where a1: "alloc_bookkeeping ops (uat_ctx u) sizeof_agx_uat_node = ((p, ws), e1)"
    by (metis prod.collapse)
  show thesis
  proof (cases "p = 0")
    case True
    with I a1 have "ainv e1 B T" by (auto intro: bookkeeping_null)
    with True r a1 ops show thesis by (intro null) (auto simp: agx_uat_new_node_def)
  next
    case p: False
    with I a1 have p_new: "p \<notin> B" and I1: "ainv e1 (insert p B) T"
      by (auto dest: bookkeeping_fresh)
    obtain r' cpu ph pg e2 where a2: "alloc_table ops e1 = ((r', cpu, ph, pg), e2)"
      by (metis prod.collapse)
    show thesis
    proof (cases "r' = 0")
      case False
      with I1 a2 have "ainv e2 (insert p B) T" by (auto intro: table_fails)
      then have "ainv (free_bookkeeping ops e2 p sizeof_agx_uat_node) B T"
        using bookkeeping_release [of e2 "insert p B" T p] p_new by simp
      with False r a1 a2 p ops show thesis by (intro null) (auto simp: agx_uat_new_node_def)
    next
      case r0: True
      with I1 a2 have t_new: "cpu \<notin> fst ` T" "ph \<notin> snd ` T" and pg: "pg = replicate 2048 0"
        and I2: "ainv e2 (insert p B) (insert (cpu, ph) T)"
        by (auto dest: table_fresh)
      obtain ch ws' e3 where
        a3: "alloc_bookkeeping ops e2 (sizeof_ptr * unat cnt) = ((ch, ws'), e3)"
        by (metis prod.collapse)
      show thesis
      proof (cases "ch = 0")
        case True
        with I2 a3 have "ainv e3 (insert p B) (insert (cpu, ph) T)"
          by (auto intro: bookkeeping_null)
        moreover have "(cpu, ph) \<notin> T" using t_new by force
        ultimately have "ainv (free_table ops e3 cpu ph) (insert p B) T"
          using table_release [of e3 "insert p B" "insert (cpu, ph) T" cpu ph] by simp
        then have "ainv (free_bookkeeping ops (free_table ops e3 cpu ph) p sizeof_agx_uat_node) B T"
          using bookkeeping_release [of _ "insert p B" T p] p_new by force
        with True r a1 a2 a3 p r0 ops cnt show thesis
          by (intro null) (auto simp: agx_uat_new_node_def)
      next
        case False
        let ?n = "\<lparr>node_cpu = cpu, node_phys = ph, node_children = ch, node_child_count = cnt\<rparr>"
        have "ch \<notin> insert p B" "ws' = replicate (unat cnt) 0"
          and "ainv e3 (insert ch (insert p B)) (insert (cpu, ph) T)"
          using bookkeeping_fresh [OF I2 a3 False] by (simp_all add: sizeof_ptr_def)
        moreover from this False r a1 a2 a3 p r0 ops cnt pg
        have "q = p" "u1 = u\<lparr>uat_ctx := e3, uat_mem := add_node (uat_mem u) q ?n\<rparr>"
          by (auto simp: agx_uat_new_node_def add_node_def Let_def)
        ultimately show thesis
          using False p p_new t_new by (intro fresh [of ?n e3]) simp_all
      qed
    qed
  qed
qed

end


section \<open>Consequences of the invariant\<close>

lemma kid_null: "separated m \<Longrightarrow> kid m 0 i = 0"
  by (simp add: kid_def separated_def)

lemma wf_inj: "uat_wf I u \<Longrightarrow> nd u a = nd u b \<Longrightarrow> nd u a \<noteq> 0 \<Longrightarrow> a = b"
  by (simp add: uat_wf_def tree_ok_def)

lemma wf_node:
  assumes "uat_wf I u" "nd u a \<noteq> 0"
  obtains n xs t where "get_node u (nd u a) = Some n" "node_children n \<noteq> 0"
    "node_child_count n = level_count (length a)"
    "mem_arrays (uat_mem u) (node_children n) = Some xs" "length xs = unat (level_count (length a))"
    "mem_tables (uat_mem u) (node_cpu n) = Some t" "length t = 2048"
  using assms by (auto simp: uat_wf_def tree_ok_def node_ok_def get_node_def)

lemma wf_depth: "uat_wf I u \<Longrightarrow> nd u a \<noteq> 0 \<Longrightarrow> length a \<le> 4"
  by (simp add: uat_wf_def tree_ok_def)

lemma wf_sep: "uat_wf I u \<Longrightarrow> separated (uat_mem u)"
  by (simp add: uat_wf_def)

lemma read_array_nd:
  assumes "uat_wf I u" "nd u a \<noteq> 0" "get_node u (nd u a) = Some n"
    and "i < unat (level_count (length a))"
  shows "read_array u (node_children n) i = Some (nd u (i # a))"
proof -
  from wf_node [OF assms(1,2)] assms(3) obtain xs where
    "mem_arrays (uat_mem u) (node_children n) = Some xs" "length xs = unat (level_count (length a))"
    by (metis option.inject)
  then show ?thesis
    using assms nd_nonzero_length [OF assms(2)]
    by (simp add: read_array_def nd_Cons kid_def get_node_def)
qed

lemma read_l1_nd:
  assumes "l1_shape u" "ctx_id < AGX_UAT_CONTEXT_COUNT" "unat select < 2"
  shows "read_l1 u ctx_id select = Some (nd u [unat select, unat ctx_id])"
  using assms by (simp add: read_l1_def root_def l1_shape_def word_less_nat_alt)

lemma level_count_simps [simp]:
  "level_count 2 = AGX_UAT_L1_COUNT" "level_count 3 = AGX_UAT_L2_COUNT"
  "level_count 4 = AGX_UAT_L3_COUNT" "level_count (Suc (Suc 0)) = AGX_UAT_L1_COUNT"
  "level_count (Suc (Suc (Suc 0))) = AGX_UAT_L2_COUNT"
  "level_count (Suc (Suc (Suc (Suc 0)))) = AGX_UAT_L3_COUNT"
  by (simp_all add: level_count_def)

section \<open>Attaching a node keeps the invariant\<close>

lemma wf_attach:
  assumes wf: "uat_wf I u" and free: "nd u b = 0" and depth: "length b \<le> 4"
    and nd': "nd u' = (nd u)(b := q)" and q: "q \<noteq> 0" "q \<notin> live_objects (uat_mem u)"
    and ch: "node_children n \<notin> insert q (live_objects (uat_mem u))"
    and cpu: "node_cpu n \<notin> fst ` live_tables (uat_mem u)"
    and ph: "node_phys n \<notin> snd ` live_tables (uat_mem u)"
    and nodes': "mem_nodes (uat_mem u') = (mem_nodes (uat_mem u))(q \<mapsto> n)"
    and arrays': "dom (mem_arrays (uat_mem u')) =
      insert (node_children n) (dom (mem_arrays (uat_mem u)))"
    and tables': "dom (mem_tables (uat_mem u')) = insert (node_cpu n) (dom (mem_tables (uat_mem u)))"
    and okq: "node_ok (uat_mem u') q (level_count (length b))"
    and mono: "\<And>p c. node_ok (uat_mem u) p c \<Longrightarrow> node_ok (uat_mem u') p c"
    and shape: "l1_shape u'"
    and I': "I (uat_ctx u') (insert (node_children n) (insert q (live_objects (uat_mem u))))
      (insert (node_cpu n, node_phys n) (live_tables (uat_mem u)))"
  shows "uat_wf I u'"
proof -
  have new: "mem_nodes (uat_mem u) q = None" using q by (auto simp: live_objects_def dom_def)
  then have ran': "ran (mem_nodes (uat_mem u')) = insert n (ran (mem_nodes (uat_mem u)))"
    by (simp add: nodes' ran_map_upd)
  have ch_new: "n' \<in> ran (mem_nodes (uat_mem u)) \<Longrightarrow> node_children n' \<noteq> node_children n"
    "n' \<in> ran (mem_nodes (uat_mem u)) \<Longrightarrow> node_cpu n' \<noteq> node_cpu n \<and> node_phys n' \<noteq> node_phys n"
    for n'
  proof -
    assume n': "n' \<in> ran (mem_nodes (uat_mem u))"
    have "node_children n' \<in> dom (mem_arrays (uat_mem u))"
      using wf n' by (auto simp: uat_wf_def no_leak_def)
    with ch show "node_children n' \<noteq> node_children n" by (auto simp: live_objects_def)
    show "node_cpu n' \<noteq> node_cpu n \<and> node_phys n' \<noteq> node_phys n"
      using cpu ph n' by (auto simp: live_tables_def image_iff)
  qed
  have sep: "separated (uat_mem u')"
    unfolding separated_def
  proof (intro conjI allI impI)
    show "mem_nodes (uat_mem u') 0 = None" "dom (mem_nodes (uat_mem u')) \<inter> dom (mem_arrays (uat_mem u')) = {}"
      using wf_sep [OF wf] q ch by (auto simp: separated_def nodes' arrays' live_objects_def)
  next
    fix p r n1 n2
    assume n12: "mem_nodes (uat_mem u') p = Some n1" "mem_nodes (uat_mem u') r = Some n2" "p \<noteq> r"
    consider "p = q" | "r = q" | "p \<noteq> q" "r \<noteq> q" by blast
    then have "node_children n1 \<noteq> node_children n2 \<and> node_cpu n1 \<noteq> node_cpu n2 \<and>
      node_phys n1 \<noteq> node_phys n2"
    proof cases
      case 1
      with n12 have "n1 = n" "n2 \<in> ran (mem_nodes (uat_mem u))" by (auto simp: nodes' intro: ranI)
      with ch_new [of n2] show ?thesis by auto
    next
      case 2
      with n12 have "n2 = n" "n1 \<in> ran (mem_nodes (uat_mem u))" by (auto simp: nodes' intro: ranI)
      with ch_new [of n1] show ?thesis by auto
    next
      case 3
      with n12 wf_sep [OF wf] show ?thesis by (simp add: nodes' separated_def)
    qed
    then show "node_children n1 \<noteq> node_children n2" "node_cpu n1 \<noteq> node_cpu n2"
      "node_phys n1 \<noteq> node_phys n2" by simp_all
  qed
  have old: "q \<notin> range (nd u)"
  proof -
    have "dom (mem_nodes (uat_mem u)) = range (nd u) - {0}"
      using wf by (simp add: uat_wf_def no_leak_def)
    with new have "q \<notin> range (nd u) - {0}" by (metis domIff)
    with q(1) show ?thesis by simp
  qed
  have dom_nodes: "dom (mem_nodes (uat_mem u')) = range (nd u') - {0}"
  proof -
    have "range (nd u') - {0} = insert q (range (nd u) - {0})"
      unfolding nd' using free q(1) by (auto simp: image_iff)
    with wf show ?thesis by (simp add: uat_wf_def no_leak_def nodes')
  qed
  have leak: "no_leak u'"
    using wf dom_nodes unfolding no_leak_def uat_wf_def arrays' tables' ran' by auto
  have tree: "tree_ok u'"
    unfolding tree_ok_def nd' using wf okq mono old depth
    by (auto simp: uat_wf_def tree_ok_def image_iff)
  have "live_objects (uat_mem u') = insert (node_children n) (insert q (live_objects (uat_mem u)))"
    by (auto simp: live_objects_def nodes' arrays')
  moreover have "live_tables (uat_mem u') =
      insert (node_cpu n, node_phys n) (live_tables (uat_mem u))"
    by (simp add: live_tables_def ran')
  ultimately show ?thesis
    using sep leak tree shape I' by (simp add: uat_wf_def)
qed

end
