(* ===== verification/Uat_Map.thy ===== *)
theory Uat_Map
  imports Uat_Inv
begin

text \<open>
  Correctness of \<^verbatim>\<open>agx_uat_l1\<close>, \<^verbatim>\<open>agx_uat_child\<close>, \<^verbatim>\<open>agx_uat_map_page\<close>,
  \<^verbatim>\<open>agx_uat_unmap_page\<close> and \<^verbatim>\<open>agx_uat_lookup\<close>: under the allocator contract they never
  fault, keep the invariant and change exactly one entry of the translation.
\<close>

section \<open>Views of the store by path\<close>

definition ent :: "uat_mem \<Rightarrow> ptr \<Rightarrow> nat \<Rightarrow> u64" where
  "ent m p k =
     (case mem_nodes m p of None \<Rightarrow> 0
      | Some n \<Rightarrow> (case mem_tables m (node_cpu n) of None \<Rightarrow> 0
                  | Some t \<Rightarrow> if k < length t then t ! k else 0))"

definition entry :: "'e agx_uat \<Rightarrow> nat list \<Rightarrow> nat \<Rightarrow> u64" where
  "entry u a k = ent (uat_mem u) (nd u a) k"

definition phys_at :: "'e agx_uat \<Rightarrow> nat list \<Rightarrow> u64" where
  "phys_at u a = (case mem_nodes (uat_mem u) (nd u a) of None \<Rightarrow> 0 | Some n \<Rightarrow> node_phys n)"

text \<open>The hardware tables mirror the software tree.\<close>

definition hw_ok :: "'e agx_uat \<Rightarrow> bool" where
  "hw_ok u \<longleftrightarrow>
     (\<forall>c<64. \<forall>s<2. uat_l0 u ! (2 * c + s) =
        (if nd u [s, c] = 0 then 0 else agx_uat_ttbr (phys_at u [s, c]) (word_of_nat c))) \<and>
     (\<forall>a i. nd u a \<noteq> 0 \<longrightarrow> length a < 4 \<longrightarrow>
        entry u a i = (if nd u (i # a) = 0 then 0 else agx_uat_table_pte (phys_at u (i # a))))"

section \<open>Linking a fresh node into a parent\<close>

definition link_mem :: "uat_mem \<Rightarrow> ptr \<Rightarrow> agx_uat_node \<Rightarrow> agx_uat_node \<Rightarrow> nat \<Rightarrow> uat_mem" where
  "link_mem m q n np i =
     (let m1 = add_node m q n
      in m1\<lparr>mem_arrays := (mem_arrays m1)(node_children np \<mapsto>
               (the (mem_arrays m (node_children np)))[i := q]),
            mem_tables := (mem_tables m1)(node_cpu np \<mapsto>
               (the (mem_tables m (node_cpu np)))[i := agx_uat_table_pte (node_phys n)])\<rparr>)"

definition linkable ::
  "uat_mem \<Rightarrow> ptr \<Rightarrow> ptr \<Rightarrow> agx_uat_node \<Rightarrow> agx_uat_node \<Rightarrow> ptr list \<Rightarrow> u64 list \<Rightarrow> nat \<Rightarrow> bool" where
  "linkable m p q n np xs t i \<longleftrightarrow> separated m \<and>
     dom (mem_arrays m) = node_children ` ran (mem_nodes m) \<and>
     dom (mem_tables m) = node_cpu ` ran (mem_nodes m) \<and>
     mem_nodes m p = Some np \<and> mem_arrays m (node_children np) = Some xs \<and>
     mem_tables m (node_cpu np) = Some t \<and> i < length xs \<and> i < length t \<and>
     mem_nodes m q = None \<and> q \<noteq> 0 \<and> node_children n \<notin> dom (mem_arrays m) \<and>
     node_cpu n \<notin> dom (mem_tables m)"

lemma linkable_distinct:
  assumes "linkable m p q n np xs t i"
  shows "p \<noteq> q" "node_children np \<noteq> node_children n" "node_cpu np \<noteq> node_cpu n"
  using assms by (auto simp: linkable_def dom_def)

lemma linkable_other:
  assumes L: "linkable m p q n np xs t i" and r: "mem_nodes m r = Some nr" "r \<noteq> p"
  shows "node_children nr \<noteq> node_children np" "node_cpu nr \<noteq> node_cpu np"
    "node_children nr \<noteq> node_children n" "node_cpu nr \<noteq> node_cpu n"
proof -
  show "node_children nr \<noteq> node_children np" "node_cpu nr \<noteq> node_cpu np"
    using r L by (auto simp: separated_def linkable_def)
  have "nr \<in> ran (mem_nodes m)" using r(1) by (rule ranI)
  then have "node_children nr \<in> dom (mem_arrays m)" "node_cpu nr \<in> dom (mem_tables m)"
    using L by (simp_all add: linkable_def)
  then show "node_children nr \<noteq> node_children n" "node_cpu nr \<noteq> node_cpu n"
    using L by (auto simp: linkable_def)
qed

lemmas link_simps = link_mem_def add_node_def Let_def

lemma link_kid:
  assumes L: "linkable m p q n np xs t i"
  shows "kid (link_mem m q n np i) r j = (if r = p \<and> j = i then q else kid m r j)"
proof -
  consider "r = q" | "r = p" | "r \<noteq> p" "r \<noteq> q" by blast
  then show ?thesis
  proof cases
    case 1
    then show ?thesis using linkable_distinct [OF L] L by (simp add: linkable_def kid_def link_simps)
  next
    case 2
    then show ?thesis using linkable_distinct [OF L] L
      by (simp add: linkable_def kid_def link_simps nth_list_update)
  next
    case 3
    then show ?thesis using linkable_other [OF L, of r]
      by (cases "mem_nodes m r") (simp_all add: kid_def link_simps)
  qed
qed

lemma link_ent:
  assumes L: "linkable m p q n np xs t i"
  shows "ent (link_mem m q n np i) r k =
     (if r = p \<and> k = i then agx_uat_table_pte (node_phys n) else ent m r k)"
proof -
  consider "r = q" | "r = p" | "r \<noteq> p" "r \<noteq> q" by blast
  then show ?thesis
  proof cases
    case 1
    then show ?thesis using linkable_distinct [OF L] L by (simp add: linkable_def ent_def link_simps)
  next
    case 2
    then show ?thesis using linkable_distinct [OF L] L
      by (simp add: linkable_def ent_def link_simps nth_list_update)
  next
    case 3
    then show ?thesis using linkable_other [OF L, of r]
      by (cases "mem_nodes m r") (simp_all add: ent_def link_simps)
  qed
qed

lemma link_node_ok:
  assumes L: "linkable m p q n np xs t i" and ok: "node_ok m r c"
  shows "node_ok (link_mem m q n np i) r c"
proof -
  obtain nr where nr: "mem_nodes m r = Some nr" using ok by (auto simp: node_ok_def)
  then have "r \<noteq> q" using L by (auto simp: linkable_def)
  show ?thesis
  proof (cases "r = p")
    case True
    then show ?thesis using ok nr linkable_distinct [OF L] L
      by (simp add: node_ok_def linkable_def link_simps)
  next
    case False
    with linkable_other [OF L nr] nr \<open>r \<noteq> q\<close> ok show ?thesis
      by (simp add: node_ok_def link_simps)
  qed
qed

lemma link_node_ok_new:
  assumes L: "linkable m p q n np xs t i" and "node_children n \<noteq> 0"
  shows "node_ok (link_mem m q n np i) q (node_child_count n)"
  using assms(2) linkable_distinct [OF L] by (simp add: node_ok_def link_simps)

lemma link_doms:
  assumes L: "linkable m p q n np xs t i"
  shows "mem_nodes (link_mem m q n np i) = (mem_nodes m)(q \<mapsto> n)"
    "dom (mem_arrays (link_mem m q n np i)) = insert (node_children n) (dom (mem_arrays m))"
    "dom (mem_tables (link_mem m q n np i)) = insert (node_cpu n) (dom (mem_tables m))"
  using L by (auto simp: linkable_def link_simps dom_def)

section \<open>Creating the child of a node\<close>

lemma nd_link:
  assumes wf: "uat_wf I u" and a: "nd u a = p" "p \<noteq> 0" and free: "nd u (i # a) = 0"
    and L: "linkable (uat_mem u) p q n np xs t i"
    and u': "uat_mem u' = link_mem (uat_mem u) q n np i" "uat_l1 u' = uat_l1 u"
  shows "nd u' = (nd u)(i # a := q)"
proof
  fix b
  have la: "2 \<le> length a" using a nd_nonzero_length by blast
  show "nd u' b = ((nd u)(i # a := q)) b"
  proof (induction b)
    case Nil
    then show ?case by simp
  next
    case (Cons j b)
    consider "length b < 1" | "length b = 1" | "2 \<le> length b" by linarith
    then show ?case
    proof cases
      case 3
      have q_kid: "kid (uat_mem u) q j = 0" using L by (simp add: linkable_def kid_def)
      have pq: "p \<noteq> q" using linkable_distinct [OF L] by simp
      show ?thesis
      proof (cases "b = i # a")
        case True
        with Cons 3 free show ?thesis
          using q_kid pq kid_null [OF wf_sep [OF wf]]
          by (simp add: nd_Cons u' link_kid [OF L])
      next
        case False
        with Cons have b: "nd u' b = nd u b" by simp
        have "nd u b = p \<longleftrightarrow> b = a" using wf_inj [OF wf, of b a] a by auto
        with 3 la show ?thesis
          by (simp add: nd_Cons b u' link_kid [OF L])
      qed
    qed (use la in \<open>auto simp: length_Suc_conv u'\<close>)
  qed
qed


lemma nd_cong:
  assumes "uat_l1 u' = uat_l1 u" "uat_mem u' = uat_mem u"
  shows "nd u' = nd u"
proof
  fix a show "nd u' a = nd u a"
    using assms by (induction u' a rule: nd.induct) simp_all
qed

lemma view_cong:
  assumes "uat_l1 u' = uat_l1 u" "uat_mem u' = uat_mem u"
  shows "nd u' = nd u" "entry u' = entry u" "phys_at u' = phys_at u"
  using nd_cong [OF assms] assms(2) by (auto simp: entry_def phys_at_def fun_eq_iff)

lemma nd_upd [simp]:
  "nd (u\<lparr>uat_ctx := e\<rparr>) = nd u" "nd (u\<lparr>uat_l0 := l0\<rparr>) = nd u" "nd (u\<lparr>uat_trace := tr\<rparr>) = nd u"
  by (rule nd_cong; simp)+

text \<open>What one creation step guarantees: the node at path \<open>b\<close> becomes \<open>c\<close>, every other path,
  every leaf entry and the invariants are kept.\<close>

definition grown ::
  "('e \<Rightarrow> ptr set \<Rightarrow> (ptr \<times> u64) set \<Rightarrow> bool) \<Rightarrow> 'e agx_uat \<Rightarrow> 'e agx_uat \<Rightarrow> nat list \<Rightarrow> ptr \<Rightarrow> bool"
  where
  "grown I u u' b c \<longleftrightarrow> uat_wf I u' \<and> uat_ops u' = uat_ops u \<and> nd u' = (nd u)(b := c) \<and>
     (hw_ok u \<longrightarrow> hw_ok u') \<and> (\<forall>d k. length d = 4 \<longrightarrow> entry u' d k = entry u d k)"

lemma grown_refl: "uat_wf I u \<Longrightarrow> c = nd u b \<Longrightarrow> grown I u u b c"
  by (simp add: grown_def)

lemma grown_ctx:
  assumes "uat_wf I u" "nd u b = 0" "I e (live_objects (uat_mem u)) (live_tables (uat_mem u))"
  shows "grown I u (u\<lparr>uat_ctx := e\<rparr>) b 0"
proof -
  let ?u = "u\<lparr>uat_ctx := e\<rparr>"
  have v: "nd ?u = nd u" "entry ?u = entry u" "phys_at ?u = phys_at u"
    by (rule view_cong; simp)+
  have "uat_wf I ?u"
    using assms by (simp add: uat_wf_def l1_shape_def no_leak_def tree_ok_def v)
  moreover have "hw_ok ?u = hw_ok u" by (simp add: hw_ok_def v)
  ultimately show ?thesis using assms(2) by (simp add: grown_def v fun_upd_idem)
qed

lemma hw_ok_link:
  assumes wf: "uat_wf I u" and hw: "hw_ok u" and a: "nd u a \<noteq> 0"
    and free: "nd u (i # a) = 0" and q: "q \<noteq> 0" "mem_nodes (uat_mem u) q = None"
    and nd': "nd u' = (nd u)(i # a := q)"
    and nodes': "mem_nodes (uat_mem u') = (mem_nodes (uat_mem u))(q \<mapsto> n)"
    and ent': "\<And>b k. entry u' b k =
      (if b = a \<and> k = i then agx_uat_table_pte (node_phys n) else entry u b k)"
    and l0: "uat_l0 u' = uat_l0 u"
  shows "hw_ok u'"
proof -
  have la: "2 \<le> length a" using a nd_nonzero_length by blast
  have phys_new: "phys_at u' (i # a) = node_phys n"
    by (simp add: phys_at_def nd' nodes')
  have phys_old: "phys_at u' b = phys_at u b" if "b \<noteq> i # a" for b
  proof (cases "nd u b = q")
    case True
    then have "nd u b \<in> range (nd u) - {0}" using q(1) by (metis DiffI rangeI singletonD)
    with True q(2) wf show ?thesis
      by (metis domIff no_leak_def uat_wf_def)
  next
    case False
    with that show ?thesis by (simp add: phys_at_def nd' nodes')
  qed
  have below: "nd u (j # i # a) = 0" for j
    using la free kid_null [OF wf_sep [OF wf]] by (simp add: nd_Cons)
  have zero: "entry u (i # a) k = 0" for k
    using free wf_sep [OF wf] by (simp add: entry_def ent_def separated_def)
  have roots: "[s, c] \<noteq> i # a" for s c using la by auto
  show ?thesis
    unfolding hw_ok_def l0
  proof (intro conjI allI impI)
    fix c s :: nat assume "c < 64" "s < 2"
    with hw show "uat_l0 u ! (2 * c + s) = (if nd u' [s, c] = 0 then 0
        else agx_uat_ttbr (phys_at u' [s, c]) (word_of_nat c))"
      using roots [of s c] phys_old [of "[s, c]"] by (auto simp: hw_ok_def nd')
  next
    fix b j assume b: "nd u' b \<noteq> 0" "length b < 4"
    consider "b = i # a" | "b = a" "j = i" | "b \<noteq> i # a" "j # b \<noteq> i # a" by blast
    then show "entry u' b j = (if nd u' (j # b) = 0 then 0
        else agx_uat_table_pte (phys_at u' (j # b)))"
    proof cases
      case 1
      then show ?thesis using below zero by (simp add: ent' nd')
    next
      case 2
      then show ?thesis using q by (simp add: ent' nd' phys_new)
    next
      case 3
      then have "b \<noteq> a \<or> j \<noteq> i" by auto
      with 3 b hw show ?thesis by (auto simp: ent' nd' phys_old hw_ok_def)
    qed
  qed
qed

context uat_allocator
begin

lemma child_create:
  assumes wf: "uat_wf ainv u" and ops: "uat_ops u = ops" and p: "nd u a \<noteq> 0"
    and la: "length a < 4" and idx: "unat idx < unat (level_count (length a))"
  obtains c u' where
    "agx_uat_child u (nd u a) idx (level_count (Suc (length a))) True = Some (c, u')"
    "grown ainv u u' (unat idx # a) c"
proof -
  let ?m = "uat_mem u" and ?p = "nd u a" and ?i = "unat idx"
  obtain np xs t where np: "get_node u ?p = Some np"
      "mem_arrays ?m (node_children np) = Some xs" "length xs = unat (level_count (length a))"
      "mem_tables ?m (node_cpu np) = Some t" "length t = 2048"
    using wf p by (rule wf_node)
  have rd: "read_array u (node_children np) ?i = Some (nd u (?i # a))"
    using wf p np(1) idx by (rule read_array_nd)
  show thesis
  proof (cases "nd u (?i # a) = 0")
    case False
    with np(1) rd wf show thesis by (intro that) (auto simp: agx_uat_child_def grown_refl)
  next
    case free: True
    obtain q u1 where r: "agx_uat_new_node u (level_count (Suc (length a))) = (q, u1)"
      by (metis prod.collapse)
    have I: "ainv (uat_ctx u) (live_objects ?m) (live_tables ?m)" using wf by (simp add: uat_wf_def)
    have cnt: "level_count (Suc (length a)) \<noteq> 0"
      by (simp add: level_count_def uat_geometry_defs push_bit_eq_mult)
    from I ops cnt r show thesis
    proof (cases rule: new_node_cases)
      case (null e)
      with free np(1) rd r grown_ctx [OF wf free null(3)] show thesis
        by (intro that) (auto simp: agx_uat_child_def)
    next
      case (fresh e n)
      have q: "mem_nodes ?m q = None" using fresh(2) by (auto simp: live_objects_def dom_def)
      have arr: "node_children n \<notin> dom (mem_arrays ?m)" using fresh(3) by (auto simp: live_objects_def)
      have leak: "dom (mem_arrays ?m) = node_children ` ran (mem_nodes ?m)"
        "dom (mem_tables ?m) = node_cpu ` ran (mem_nodes ?m)"
        using wf by (simp_all add: uat_wf_def no_leak_def)
      have tab: "node_cpu n \<notin> dom (mem_tables ?m)"
        using fresh(5) by (auto simp: leak(2) live_tables_def image_iff)
      have i2048: "?i < 2048" using idx by (simp add: level_count_def split: if_splits)
      have L: "linkable ?m ?p q n np xs t ?i"
        using wf_sep [OF wf] leak np idx i2048 q fresh(1) arr tab by (simp add: linkable_def get_node_def)
      define u' where "u' = u1\<lparr>uat_mem := link_mem ?m q n np ?i,
         uat_trace := uat_trace u1 @ [Store_Table (node_cpu np) ?i (agx_uat_table_pte (node_phys n))]\<rparr>"
      have run: "agx_uat_child u ?p idx (level_count (Suc (length a))) True = Some (q, u')"
        using np rd r free fresh(1,8) L linkable_distinct [OF L]
        by (simp add: agx_uat_child_def get_node_def write_array_def store_rel_def linkable_def
            link_simps u'_def)
      have nd': "nd u' = (nd u)(?i # a := q)"
        using wf refl p free L by (rule nd_link) (simp_all add: u'_def fresh(8))
      have mem': "uat_mem u' = link_mem ?m q n np ?i" by (simp add: u'_def)
      have ent': "entry u' b k = (if b = a \<and> k = ?i then agx_uat_table_pte (node_phys n)
          else entry u b k)" for b k
      proof -
        have "nd u b = ?p \<longleftrightarrow> b = a" using wf_inj [OF wf, of b a] p by auto
        moreover have "nd u (?i # a) = 0 \<Longrightarrow> ent ?m q k = 0 \<and> ent ?m 0 k = 0"
          using q wf_sep [OF wf] by (simp add: ent_def separated_def)
        moreover have "?i # a \<noteq> a" by simp
        ultimately show ?thesis
          using free linkable_distinct(1) [OF L]
          by (auto simp: entry_def nd' mem' link_ent [OF L])
      qed
      have "uat_wf ainv u'"
      proof (rule wf_attach [OF wf free _ nd' fresh(1,2,3,5,6)])
        show "length (?i # a) \<le> 4" using la by simp
        show "node_ok (uat_mem u') q (level_count (length (?i # a)))"
          using link_node_ok_new [OF L fresh(4)] fresh(7) by (simp add: u'_def)
      qed (use link_doms [OF L] link_node_ok [OF L] fresh(8,9) wf in
            \<open>simp_all add: u'_def uat_wf_def l1_shape_def\<close>)
      moreover have "hw_ok u \<Longrightarrow> hw_ok u'"
        by (rule hw_ok_link [OF wf _ p free fresh(1) q nd' _ ent'])
          (simp_all add: u'_def link_doms [OF L] fresh(8))
      moreover have "length d = 4 \<Longrightarrow> entry u' d k = entry u d k" for d k
        using la by (auto simp: ent')
      ultimately have "grown ainv u u' (?i # a) q"
        using nd' by (simp add: grown_def u'_def fresh(8))
      with run show thesis by (rule that)
    qed
  qed
qed

end


section \<open>Creating an L1 node\<close>

lemma add_node_kid:
  assumes "mem_nodes m q = None" "node_children n \<notin> dom (mem_arrays m)"
    and "dom (mem_arrays m) = node_children ` ran (mem_nodes m)"
  shows "kid (add_node m q n) r j = kid m r j"
proof (cases "r = q")
  case True
  then show ?thesis using assms by (simp add: kid_def add_node_def)
next
  case False
  have "node_children nr \<noteq> node_children n" if "mem_nodes m r = Some nr" for nr
    using that assms ranI [of "mem_nodes m" r nr] by force
  with False show ?thesis by (auto simp: kid_def add_node_def split: option.splits)
qed

lemma add_node_ent:
  assumes "mem_nodes m q = None" "node_cpu n \<notin> dom (mem_tables m)"
    and "dom (mem_tables m) = node_cpu ` ran (mem_nodes m)"
  shows "ent (add_node m q n) r k = ent m r k"
proof (cases "r = q")
  case True
  then show ?thesis using assms by (simp add: ent_def add_node_def)
next
  case False
  have "node_cpu nr \<noteq> node_cpu n" if "mem_nodes m r = Some nr" for nr
    using that assms ranI [of "mem_nodes m" r nr] by force
  with False show ?thesis by (auto simp: ent_def add_node_def split: option.splits)
qed

lemma add_node_ok:
  assumes "mem_nodes m q = None" "node_children n \<notin> dom (mem_arrays m)"
    and "node_cpu n \<notin> dom (mem_tables m)" "node_ok m r c"
  shows "node_ok (add_node m q n) r c"
  using assms by (auto simp: node_ok_def add_node_def dom_def)

definition set_root :: "ptr list list \<Rightarrow> nat \<Rightarrow> nat \<Rightarrow> ptr \<Rightarrow> ptr list list" where
  "set_root l c s q = l[c := (l ! c)[s := q]]"

lemma root_set_root:
  "c < length l \<Longrightarrow> s < length (l ! c) \<Longrightarrow>
     root (set_root l c s q) c' s' = (if c' = c \<and> s' = s then q else root l c' s')"
  by (auto simp: root_def set_root_def nth_list_update)

lemma nd_set_root:
  assumes wf: "uat_wf I u" and free: "nd u [s, c] = 0" and cs: "c < 64" "s < 2"
    and kid': "\<And>r j. kid (uat_mem u') r j = kid (uat_mem u) r j"
    and kq: "\<And>j. kid (uat_mem u) q j = 0"
    and l1: "uat_l1 u' = set_root (uat_l1 u) c s q"
  shows "nd u' = (nd u)([s, c] := q)"
proof
  have shape: "c < length (uat_l1 u)" "s < length (uat_l1 u ! c)"
    using wf cs by (simp_all add: uat_wf_def l1_shape_def)
  fix b
  show "nd u' b = ((nd u)([s, c] := q)) b"
  proof (induction b)
    case (Cons j b)
    consider "length b < 1" | "length b = 1" | "2 \<le> length b" by linarith
    then show ?case
    proof cases
      case 2
      then show ?thesis using root_set_root [OF shape, of q] by (auto simp: length_Suc_conv l1 split: if_splits)
    next
      case 3
      then show ?thesis
        using Cons free kq kid_null [OF wf_sep [OF wf]] by (auto simp: nd_Cons kid')
    qed simp
  qed simp
qed

lemma hw_ok_root:
  assumes wf: "uat_wf I u" and hw: "hw_ok u" and cs: "c < 64" "s < 2"
    and free: "nd u [s, c] = 0" and q: "q \<noteq> 0" "mem_nodes (uat_mem u) q = None"
    and nd': "nd u' = (nd u)([s, c] := q)"
    and nodes': "mem_nodes (uat_mem u') = (mem_nodes (uat_mem u))(q \<mapsto> n)"
    and ent': "\<And>b k. entry u' b k = entry u b k"
    and l0: "uat_l0 u' = (uat_l0 u)[2 * c + s := agx_uat_ttbr (node_phys n) (word_of_nat c)]"
  shows "hw_ok u'"
proof -
  have phys_new: "phys_at u' [s, c] = node_phys n"
    by (simp add: phys_at_def nd' nodes')
  have phys_old: "phys_at u' b = phys_at u b" if "b \<noteq> [s, c]" for b
  proof (cases "nd u b = q")
    case True
    then have "nd u b \<in> range (nd u) - {0}" using q(1) by (metis DiffI rangeI singletonD)
    with True q(2) wf show ?thesis by (metis domIff no_leak_def uat_wf_def)
  next
    case False
    with that show ?thesis by (simp add: phys_at_def nd' nodes')
  qed
  have below: "nd u [j, s, c] = 0" for j
    using free kid_null [OF wf_sep [OF wf]] by simp
  have zero: "entry u [s, c] k = 0" for k
    using free wf_sep [OF wf] by (simp add: entry_def ent_def separated_def)
  have len: "length (uat_l0 u) = 128" using wf by (simp add: uat_wf_def l1_shape_def)
  show ?thesis
    unfolding hw_ok_def
  proof (intro conjI allI impI)
    fix c' s' :: nat assume cs': "c' < 64" "s' < 2"
    show "uat_l0 u' ! (2 * c' + s') = (if nd u' [s', c'] = 0 then 0
        else agx_uat_ttbr (phys_at u' [s', c']) (word_of_nat c'))"
    proof (cases "c' = c \<and> s' = s")
      case True
      with len cs' q show ?thesis by (simp add: l0 nd' phys_new)
    next
      case False
      then have "2 * c' + s' \<noteq> 2 * c + s" using cs cs' by arith
      with False cs' hw phys_old [of "[s', c']"] show ?thesis by (auto simp: l0 nd' hw_ok_def)
    qed
  next
    fix b j assume b: "nd u' b \<noteq> 0" "length b < 4"
    have "j # b \<noteq> [s, c]" using b nd_nonzero_length [of u' b] by auto
    then show "entry u' b j = (if nd u' (j # b) = 0 then 0
        else agx_uat_table_pte (phys_at u' (j # b)))"
      using b hw below zero by (cases "b = [s, c]") (auto simp: ent' nd' phys_old hw_ok_def)
  qed
qed

lemma unat_l0_slot:
  "ctx_id < AGX_UAT_CONTEXT_COUNT \<Longrightarrow> unat sel < 2 \<Longrightarrow>
     unat (ctx_id * 2 + sel) = 2 * unat ctx_id + unat (sel :: u32)"
  by (simp add: word_less_nat_alt unat_word_ariths)

context uat_allocator
begin

lemma l1_create:
  assumes wf: "uat_wf ainv u" and ops: "uat_ops u = ops"
    and c: "ctx_id < AGX_UAT_CONTEXT_COUNT" and s: "unat sel < 2"
  obtains q u' where "agx_uat_l1 u ctx_id sel True ctx_id = Some (q, u')"
    "grown ainv u u' [unat sel, unat ctx_id] q"
proof -
  let ?m = "uat_mem u" and ?b = "[unat sel, unat ctx_id]"
  have shape: "l1_shape u" using wf by (simp add: uat_wf_def)
  have c64: "unat ctx_id < 64" using c by (simp add: word_less_nat_alt)
  have rd: "read_l1 u ctx_id sel = Some (nd u ?b)" using shape c s by (rule read_l1_nd)
  show thesis
  proof (cases "nd u ?b = 0")
    case False
    with rd wf show thesis by (intro that) (auto simp: agx_uat_l1_def grown_refl)
  next
    case free: True
    obtain q u1 where r: "agx_uat_new_node u AGX_UAT_L1_COUNT = (q, u1)" by (metis prod.collapse)
    have I: "ainv (uat_ctx u) (live_objects ?m) (live_tables ?m)" using wf by (simp add: uat_wf_def)
    have cnt: "AGX_UAT_L1_COUNT \<noteq> 0" by (simp add: uat_geometry_defs push_bit_eq_mult)
    from I ops cnt r show thesis
    proof (cases rule: new_node_cases)
      case (null e)
      with free rd r grown_ctx [OF wf free null(3)] show thesis
        by (intro that) (auto simp: agx_uat_l1_def)
    next
      case (fresh e n)
      have q: "mem_nodes ?m q = None" using fresh(2) by (auto simp: live_objects_def dom_def)
      have arr: "node_children n \<notin> dom (mem_arrays ?m)" using fresh(3) by (auto simp: live_objects_def)
      have leak: "dom (mem_arrays ?m) = node_children ` ran (mem_nodes ?m)"
        "dom (mem_tables ?m) = node_cpu ` ran (mem_nodes ?m)"
        using wf by (simp_all add: uat_wf_def no_leak_def)
      have tab: "node_cpu n \<notin> dom (mem_tables ?m)"
        using fresh(5) by (auto simp: leak(2) live_tables_def image_iff)
      define v where "v = agx_uat_ttbr (node_phys n) ctx_id"
      define k where "k = 2 * unat ctx_id + unat sel"
      define u' where "u' = u1\<lparr>uat_l1 := set_root (uat_l1 u) (unat ctx_id) (unat sel) q,
         uat_l0 := (uat_l0 u)[k := v], uat_trace := uat_trace u1 @ [Store_L0 k v]\<rparr>"
      have mem': "uat_mem u' = add_node ?m q n" by (simp add: u'_def fresh(8))
      have k128: "2 * unat ctx_id + unat sel < 128" using c64 s by arith
      have run: "agx_uat_l1 u ctx_id sel True ctx_id = Some (q, u')"
        using rd r free fresh(1,8) shape c64 s k128 unat_l0_slot [OF c s]
        by (simp add: agx_uat_l1_def get_node_def write_l1_def agx_uat_l0_write_def l1_shape_def
            add_node_def u'_def set_root_def k_def v_def Let_def)
      have nd': "nd u' = (nd u)(?b := q)"
        using wf free c64 s
      proof (rule nd_set_root)
        show "kid (uat_mem u') r j = kid ?m r j" for r j
          unfolding mem' using q arr leak(1) by (rule add_node_kid)
        show "kid ?m q j = 0" for j by (simp add: kid_def q)
      qed (simp add: u'_def)
      have ent': "entry u' b j = entry u b j" for b j
        using free q wf_sep [OF wf] tab leak
        by (auto simp: entry_def nd' mem' add_node_ent) (simp add: ent_def separated_def)
      have "uat_wf ainv u'"
      proof (rule wf_attach [OF wf free _ nd' fresh(1,2,3,5,6)])
        show "node_ok (uat_mem u') q (level_count (length ?b))"
          using fresh(4,7) by (simp add: mem' node_ok_def add_node_def)
        show "node_ok (uat_mem u') p d" if "node_ok ?m p d" for p d
          unfolding mem' using q arr tab that by (rule add_node_ok)
        show "l1_shape u'" using shape c64 s
          by (auto simp: l1_shape_def u'_def fresh(8) set_root_def nth_list_update)
      qed (use fresh(9) in \<open>auto simp: mem' u'_def fresh(8) add_node_def\<close>)
      moreover have "hw_ok u \<Longrightarrow> hw_ok u'"
        by (rule hw_ok_root [OF wf _ c64 s free fresh(1) q nd' _ ent'])
          (simp_all add: add_node_def u'_def fresh(8) k_def v_def)
      ultimately have "grown ainv u u' ?b q"
        using nd' ent' by (simp add: grown_def u'_def fresh(8))
      with run show thesis by (rule that)
    qed
  qed
qed

end


section \<open>Storing a leaf entry\<close>

lemma leaf_store:
  assumes wf: "uat_wf I u" and a: "nd u a \<noteq> 0" "length a = 4"
    and n: "get_node u (nd u a) = Some n" and k: "k < 2048"
  obtains u' where "store_rel u (node_cpu n) k v = Some u'" "uat_wf I u'"
    "uat_ops u' = uat_ops u" "nd u' = nd u" "hw_ok u \<longrightarrow> hw_ok u'"
    "\<And>b j. entry u' b j = (if b = a \<and> j = k then v else entry u b j)"
proof -
  let ?m = "uat_mem u"
  obtain t where t: "mem_tables ?m (node_cpu n) = Some t" "length t = 2048"
    using wf_node [OF wf a(1)] n by (metis option.inject)
  define m' where "m' = ?m\<lparr>mem_tables := (mem_tables ?m)(node_cpu n \<mapsto> t[k := v])\<rparr>"
  define u' where "u' = u\<lparr>uat_mem := m', uat_trace := uat_trace u @ [Store_Table (node_cpu n) k v]\<rparr>"
  have mem': "uat_mem u' = m'" "uat_l1 u' = uat_l1 u" "uat_ctx u' = uat_ctx u"
    "uat_l0 u' = uat_l0 u" "uat_ops u' = uat_ops u"
    by (simp_all add: u'_def)
  have nodes': "mem_nodes m' = mem_nodes ?m" "mem_arrays m' = mem_arrays ?m"
    "dom (mem_tables m') = dom (mem_tables ?m)"
    using t by (auto simp: m'_def)
  have kid': "kid m' = kid ?m" by (intro ext) (simp add: kid_def nodes' split: option.split)
  have nd': "nd u' = nd u"
  proof
    fix b show "nd u' b = nd u b"
      using mem' kid' by (induction u b rule: nd.induct) simp_all
  qed
  have ent': "ent m' r j = (if r = nd u a \<and> j = k then v else ent ?m r j)" for r j
  proof (cases "mem_nodes ?m r")
    case None
    then show ?thesis using n by (auto simp: ent_def nodes' get_node_def)
  next
    case (Some nr)
    have "r = nd u a \<or> node_cpu nr \<noteq> node_cpu n"
      using wf_sep [OF wf] Some n by (auto simp: separated_def get_node_def)
    then show ?thesis
      using Some n t k by (auto simp: ent_def nodes' get_node_def m'_def nth_list_update)
  qed
  have ok': "node_ok m' p c = node_ok ?m p c" for p c
    using t by (auto simp: node_ok_def nodes' m'_def)
  have "uat_wf I u' = uat_wf I u"
    unfolding uat_wf_def l1_shape_def separated_def no_leak_def tree_ok_def
      live_objects_def live_tables_def mem' nodes' nd' ok' ..
  with wf have wf': "uat_wf I u'" by simp
  have entry': "entry u' b j = (if b = a \<and> j = k then v else entry u b j)" for b j
    using wf_inj [OF wf, of b a] a by (auto simp: entry_def nd' mem' ent')
  have "hw_ok u'" if "hw_ok u"
  proof -
    have "phys_at u' = phys_at u" by (simp add: phys_at_def fun_eq_iff nd' mem' nodes')
    with that a(2) show ?thesis by (auto simp: hw_ok_def entry' nd' mem')
  qed
  moreover have "store_rel u (node_cpu n) k v = Some u'"
    using t k by (simp add: store_rel_def u'_def m'_def)
  ultimately show thesis using wf' nd' entry' mem'(5) by (intro that [of u']) simp_all
qed

lemma load_leaf:
  assumes wf: "uat_wf I u" and a: "nd u a \<noteq> 0"
    and n: "get_node u (nd u a) = Some n" and k: "k < 2048"
  shows "load_acq u (node_cpu n) k = Some (entry u a k)"
proof -
  obtain t where "mem_tables (uat_mem u) (node_cpu n) = Some t" "length t = 2048"
    using wf_node [OF wf a] n by (metis option.inject)
  then show ?thesis using n k by (simp add: load_acq_def entry_def ent_def get_node_def)
qed

section \<open>Walking without creating\<close>

lemma child_walk:
  assumes wf: "uat_wf I u" and a: "nd u a \<noteq> 0" and idx: "unat idx < unat (level_count (length a))"
  shows "agx_uat_child u (nd u a) idx cnt False = Some (nd u (unat idx # a), u)"
proof -
  obtain n where n: "get_node u (nd u a) = Some n" using wf a by (rule wf_node)
  with read_array_nd [OF wf a n idx] show ?thesis by (simp add: agx_uat_child_def)
qed

lemma l1_walk:
  assumes "l1_shape u" "ctx_id < AGX_UAT_CONTEXT_COUNT" "unat sel < 2"
  shows "agx_uat_l1 u ctx_id sel False asid = Some (nd u [unat sel, unat ctx_id], u)"
  using read_l1_nd [OF assms] by (simp add: agx_uat_l1_def)

text \<open>The path of the L3 node that serves an address and the leaf entry there (0 if absent).\<close>

definition uat_path :: "u32 \<Rightarrow> u64 \<Rightarrow> nat list" where
  "uat_path c va = [unat (agx_uat_l2_index va), unat (agx_uat_l1_index va),
     unat (agx_uat_ttbr_select va), unat c]"

definition uat_leaf :: "'e agx_uat \<Rightarrow> u32 \<Rightarrow> u64 \<Rightarrow> u64" where
  "uat_leaf u c va = entry u (uat_path c va) (unat (agx_uat_l3_index va))"

lemma uat_path_eq_iff:
  "uat_path c va = uat_path c' va' \<and> unat (agx_uat_l3_index va) = unat (agx_uat_l3_index va') \<longleftrightarrow>
     c = c' \<and> uat_indices va = uat_indices va'"
  by (auto simp: uat_path_def uat_indices_def word_unat_eq_iff)

lemma entry_null: "uat_wf I u \<Longrightarrow> nd u a = 0 \<Longrightarrow> entry u a k = 0"
  using wf_sep [of I u] by (simp add: entry_def ent_def separated_def)

lemma nd_parent: "uat_wf I u \<Longrightarrow> nd u a = 0 \<Longrightarrow> nd u (i # a) = 0 \<or> length a < 2"
  using wf_sep [of I u] by (cases "2 \<le> length a") (auto simp: nd_Cons kid_null)

text \<open>The read-only walk that \<^verbatim>\<open>agx_uat_lookup\<close> and \<^verbatim>\<open>agx_uat_unmap_page\<close> share.\<close>

definition uat_walk :: "'e agx_uat \<Rightarrow> u32 \<Rightarrow> u64 \<Rightarrow> ptr" where
  "uat_walk u c va = nd u (uat_path c va)"

lemma walk_null_leaf: "uat_wf I u \<Longrightarrow> uat_walk u c va = 0 \<Longrightarrow> uat_leaf u c va = 0"
  by (simp add: uat_walk_def uat_leaf_def entry_null)

lemma walk_chain:
  assumes wf: "uat_wf I u" and c: "c < AGX_UAT_CONTEXT_COUNT"
  shows "(do {
        (l1, uat) \<leftarrow> agx_uat_l1 u c (agx_uat_ttbr_select va) False 0;
        if l1 = 0 then Z uat else do {
        (l2, uat) \<leftarrow> agx_uat_child uat l1 (agx_uat_l1_index va) 0 False;
        if l2 = 0 then Z uat else do {
        (l3, uat) \<leftarrow> agx_uat_child uat l2 (agx_uat_l2_index va) 0 False;
        if l3 = 0 then Z uat else F l3 uat }}})
    = (if uat_walk u c va = 0 then Z u else F (uat_walk u c va) u)"
proof -
  let ?s = "unat (agx_uat_ttbr_select va)" and ?i = "unat (agx_uat_l1_index va)"
    and ?j = "unat (agx_uat_l2_index va)"
  note ix = index_bounds [of va]
  note null = kid_null [OF wf_sep [OF wf]]
  have w1: "agx_uat_l1 u c (agx_uat_ttbr_select va) False 0 = Some (nd u [?s, unat c], u)"
    using wf c ix by (intro l1_walk) (simp_all add: uat_wf_def)
  show ?thesis
  proof (cases "nd u [?s, unat c] = 0")
    case True
    with w1 null show ?thesis by (simp add: uat_walk_def uat_path_def)
  next
    case n1: False
    have w2: "agx_uat_child u (nd u [?s, unat c]) (agx_uat_l1_index va) 0 False =
        Some (nd u [?i, ?s, unat c], u)"
      using wf n1 ix by (intro child_walk) simp_all
    show ?thesis
    proof (cases "nd u [?i, ?s, unat c] = 0")
      case True
      with w1 w2 n1 null show ?thesis by (simp add: uat_walk_def uat_path_def)
    next
      case n2: False
      have "agx_uat_child u (nd u [?i, ?s, unat c]) (agx_uat_l2_index va) 0 False =
          Some (uat_walk u c va, u)"
        unfolding uat_path_def uat_walk_def using wf n2 ix by (intro child_walk) simp_all
      with w1 w2 n1 n2 show ?thesis by simp
    qed
  qed
qed

lemma lookup_leaf:
  assumes wf: "uat_wf I u"
  shows "agx_uat_lookup u c iova =
    (if AGX_UAT_CONTEXT_COUNT \<le> c \<or> AGX_UAT_VA_LIMIT \<le> iova then Some (0, False)
     else Some (agx_uat_pte_phys (uat_leaf u c iova), bit (uat_leaf u c iova) 0))"
proof (cases "AGX_UAT_CONTEXT_COUNT \<le> c \<or> AGX_UAT_VA_LIMIT \<le> iova \<or> uat_walk u c iova = 0")
  case True
  then show ?thesis using walk_null_leaf [OF wf, of c iova]
    by (auto simp: agx_uat_lookup_def walk_chain [OF wf] not_le)
next
  case False
  then obtain n where n: "get_node u (uat_walk u c iova) = Some n"
    using wf_node [OF wf, of "uat_path c iova"] by (auto simp: uat_walk_def)
  have "load_acq u (node_cpu n) (unat (agx_uat_l3_index iova)) = Some (uat_leaf u c iova)"
    using False n index_bounds(3) [of iova] load_leaf [OF wf]
    by (simp add: uat_leaf_def uat_walk_def)
  with False n show ?thesis
    by (auto simp: agx_uat_lookup_def walk_chain [OF wf] pte_valid_iff not_le)
qed

text \<open>\<open>updated I u u' c va v\<close>: the leaf entry that serves \<open>va\<close> in context \<open>c\<close> becomes \<open>v\<close>, all
  other leaf entries are kept and so are the invariants.\<close>

definition updated ::
  "('e \<Rightarrow> ptr set \<Rightarrow> (ptr \<times> u64) set \<Rightarrow> bool) \<Rightarrow> 'e agx_uat \<Rightarrow> 'e agx_uat \<Rightarrow> u32 \<Rightarrow> u64 \<Rightarrow> u64 \<Rightarrow> bool"
  where
  "updated I u u' c va v \<longleftrightarrow> uat_wf I u' \<and> uat_ops u' = uat_ops u \<and> (hw_ok u \<longrightarrow> hw_ok u') \<and>
     (\<forall>c' va'. uat_leaf u' c' va' =
        (if c' = c \<and> uat_indices va' = uat_indices va then v else uat_leaf u c' va'))"

lemma leaf_store_updated:
  assumes wf: "uat_wf I u" and w: "uat_walk u c va \<noteq> 0" and n: "get_node u (uat_walk u c va) = Some n"
  obtains u' where "store_rel u (node_cpu n) (unat (agx_uat_l3_index va)) v = Some u'"
    "updated I u u' c va v"
proof -
  let ?a = "uat_path c va"
  have a: "nd u ?a \<noteq> 0" "length ?a = 4" "get_node u (nd u ?a) = Some n"
    using w n by (simp_all add: uat_walk_def) (simp add: uat_path_def)
  show thesis
  proof (rule leaf_store [OF wf a index_bounds(3) [of va], of v])
    fix u' assume u': "store_rel u (node_cpu n) (unat (agx_uat_l3_index va)) v = Some u'"
      "uat_wf I u'" "uat_ops u' = uat_ops u" "hw_ok u \<longrightarrow> hw_ok u'"
      "\<And>b j. entry u' b j = (if b = ?a \<and> j = unat (agx_uat_l3_index va) then v else entry u b j)"
    have "updated I u u' c va v"
      using u'(2-4) uat_path_eq_iff [of _ _ c va] by (simp add: updated_def uat_leaf_def u'(5))
    with u'(1) show thesis by (rule that)
  qed
qed

lemma unmap_leaf:
  assumes wf: "uat_wf I u"
  obtains r u' where "agx_uat_unmap_page u c iova = Some (r, u')"
    "if AGX_UAT_CONTEXT_COUNT \<le> c \<or> AGX_UAT_VA_LIMIT \<le> iova then r = AGX_EINVAL \<and> u' = u
     else if bit (uat_leaf u c iova) 0 then r = 0 \<and> updated I u u' c iova 0
     else r = AGX_ENODATA \<and> u' = u"
proof (cases "AGX_UAT_CONTEXT_COUNT \<le> c \<or> AGX_UAT_VA_LIMIT \<le> iova \<or> uat_walk u c iova = 0")
  case True
  then show thesis using walk_null_leaf [OF wf, of c iova]
    by (intro that [of "if AGX_UAT_CONTEXT_COUNT \<le> c \<or> AGX_UAT_VA_LIMIT \<le> iova
          then AGX_EINVAL else AGX_ENODATA" u])
      (auto simp: agx_uat_unmap_page_def walk_chain [OF wf] not_le)
next
  case False
  then obtain n where n: "get_node u (uat_walk u c iova) = Some n"
    using wf_node [OF wf, of "uat_path c iova"] by (auto simp: uat_walk_def)
  have ld: "load_acq u (node_cpu n) (unat (agx_uat_l3_index iova)) = Some (uat_leaf u c iova)"
    using False n index_bounds(3) [of iova] load_leaf [OF wf]
    by (simp add: uat_leaf_def uat_walk_def)
  obtain u' where u': "store_rel u (node_cpu n) (unat (agx_uat_l3_index iova)) 0 = Some u'"
    "updated I u u' c iova 0"
    using leaf_store_updated [OF wf _ n] False by blast
  show thesis
  proof (cases "bit (uat_leaf u c iova) 0")
    case True
    with False n ld u' show thesis
      by (intro that [of 0 u'])
        (auto simp: agx_uat_unmap_page_def walk_chain [OF wf] pte_valid_iff [symmetric] not_le)
  next
    case nv: False
    with False n ld show thesis
      by (intro that [of AGX_ENODATA u])
        (auto simp: agx_uat_unmap_page_def walk_chain [OF wf] pte_valid_iff [symmetric] not_le)
  qed
qed


section \<open>Mapping a page\<close>

definition kept ::
  "('e \<Rightarrow> ptr set \<Rightarrow> (ptr \<times> u64) set \<Rightarrow> bool) \<Rightarrow> 'e agx_uat \<Rightarrow> 'e agx_uat \<Rightarrow> bool" where
  "kept I u u' \<longleftrightarrow> uat_wf I u' \<and> uat_ops u' = uat_ops u \<and> (hw_ok u \<longrightarrow> hw_ok u') \<and>
     uat_leaf u' = uat_leaf u"

lemma grown_kept: "grown I u u' b q \<Longrightarrow> kept I u u'"
  by (auto simp: grown_def kept_def uat_leaf_def uat_path_def fun_eq_iff)

lemma kept_trans: "kept I u v \<Longrightarrow> kept I v w \<Longrightarrow> kept I u w"
  by (simp add: kept_def)

lemma kept_updated: "kept I u v \<Longrightarrow> updated I v w c va x \<Longrightarrow> updated I u w c va x"
  by (simp add: kept_def updated_def)

definition map_rejects :: "u32 \<Rightarrow> u64 \<Rightarrow> u64 \<Rightarrow> bool" where
  "map_rejects c iova phys \<longleftrightarrow> AGX_UAT_CONTEXT_COUNT \<le> c \<or> agx_uat_page_offset iova \<noteq> 0 \<or>
     agx_uat_page_offset phys \<noteq> 0 \<or> AGX_UAT_VA_LIMIT \<le> iova"

context uat_allocator
begin

lemma map_leaf:
  assumes wf: "uat_wf ainv u" and ops: "uat_ops u = ops"
  obtains r u' where "agx_uat_map_page u c iova phys flags = Some (r, u')"
    "if map_rejects c iova phys then r = AGX_EINVAL \<and> u' = u
     else r = 0 \<and> updated ainv u u' c iova (agx_uat_pte phys (flags OR AGX_UAT_PTE_VALID)) \<or>
          r = AGX_ENOMEM \<and> kept ainv u u'"
proof (cases "map_rejects c iova phys")
  case True
  then show thesis by (intro that [of AGX_EINVAL u]) (auto simp: agx_uat_map_page_def map_rejects_def)
next
  case ok: False
  let ?sel = "agx_uat_ttbr_select iova" and ?i1 = "agx_uat_l1_index iova"
    and ?i2 = "agx_uat_l2_index iova"
  let ?a1 = "[unat ?sel, unat c]" and ?v = "agx_uat_pte phys (flags OR AGX_UAT_PTE_VALID)"
  note ix = index_bounds [of iova]
  have c: "c < AGX_UAT_CONTEXT_COUNT" using ok by (auto simp: map_rejects_def not_le)
  have map_eq: "agx_uat_map_page u c iova phys flags = do {
        (l1, uat) \<leftarrow> agx_uat_l1 u c ?sel True c;
        if l1 = 0 then Some (AGX_ENOMEM, uat) else do {
        (l2, uat) \<leftarrow> agx_uat_child uat l1 ?i1 AGX_UAT_L2_COUNT True;
        if l2 = 0 then Some (AGX_ENOMEM, uat) else do {
        (l3, uat) \<leftarrow> agx_uat_child uat l2 ?i2 AGX_UAT_L3_COUNT True;
        if l3 = 0 then Some (AGX_ENOMEM, uat) else do {
        n \<leftarrow> get_node uat l3;
        uat \<leftarrow> store_rel uat (node_cpu n) (unat (agx_uat_l3_index iova)) ?v;
        Some (0, uat) }}}}"
    using ok unfolding agx_uat_map_page_def map_rejects_def by simp
  obtain q1 u1 where r1: "agx_uat_l1 u c ?sel True c = Some (q1, u1)" and g1: "grown ainv u u1 ?a1 q1"
    using wf ops c ix(4) by (rule l1_create)
  show thesis
  proof (cases "q1 = 0")
    case True
    with r1 ok grown_kept [OF g1] show thesis by (intro that [of AGX_ENOMEM u1]) (simp_all add: map_eq)
  next
    case n1: False
    have w1: "uat_wf ainv u1" "uat_ops u1 = ops" "nd u1 ?a1 = q1"
      using g1 ops by (simp_all add: grown_def del: nd.simps)
    obtain q2 u2 where r2: "agx_uat_child u1 q1 ?i1 AGX_UAT_L2_COUNT True = Some (q2, u2)"
      and g2: "grown ainv u1 u2 (unat ?i1 # ?a1) q2"
      using child_create [of u1 ?a1 ?i1] w1 n1 ix(1) by (auto simp del: nd.simps)
    have k2: "kept ainv u u2" using grown_kept [OF g1] grown_kept [OF g2] by (rule kept_trans)
    show thesis
    proof (cases "q2 = 0")
      case True
      with r1 r2 n1 ok k2 show thesis by (intro that [of AGX_ENOMEM u2]) (simp_all add: map_eq)
    next
      case n2: False
      have w2: "uat_wf ainv u2" "uat_ops u2 = ops" "nd u2 (unat ?i1 # ?a1) = q2"
        using g2 w1 by (simp_all add: grown_def del: nd.simps)
      obtain q3 u3 where r3: "agx_uat_child u2 q2 ?i2 AGX_UAT_L3_COUNT True = Some (q3, u3)"
        and g3: "grown ainv u2 u3 (unat ?i2 # unat ?i1 # ?a1) q3"
        using child_create [of u2 "unat ?i1 # ?a1" ?i2] w2 n2 ix(2) by (auto simp del: nd.simps)
      have k3: "kept ainv u u3" using k2 grown_kept [OF g3] by (rule kept_trans)
      show thesis
      proof (cases "q3 = 0")
        case True
        with r1 r2 r3 n1 n2 ok k3 show thesis
          by (intro that [of AGX_ENOMEM u3]) (simp_all add: map_eq)
      next
        case n3: False
        have w3: "uat_wf ainv u3" "uat_walk u3 c iova = q3"
          using g3 by (simp_all add: grown_def uat_walk_def uat_path_def del: nd.simps)
        then obtain n where n: "get_node u3 q3 = Some n"
          using wf_node [of ainv u3 "uat_path c iova"] n3 by (auto simp: uat_walk_def)
        obtain u4 where r4: "store_rel u3 (node_cpu n) (unat (agx_uat_l3_index iova)) ?v = Some u4"
          and "updated ainv u3 u4 c iova ?v"
          using leaf_store_updated [OF w3(1), of c iova n ?v] w3(2) n3 n by auto
        then have "updated ainv u u4 c iova ?v" using k3 kept_updated by blast
        with r1 r2 r3 r4 n n1 n2 n3 ok show thesis by (intro that [of 0 u4]) (simp_all add: map_eq)
      qed
    qed
  qed
qed

end

end
