(* ===== verification/Uat_Free.thy ===== *)
theory Uat_Free
  imports Uat_Map
begin

text \<open>
  Correctness of \<^verbatim>\<open>agx_uat_free_node\<close> and \<^verbatim>\<open>agx_uat_free_context\<close>: the recursion never
  touches freed memory, returns exactly the objects of the subtree to the allocator and
  leaves every other context alone. \<open>rm u X\<close> is the store of \<open>u\<close> without the objects that
  belong to the paths in \<open>X\<close>.
\<close>

section \<open>Subtrees\<close>

definition Sub :: "nat list \<Rightarrow> nat list set" where
  "Sub a = range (\<lambda>xs. xs @ a)"

lemma Sub_self [simp]: "a \<in> Sub a"
  by (auto simp: Sub_def intro: range_eqI [of _ _ "[]"])

lemma Sub_length: "b \<in> Sub a \<Longrightarrow> length a \<le> length b"
  by (auto simp: Sub_def)

lemma Sub_unfold: "Sub a = insert a (\<Union>i. Sub (i # a))"
proof (intro set_eqI iffI)
  fix b assume "b \<in> Sub a"
  then obtain xs where "b = xs @ a" by (auto simp: Sub_def)
  then show "b \<in> insert a (\<Union>i. Sub (i # a))"
    by (cases xs rule: rev_exhaust) (auto simp: Sub_def)
next
  fix b assume "b \<in> insert a (\<Union>i. Sub (i # a))"
  then show "b \<in> Sub a" by (auto simp: Sub_def)
qed

lemma Sub_step: "i # b \<in> Sub a \<longleftrightarrow> i # b = a \<or> b \<in> Sub a"
  by (auto simp: Sub_def image_iff Cons_eq_append_conv)

lemma Sub_disjoint: "i \<noteq> j \<Longrightarrow> Sub (i # a) \<inter> Sub (j # a) = {}"
proof (rule ccontr)
  assume "i \<noteq> j" "Sub (i # a) \<inter> Sub (j # a) \<noteq> {}"
  then obtain xs ys where e: "xs @ i # a = ys @ j # a" by (auto simp: Sub_def)
  then have "length xs = length ys" by (metis add_right_cancel length_append length_Cons)
  with e \<open>i \<noteq> j\<close> show False by simp
qed

lemma Sub_root_disjoint: "(s, c) \<noteq> (s', c') \<Longrightarrow> Sub [s, c] \<inter> Sub [s', c'] = {}"
proof (rule ccontr)
  assume "(s, c) \<noteq> (s', c')" "Sub [s, c] \<inter> Sub [s', c'] \<noteq> {}"
  then obtain xs ys where "xs @ [s, c] = ys @ [s', c']" by (auto simp: Sub_def)
  with \<open>(s, c) \<noteq> (s', c')\<close> show False
    by (metis append_Cons append_Nil append_assoc butlast_snoc last_snoc)
qed

lemma nd_below_null:
  assumes wf: "uat_wf I u" and a: "nd u a = 0" "2 \<le> length a" and b: "b \<in> Sub a"
  shows "nd u b = 0"
proof -
  obtain xs where "b = xs @ a" using b by (auto simp: Sub_def)
  moreover have "nd u (xs @ a) = 0"
    using a kid_null [OF wf_sep [OF wf]] by (induction xs) (simp_all add: nd_Cons)
  ultimately show ?thesis by simp
qed

lemma root_path:
  assumes wf: "uat_wf I u" and b: "nd u b \<noteq> 0"
  obtains xs s c where "b = xs @ [s, c]" "s < 2" "c < 64"
proof -
  have len: "2 \<le> length b" using b by (rule nd_nonzero_length)
  define xs where "xs = take (length b - 2) b"
  have "length (drop (length b - 2) b) = 2" using len by simp
  then obtain s c where sc: "b = xs @ [s, c]"
    by (metis append_take_drop_id xs_def length_0_conv length_Suc_conv numeral_2_eq_2)
  then have "nd u [s, c] \<noteq> 0"
    using nd_below_null [OF wf, of "[s, c]" b] b by (auto simp: Sub_def simp del: nd.simps)
  then have "c < 64 \<and> s < 2" using wf by (auto simp: root_def uat_wf_def l1_shape_def split: if_splits)
  with sc show thesis by (intro that) auto
qed

section \<open>Removing the objects of a set of paths\<close>

definition lp :: "'e agx_uat \<Rightarrow> nat list set \<Rightarrow> nat list set" where
  "lp u X = {b \<in> X. nd u b \<noteq> 0}"

definition owned :: "'e agx_uat \<Rightarrow> (agx_uat_node \<Rightarrow> ptr) \<Rightarrow> nat list set \<Rightarrow> ptr set" where
  "owned u f X = {f n | n b. b \<in> lp u X \<and> mem_nodes (uat_mem u) (nd u b) = Some n}"

definition rm :: "'e agx_uat \<Rightarrow> nat list set \<Rightarrow> uat_mem" where
  "rm u X = (uat_mem u)
     \<lparr>mem_nodes := mem_nodes (uat_mem u) |` (- nd u ` lp u X),
      mem_arrays := mem_arrays (uat_mem u) |` (- owned u node_children X),
      mem_tables := mem_tables (uat_mem u) |` (- owned u node_cpu X)\<rparr>"

lemma rm_empty [simp]: "rm u {} = uat_mem u"
  by (simp add: rm_def lp_def owned_def restrict_map_def)

lemma rm_cong: "lp u X = lp u Y \<Longrightarrow> rm u X = rm u Y"
  by (simp add: rm_def owned_def)

lemma rm_insert:
  assumes "nd u a \<noteq> 0" "mem_nodes (uat_mem u) (nd u a) = Some n"
  shows "rm u (insert a X) = (rm u X)
     \<lparr>mem_nodes := (mem_nodes (rm u X))(nd u a := None),
      mem_arrays := (mem_arrays (rm u X))(node_children n := None),
      mem_tables := (mem_tables (rm u X))(node_cpu n := None)\<rparr>"
proof -
  have "lp u (insert a X) = insert a (lp u X)" using assms by (auto simp: lp_def)
  moreover from this have "owned u f (insert a X) = insert (f n) (owned u f X)" for f
    using assms by (auto simp: owned_def)
  ultimately show ?thesis
    by (auto simp: rm_def fun_eq_iff restrict_map_def)
qed

lemma rm_node:
  assumes wf: "uat_wf I u" and a: "nd u a \<noteq> 0" "a \<notin> X" and n: "mem_nodes (uat_mem u) (nd u a) = Some n"
  shows "mem_nodes (rm u X) (nd u a) = Some n"
    "mem_arrays (rm u X) (node_children n) = mem_arrays (uat_mem u) (node_children n)"
    "mem_tables (rm u X) (node_cpu n) = mem_tables (uat_mem u) (node_cpu n)"
proof -
  have "nd u a \<notin> nd u ` lp u X"
    using wf_inj [OF wf] a by (auto simp: lp_def)
  then show "mem_nodes (rm u X) (nd u a) = Some n" using n by (simp add: rm_def)
  have "node_children n \<noteq> node_children n' \<and> node_cpu n \<noteq> node_cpu n'"
    if b: "b \<in> lp u X" "mem_nodes (uat_mem u) (nd u b) = Some n'" for b n'
  proof -
    have "nd u b \<noteq> nd u a" using wf_inj [OF wf, of b a] b a by (auto simp: lp_def)
    with wf_sep [OF wf] b n show ?thesis unfolding separated_def by metis
  qed
  then have "node_children n \<notin> owned u node_children X" "node_cpu n \<notin> owned u node_cpu X"
    by (auto simp: owned_def)
  then show "mem_arrays (rm u X) (node_children n) = mem_arrays (uat_mem u) (node_children n)"
    "mem_tables (rm u X) (node_cpu n) = mem_tables (uat_mem u) (node_cpu n)"
    by (simp_all add: rm_def)
qed


lemma ran_restrict_inj:
  "ran (m |` A) = {v. \<exists>k\<in>A. m k = Some v}"
  by (auto simp: ran_def restrict_map_def)

lemma live_rm_insert:
  assumes wf: "uat_wf I u" and a: "nd u a \<noteq> 0" "a \<notin> X"
    and n: "mem_nodes (uat_mem u) (nd u a) = Some n"
  shows "live_objects (rm u (insert a X)) = live_objects (rm u X) - {node_children n} - {nd u a}"
    and "live_tables (rm u (insert a X)) = live_tables (rm u X) - {(node_cpu n, node_phys n)}"
    and "node_children n \<in> live_objects (rm u X)" "nd u a \<in> live_objects (rm u X) - {node_children n}"
    and "(node_cpu n, node_phys n) \<in> live_tables (rm u X)"
proof -
  let ?m = "uat_mem u"
  have ch: "node_children n \<in> dom (mem_arrays ?m)"
    using wf n by (auto simp: uat_wf_def no_leak_def intro: ranI)
  have p: "nd u a \<notin> dom (mem_arrays ?m)" "node_children n \<notin> dom (mem_nodes ?m)"
    using wf_sep [OF wf] n ch by (auto simp: separated_def)
  have sub: "dom (mem_arrays (rm u X)) \<subseteq> dom (mem_arrays ?m)" "dom (mem_nodes (rm u X)) \<subseteq> dom (mem_nodes ?m)"
    by (auto simp: rm_def restrict_map_def split: if_splits)
  show "live_objects (rm u (insert a X)) = live_objects (rm u X) - {node_children n} - {nd u a}"
    using p sub by (auto simp: rm_insert [OF a(1) n] live_objects_def)
  have other: "(node_cpu n', node_phys n') \<noteq> (node_cpu n, node_phys n)"
    if "mem_nodes (rm u X) q = Some n'" "q \<noteq> nd u a" for q n'
  proof -
    have "mem_nodes ?m q = Some n'" using that(1) by (auto simp: rm_def restrict_map_def split: if_splits)
    with that(2) n wf_sep [OF wf] show ?thesis unfolding separated_def by blast
  qed
  have nX: "mem_nodes (rm u X) (nd u a) = Some n" using rm_node [OF wf a n] by simp
  let ?f = "\<lambda>n. (node_cpu n, node_phys n)"
  have "live_tables (rm u (insert a X)) = ?f ` {n'. \<exists>q. q \<noteq> nd u a \<and> mem_nodes (rm u X) q = Some n'}"
    by (auto simp: live_tables_def rm_insert [OF a(1) n] ran_def)
  also have "\<dots> = ?f ` ran (mem_nodes (rm u X)) - {?f n}"
  proof (intro equalityI subsetI)
    fix x assume "x \<in> ?f ` ran (mem_nodes (rm u X)) - {?f n}"
    then obtain q n' where q: "mem_nodes (rm u X) q = Some n'" "x = ?f n'" "x \<noteq> ?f n"
      by (auto simp: ran_def)
    with nX have "q \<noteq> nd u a" by auto
    with q show "x \<in> ?f ` {n'. \<exists>q. q \<noteq> nd u a \<and> mem_nodes (rm u X) q = Some n'}" by blast
  qed (use other in \<open>auto simp: ran_def\<close>)
  finally show "live_tables (rm u (insert a X)) = live_tables (rm u X) - {(node_cpu n, node_phys n)}"
    by (simp add: live_tables_def)
  show "node_children n \<in> live_objects (rm u X)"
    using rm_node(2) [OF wf a n] ch by (auto simp: live_objects_def)
  show "nd u a \<in> live_objects (rm u X) - {node_children n}"
    using nX p n by (auto simp: live_objects_def)
  show "(node_cpu n, node_phys n) \<in> live_tables (rm u X)"
    using nX by (auto simp: live_tables_def intro: ranI)
qed

section \<open>Freeing a subtree\<close>

definition freed_events :: "'e agx_uat \<Rightarrow> nat list set \<Rightarrow> uat_event set" where
  "freed_events u X = {Free_Table (node_cpu n) (node_phys n) | n b.
     b \<in> lp u X \<and> mem_nodes (uat_mem u) (nd u b) = Some n}"

lemma freed_events_insert:
  assumes "nd u a \<noteq> 0" "mem_nodes (uat_mem u) (nd u a) = Some n"
  shows "freed_events u (insert a X) = insert (Free_Table (node_cpu n) (node_phys n)) (freed_events u X)"
proof -
  have "lp u (insert a X) = insert a (lp u X)" using assms by (auto simp: lp_def)
  then show ?thesis using assms(2) by (auto simp: freed_events_def)
qed

context uat_allocator
begin

text \<open>\<open>freeing u Y v\<close>: \<open>v\<close> is \<open>u\<close> with the objects of the paths in \<open>Y\<close> returned.\<close>

definition freeing :: "'e agx_uat \<Rightarrow> nat list set \<Rightarrow> 'e agx_uat \<Rightarrow> bool" where
  "freeing u Y v \<longleftrightarrow> uat_mem v = rm u Y \<and> uat_ops v = ops \<and> uat_l0 v = uat_l0 u \<and>
     uat_l1 v = uat_l1 u \<and> ainv (uat_ctx v) (live_objects (rm u Y)) (live_tables (rm u Y)) \<and>
     (\<exists>es. uat_trace v = uat_trace u @ es \<and> set es = freed_events u Y)"

lemma freeing_cong: "lp u X = lp u Y \<Longrightarrow> freeing u X v = freeing u Y v"
  using rm_cong [of u X Y] by (simp add: freeing_def freed_events_def)

lemma release_path:
  assumes wf: "uat_wf ainv u" and f: "freeing u Y v" and a: "nd u a \<noteq> 0" "a \<notin> Y"
    and n: "mem_nodes (uat_mem u) (nd u a) = Some n"
  obtains v1 v2 v3 where "release_array v (node_children n) k = Some v1"
    "get_node v1 (nd u a) = Some n"
    "release_table v1 (node_cpu n) (node_phys n) = Some v2"
    "release_node v2 (nd u a) = Some v3" "freeing u (insert a Y) v3"
proof -
  note live = live_rm_insert [OF wf a n] and rmn = rm_node [OF wf a n]
  obtain xs t where xs: "mem_arrays (uat_mem u) (node_children n) = Some xs"
    and t: "mem_tables (uat_mem u) (node_cpu n) = Some t"
    using wf_node [OF wf a(1)] n by (metis get_node_def option.inject)
  have mv: "uat_mem v = rm u Y" and ov: "uat_ops v = ops" using f by (simp_all add: freeing_def)
  define e1 where "e1 = free_bookkeeping ops (uat_ctx v) (node_children n) k"
  define e2 where "e2 = free_table ops e1 (node_cpu n) (node_phys n)"
  define e3 where "e3 = free_bookkeeping ops e2 (nd u a) sizeof_agx_uat_node"
  have "ainv (uat_ctx v) (live_objects (rm u Y)) (live_tables (rm u Y))"
    using f by (simp add: freeing_def)
  then have "ainv e1 (live_objects (rm u Y) - {node_children n}) (live_tables (rm u Y))"
    unfolding e1_def using live(3) by (rule bookkeeping_release)
  then have "ainv e2 (live_objects (rm u Y) - {node_children n})
      (live_tables (rm u Y) - {(node_cpu n, node_phys n)})"
    unfolding e2_def using live(5) by (rule table_release)
  then have I3: "ainv e3 (live_objects (rm u (insert a Y))) (live_tables (rm u (insert a Y)))"
    unfolding e3_def live(1,2) using live(4) by (rule bookkeeping_release)
  define v1 where "v1 = v\<lparr>uat_ctx := e1, uat_mem := (rm u Y)\<lparr>mem_arrays :=
      (mem_arrays (rm u Y))(node_children n := None)\<rparr>\<rparr>"
  define v2 where "v2 = v1\<lparr>uat_ctx := e2, uat_mem := (uat_mem v1)\<lparr>mem_tables :=
      (mem_tables (rm u Y))(node_cpu n := None)\<rparr>,
      uat_trace := uat_trace v1 @ [Free_Table (node_cpu n) (node_phys n)]\<rparr>"
  define v3 where "v3 = v2\<lparr>uat_ctx := e3, uat_mem := (uat_mem v2)\<lparr>mem_nodes :=
      (mem_nodes (rm u Y))(nd u a := None)\<rparr>\<rparr>"
  have r: "release_array v (node_children n) k = Some v1"
    using rmn(2) xs by (simp add: release_array_def mv ov v1_def e1_def)
  have g: "get_node v1 (nd u a) = Some n" using rmn(1) by (simp add: get_node_def v1_def)
  have r2: "release_table v1 (node_cpu n) (node_phys n) = Some v2"
    using rmn(3) t by (simp add: release_table_def v1_def v2_def ov e2_def)
  have r3: "release_node v2 (nd u a) = Some v3"
    using rmn(1) by (simp add: release_node_def v1_def v2_def v3_def ov e3_def)
  have "\<exists>es. uat_trace v3 = uat_trace u @ es \<and> set es = freed_events u (insert a Y)"
    using f unfolding freeing_def v3_def v2_def v1_def
    by (auto simp: freed_events_insert [OF a(1) n])
  then have "freeing u (insert a Y) v3"
    using f I3 unfolding freeing_def
    by (simp add: v3_def v2_def v1_def rm_insert [OF a(1) n])
  with r g r2 r3 show thesis by (rule that)
qed

lemma free_node_sub:
  assumes wf: "uat_wf ainv u"
  shows "freeing u Y v \<Longrightarrow> Y \<inter> Sub a = {} \<Longrightarrow> 2 \<le> length a \<Longrightarrow> 5 \<le> length a + fuel \<Longrightarrow>
    \<exists>v'. agx_uat_free_node fuel v (nd u a) depth = Some v' \<and> freeing u (Y \<union> Sub a) v'"
proof (induction fuel arbitrary: Y v a depth)
  case 0
  then have "nd u a = 0" using wf_depth [OF wf, of a] by force
  moreover from this have "lp u (Y \<union> Sub a) = lp u Y"
    using nd_below_null [OF wf _ "0.prems"(3)] by (auto simp: lp_def)
  ultimately show ?case using 0 freeing_cong [of u "Y \<union> Sub a" Y v] by simp
next
  case (Suc fuel)
  show ?case
  proof (cases "nd u a = 0")
    case True
    then have "lp u (Y \<union> Sub a) = lp u Y"
      using nd_below_null [OF wf _ Suc.prems(3)] by (auto simp: lp_def)
    with True Suc.prems freeing_cong [of u "Y \<union> Sub a" Y v] show ?thesis by simp
  next
    case p: False
    let ?p = "nd u a" and ?Z = "\<lambda>i. Y \<union> (\<Union>j<i. Sub (j # a))"
    obtain n where n: "get_node u ?p = Some n" "node_children n \<noteq> 0"
        "node_child_count n = level_count (length a)"
      using wf p by (rule wf_node)
    let ?cnt = "unat (node_child_count n)"
    have nm: "mem_nodes (uat_mem u) ?p = Some n" using n(1) by (simp add: get_node_def)
    have "a \<notin> Sub (j # a)" for j using Sub_length [of a "j # a"] by auto
    then have aZ: "a \<notin> ?Z i" for i using Suc.prems(2) Sub_self [of a] by blast
    have get: "get_node w ?p = Some n" if "freeing u (?Z i) w" for i w
      using rm_node(1) [OF wf p aZ nm] that by (simp add: get_node_def freeing_def)
    let ?body = "\<lambda>i uat. do { n \<leftarrow> get_node uat ?p; child \<leftarrow> read_array uat (node_children n) i;
        agx_uat_free_node fuel uat child (depth + 1) }"
    have "\<exists>w. foldO ?body [0..<?cnt] v = Some w \<and> freeing u (?Z ?cnt) w"
    proof (rule foldO_upt_rule)
      show "freeing u (?Z 0) v" using Suc.prems(1) by simp
    next
      fix i w assume i: "i < ?cnt" and w: "freeing u (?Z i) w"
      have "read_array w (node_children n) i = read_array u (node_children n) i"
        using rm_node(2) [OF wf p aZ nm] w by (simp add: read_array_def freeing_def)
      also have "\<dots> = Some (nd u (i # a))"
        using wf p n(1) i by (intro read_array_nd) (simp_all add: n(3))
      finally have rd: "read_array w (node_children n) i = Some (nd u (i # a))" .
      have "Sub (j # a) \<inter> Sub (i # a) = {}" if "j < i" for j
        using that by (intro Sub_disjoint) simp
      moreover have "Sub (i # a) \<subseteq> Sub a" by (subst (2) Sub_unfold) auto
      ultimately have "?Z i \<inter> Sub (i # a) = {}" using Suc.prems(2) by blast
      then obtain w' where "agx_uat_free_node fuel w (nd u (i # a)) (depth + 1) = Some w'"
        "freeing u (?Z i \<union> Sub (i # a)) w'"
        using Suc.IH [OF w, of "i # a" "depth + 1"] Suc.prems(3,4) by auto
      moreover have "?Z i \<union> Sub (i # a) = ?Z (Suc i)" by (auto simp: less_Suc_eq)
      ultimately show "\<exists>w'. ?body i w = Some w' \<and> freeing u (?Z (Suc i)) w'"
        using get [OF w] rd by auto
    qed
    then obtain w where w: "foldO ?body [0..<?cnt] v = Some w" "freeing u (?Z ?cnt) w" by blast
    obtain v1 v2 v3 where rel: "release_array w (node_children n) (sizeof_ptr * ?cnt) = Some v1"
      "get_node v1 ?p = Some n" "release_table v1 (node_cpu n) (node_phys n) = Some v2"
      "release_node v2 ?p = Some v3" "freeing u (insert a (?Z ?cnt)) v3"
      using wf w(2) p aZ nm by (rule release_path)
    have gv: "get_node v ?p = Some n" using get [of 0 v] Suc.prems(1) by simp
    have "lp u (insert a (?Z ?cnt)) = lp u (Y \<union> Sub a)"
    proof -
      have "nd u b = 0" if "b \<in> Sub (i # a)" "\<not> i < ?cnt" for b i
      proof -
        obtain m xs where "get_node u ?p = Some m" "mem_arrays (uat_mem u) (node_children m) = Some xs"
          "length xs = ?cnt"
          using wf p by (rule wf_node) (simp add: n(3))
        with that(2) Suc.prems(3) have "nd u (i # a) = 0"
          by (simp add: nd_Cons kid_def get_node_def)
        with that(1) Suc.prems(3) show ?thesis using nd_below_null [OF wf, of "i # a" b] by simp
      qed
      then have "lp u (\<Union>i. Sub (i # a)) = lp u (\<Union>i<?cnt. Sub (i # a))"
        unfolding lp_def by blast
      moreover have "lp u (Y \<union> Sub a) = lp u Y \<union> lp u {a} \<union> lp u (\<Union>i. Sub (i # a))"
        unfolding Sub_unfold [of a] lp_def by blast
      moreover have "lp u (insert a (?Z ?cnt)) = lp u Y \<union> lp u {a} \<union> lp u (\<Union>i<?cnt. Sub (i # a))"
        unfolding lp_def by blast
      ultimately show ?thesis by (simp only:)
    qed
    then have "freeing u (Y \<union> Sub a) v3" using rel(5) freeing_cong by blast
    moreover have "agx_uat_free_node (Suc fuel) v ?p depth = Some v3"
      using p n(2) gv w(1) get [OF w(2)] rel(1-4) by simp
    ultimately show ?thesis by blast
  qed
qed

end

section \<open>The tree after a subtree is gone\<close>

text \<open>\<open>pruned u s c u'\<close>: \<open>u'\<close> is \<open>u\<close> with the tree of context \<open>c\<close> and select \<open>s\<close> removed from the
  store and its root and L0 slot cleared.\<close>

definition pruned :: "'e agx_uat \<Rightarrow> nat \<Rightarrow> nat \<Rightarrow> 'e agx_uat \<Rightarrow> bool" where
  "pruned u s c u' \<longleftrightarrow> uat_mem u' = rm u (Sub [s, c]) \<and>
     uat_l1 u' = set_root (uat_l1 u) c s 0 \<and> uat_l0 u' = (uat_l0 u)[2 * c + s := 0]"

lemma rm_kid_ent:
  assumes wf: "uat_wf I u" and b: "b \<notin> X"
  shows "kid (rm u X) (nd u b) i = kid (uat_mem u) (nd u b) i"
    and "ent (rm u X) (nd u b) i = ent (uat_mem u) (nd u b) i"
    and "mem_nodes (rm u X) (nd u b) = mem_nodes (uat_mem u) (nd u b)"
proof -
  have null: "mem_nodes (uat_mem u) 0 = None" "mem_nodes (rm u X) 0 = None"
    using wf_sep [OF wf] by (simp_all add: separated_def rm_def restrict_map_def)
  have "kid (rm u X) (nd u b) i = kid (uat_mem u) (nd u b) i \<and>
    ent (rm u X) (nd u b) i = ent (uat_mem u) (nd u b) i \<and>
    mem_nodes (rm u X) (nd u b) = mem_nodes (uat_mem u) (nd u b)"
  proof (cases "nd u b = 0")
    case False
    then obtain n where n: "mem_nodes (uat_mem u) (nd u b) = Some n"
      using wf_node [OF wf] by (metis get_node_def)
    from rm_node [OF wf False b n] n show ?thesis by (simp add: kid_def ent_def)
  qed (simp add: kid_def ent_def null)
  then show "kid (rm u X) (nd u b) i = kid (uat_mem u) (nd u b) i"
    "ent (rm u X) (nd u b) i = ent (uat_mem u) (nd u b) i"
    "mem_nodes (rm u X) (nd u b) = mem_nodes (uat_mem u) (nd u b)" by simp_all
qed

lemma pruned_nd:
  assumes wf: "uat_wf I u" and pr: "pruned u s c u'" and cs: "c < 64" "s < 2"
  shows "nd u' b = (if b \<in> Sub [s, c] then 0 else nd u b)"
proof (induction b)
  case Nil
  then show ?case by simp
next
  case (Cons i b)
  have shape: "c < length (uat_l1 u)" "s < length (uat_l1 u ! c)"
    using wf cs by (simp_all add: uat_wf_def l1_shape_def)
  have null: "kid (uat_mem u') 0 i = 0"
    using wf_sep [OF wf] pr by (simp add: pruned_def kid_def separated_def rm_def restrict_map_def)
  consider "length b < 1" | "length b = 1" | "2 \<le> length b" by linarith
  then show ?case
  proof cases
    case 1
    then show ?thesis by simp
  next
    case 2
    then obtain d where "b = [d]" by (auto simp: length_Suc_conv)
    moreover have "[i, d] \<in> Sub [s, c] \<longleftrightarrow> i = s \<and> d = c"
      by (auto simp: Sub_def Cons_eq_append_conv)
    ultimately show ?thesis
      using pr root_set_root [OF shape, of 0] by (auto simp: pruned_def)
  next
    case 3
    then have "i # b \<in> Sub [s, c] \<longleftrightarrow> b \<in> Sub [s, c]" by (auto simp: Sub_step)
    then show ?thesis using 3 Cons null rm_kid_ent(1) [OF wf] pr
      by (simp add: nd_Cons pruned_def)
  qed
qed

lemma pruned_views:
  assumes wf: "uat_wf I u" and pr: "pruned u s c u'" and cs: "c < 64" "s < 2"
  shows "entry u' b k = (if b \<in> Sub [s, c] then 0 else entry u b k)"
    and "phys_at u' b = (if b \<in> Sub [s, c] then 0 else phys_at u b)"
proof -
  have "mem_nodes (rm u (Sub [s, c])) 0 = None"
    using wf_sep [OF wf] by (simp add: separated_def rm_def restrict_map_def)
  then show "entry u' b k = (if b \<in> Sub [s, c] then 0 else entry u b k)"
    and "phys_at u' b = (if b \<in> Sub [s, c] then 0 else phys_at u b)"
    using pr rm_kid_ent [OF wf] pruned_nd [OF wf pr cs]
    by (simp_all add: entry_def phys_at_def pruned_def) (simp add: ent_def)
qed

lemma pruned_hw:
  assumes wf: "uat_wf I u" and pr: "pruned u s c u'" and cs: "c < 64" "s < 2" and hw: "hw_ok u"
  shows "hw_ok u'"
proof -
  note v = pruned_nd [OF wf pr cs] pruned_views [OF wf pr cs]
  have len: "length (uat_l0 u) = 128" using wf by (simp add: uat_wf_def l1_shape_def)
  show ?thesis unfolding hw_ok_def
  proof (intro conjI allI impI)
    fix c' s' :: nat assume cs': "c' < 64" "s' < 2"
    have "[s', c'] \<in> Sub [s, c] \<longleftrightarrow> s' = s \<and> c' = c"
      by (auto simp: Sub_def Cons_eq_append_conv)
    moreover have "2 * c + s = 2 * c' + s' \<longleftrightarrow> s' = s \<and> c' = c" using cs cs' by arith
    moreover have "uat_l0 u ! (2 * c' + s') = (if nd u [s', c'] = 0 then 0
        else agx_uat_ttbr (phys_at u [s', c']) (word_of_nat c'))"
      using hw cs' unfolding hw_ok_def by blast
    ultimately show "uat_l0 u' ! (2 * c' + s') = (if nd u' [s', c'] = 0 then 0
        else agx_uat_ttbr (phys_at u' [s', c']) (word_of_nat c'))"
      using pr len cs cs' by (simp add: v pruned_def nth_list_update del: nd.simps)
  next
    fix b i assume b: "nd u' b \<noteq> 0" "length b < 4"
    then have "2 \<le> length b" by (intro nd_nonzero_length)
    then have "i # b \<in> Sub [s, c] \<longleftrightarrow> b \<in> Sub [s, c]" by (auto simp: Sub_step)
    moreover have "b \<notin> Sub [s, c]" "nd u b \<noteq> 0" using b by (auto simp: v split: if_splits)
    ultimately show "entry u' b i = (if nd u' (i # b) = 0 then 0
        else agx_uat_table_pte (phys_at u' (i # b)))"
      using hw b(2) unfolding hw_ok_def by (simp add: v)
  qed
qed

lemma rm_owned:
  assumes wf: "uat_wf I u"
    and inj: "\<And>p q n n'. mem_nodes (uat_mem u) p = Some n \<Longrightarrow> mem_nodes (uat_mem u) q = Some n' \<Longrightarrow>
      f n = f n' \<Longrightarrow> p = q"
  shows "f ` ran (mem_nodes (uat_mem u)) - owned u f X = f ` ran (mem_nodes (rm u X))"
proof -
  have "f n \<in> owned u f X \<longleftrightarrow> p \<in> nd u ` lp u X" if n: "mem_nodes (uat_mem u) p = Some n" for p n
  proof
    assume "f n \<in> owned u f X"
    then obtain b n' where b: "b \<in> lp u X" "mem_nodes (uat_mem u) (nd u b) = Some n'" "f n = f n'"
      by (auto simp: owned_def)
    with inj [OF n b(2)] show "p \<in> nd u ` lp u X" by auto
  qed (use n in \<open>auto simp: owned_def\<close>)
  then have "ran (mem_nodes (rm u X)) = {n \<in> ran (mem_nodes (uat_mem u)). f n \<notin> owned u f X}"
    unfolding rm_def by (simp add: ran_restrict_inj) (auto simp: ran_def)
  then show ?thesis by auto
qed

lemma pruned_node_ok:
  assumes wf: "uat_wf I u" and b: "b \<notin> X" "nd u b \<noteq> 0"
  shows "node_ok (rm u X) (nd u b) (level_count (length b))"
proof -
  have ok: "node_ok (uat_mem u) (nd u b) (level_count (length b))"
    using wf b(2) by (simp add: uat_wf_def tree_ok_def)
  then obtain n where n: "mem_nodes (uat_mem u) (nd u b) = Some n" by (auto simp: node_ok_def)
  from rm_node [OF wf b(2,1) n] ok n show ?thesis by (auto simp: node_ok_def)
qed

lemma pruned_wf:
  assumes wf: "uat_wf I u" and pr: "pruned u s c u'" and cs: "c < 64" "s < 2"
    and I: "I (uat_ctx u') (live_objects (uat_mem u')) (live_tables (uat_mem u'))"
  shows "uat_wf I u'"
proof -
  let ?X = "Sub [s, c]" and ?m = "uat_mem u"
  note nd' = pruned_nd [OF wf pr cs]
  have m': "uat_mem u' = rm u ?X" using pr by (simp add: pruned_def)
  have sep: "separated ?m" and leak: "no_leak u" and tree: "tree_ok u" and shape: "l1_shape u"
    using wf by (simp_all add: uat_wf_def)
  have inj: "p = q" if "mem_nodes ?m p = Some n" "mem_nodes ?m q = Some n'"
    "node_children n = node_children n' \<or> node_cpu n = node_cpu n'" for p q n n'
    using sep that unfolding separated_def by metis
  have shape': "l1_shape u'"
    using pr shape cs by (auto simp: pruned_def l1_shape_def set_root_def nth_list_update)
  have sep': "separated (uat_mem u')"
  proof -
    have n: "mem_nodes ?m p = Some n" if "mem_nodes (rm u ?X) p = Some n" for p n
      using that by (auto simp: rm_def restrict_map_def split: if_splits)
    have "dom (mem_nodes (rm u ?X)) \<inter> dom (mem_arrays (rm u ?X)) \<subseteq>
        dom (mem_nodes ?m) \<inter> dom (mem_arrays ?m)"
      unfolding rm_def by auto
    moreover have "mem_nodes (rm u ?X) 0 = None"
      using sep by (simp add: separated_def rm_def restrict_map_def)
    ultimately show ?thesis
      using sep unfolding m' separated_def by (auto dest!: n)
  qed
  have "dom (mem_nodes (rm u ?X)) = range (nd u) - {0} - nd u ` lp u ?X"
    using leak by (auto simp: no_leak_def rm_def)
  also have "\<dots> = range (nd u') - {0}"
  proof (intro equalityI subsetI)
    fix p assume "p \<in> range (nd u') - {0}"
    then obtain b where b: "p = nd u b" "b \<notin> ?X" "p \<noteq> 0" by (auto simp: nd' split: if_splits)
    then have "p \<notin> nd u ` lp u ?X" using wf_inj [OF wf, of _ b] by (auto simp: lp_def)
    with b show "p \<in> range (nd u) - {0} - nd u ` lp u ?X" by auto
  qed (auto simp: lp_def nd' image_iff)
  finally have d1: "dom (mem_nodes (rm u ?X)) = range (nd u') - {0}" .
  have d2: "dom (mem_arrays (rm u ?X)) = node_children ` ran (mem_nodes (rm u ?X))"
    "dom (mem_tables (rm u ?X)) = node_cpu ` ran (mem_nodes (rm u ?X))"
  proof -
    have "dom (mem_arrays ?m) - owned u node_children ?X = node_children ` ran (mem_nodes (rm u ?X))"
      using leak rm_owned [OF wf, of node_children ?X] inj by (simp add: no_leak_def)
    moreover have "dom (mem_tables ?m) - owned u node_cpu ?X = node_cpu ` ran (mem_nodes (rm u ?X))"
      using leak rm_owned [OF wf, of node_cpu ?X] inj by (simp add: no_leak_def)
    ultimately show "dom (mem_arrays (rm u ?X)) = node_children ` ran (mem_nodes (rm u ?X))"
      "dom (mem_tables (rm u ?X)) = node_cpu ` ran (mem_nodes (rm u ?X))"
      by (simp_all add: rm_def Diff_eq)
  qed
  have "tree_ok u'"
    using tree pruned_node_ok [OF wf] unfolding tree_ok_def nd' m' by auto
  with shape' sep' d1 d2 I show ?thesis by (simp add: uat_wf_def no_leak_def m')
qed

section \<open>Freeing a context\<close>

context uat_allocator
begin

lemma free_select:
  assumes wf: "uat_wf ainv u" and ops: "uat_ops u = ops"
    and c: "ctx_id < AGX_UAT_CONTEXT_COUNT" and s: "unat sel < 2"
  obtains u' where
    "(do { node \<leftarrow> read_l1 u ctx_id sel;
           uat \<leftarrow> agx_uat_free_node uat_free_fuel u node 1;
           uat \<leftarrow> write_l1 uat ctx_id sel 0;
           agx_uat_l0_write uat ctx_id sel 0 0 }) = Some u'"
    "pruned u (unat sel) (unat ctx_id) u'" "uat_wf ainv u'" "uat_ops u' = ops"
    "\<exists>es. uat_trace u' = uat_trace u @ es @ [Store_L0 (2 * unat ctx_id + unat sel) 0] \<and>
       set es = freed_events u (Sub [unat sel, unat ctx_id])"
proof -
  let ?a = "[unat sel, unat ctx_id]"
  have shape: "l1_shape u" using wf by (simp add: uat_wf_def)
  have c': "unat ctx_id < 64" using c by (simp add: word_less_nat_alt)
  have "freeing u {} u" using wf ops by (simp add: freeing_def uat_wf_def freed_events_def lp_def)
  then obtain v where v: "agx_uat_free_node uat_free_fuel u (nd u ?a) 1 = Some v"
    "freeing u (Sub ?a) v"
    using free_node_sub [OF wf, of "{}" u ?a uat_free_fuel 1] by (auto simp: uat_free_fuel_def)
  define u' where "u' = v\<lparr>uat_l1 := set_root (uat_l1 u) (unat ctx_id) (unat sel) 0,
    uat_l0 := (uat_l0 u)[2 * unat ctx_id + unat sel := 0],
    uat_trace := uat_trace v @ [Store_L0 (2 * unat ctx_id + unat sel) 0]\<rparr>"
  have "read_l1 u ctx_id sel = Some (nd u ?a)" using shape c s by (rule read_l1_nd)
  moreover have "write_l1 v ctx_id sel 0 =
      Some (v\<lparr>uat_l1 := set_root (uat_l1 u) (unat ctx_id) (unat sel) 0\<rparr>)"
    using v(2) shape c' s by (simp add: write_l1_def freeing_def l1_shape_def set_root_def)
  moreover have "agx_uat_l0_write (v\<lparr>uat_l1 := set_root (uat_l1 u) (unat ctx_id) (unat sel) 0\<rparr>)
      ctx_id sel 0 0 = Some u'"
    using v(2) shape c' s unat_l0_slot [OF c s]
    by (simp add: agx_uat_l0_write_def freeing_def l1_shape_def u'_def ttbr_zero Let_def)
  ultimately have "(do { node \<leftarrow> read_l1 u ctx_id sel;
           uat \<leftarrow> agx_uat_free_node uat_free_fuel u node 1;
           uat \<leftarrow> write_l1 uat ctx_id sel 0;
           agx_uat_l0_write uat ctx_id sel 0 0 }) = Some u'"
    using v(1) by (simp del: nd.simps)
  moreover have pr: "pruned u (unat sel) (unat ctx_id) u'"
    using v(2) by (simp add: pruned_def freeing_def u'_def)
  moreover have "uat_wf ainv u'"
    using v(2) by (intro pruned_wf [OF wf pr c' s]) (simp add: freeing_def u'_def)
  moreover have "uat_ops u' = ops" using v(2) by (simp add: freeing_def u'_def)
  moreover have "\<exists>es. uat_trace u' = uat_trace u @ es @ [Store_L0 (2 * unat ctx_id + unat sel) 0] \<and>
       set es = freed_events u (Sub ?a)"
    using v(2) by (auto simp: freeing_def u'_def)
  ultimately show thesis by (rule that)
qed

text \<open>\<open>freed c u u'\<close>: every node of context \<open>c\<close> is gone, every other path and its entries are kept.\<close>

definition freed :: "nat \<Rightarrow> 'e agx_uat \<Rightarrow> 'e agx_uat \<Rightarrow> bool" where
  "freed c u u' \<longleftrightarrow> uat_wf ainv u' \<and> uat_ops u' = ops \<and> (hw_ok u \<longrightarrow> hw_ok u') \<and>
     (\<forall>b. nd u' b = (if b \<in> Sub [0, c] \<union> Sub [1, c] then 0 else nd u b)) \<and>
     (\<forall>b k. entry u' b k = (if b \<in> Sub [0, c] \<union> Sub [1, c] then 0 else entry u b k))"

lemma free_context_freed:
  assumes wf: "uat_wf ainv u" and ops: "uat_ops u = ops" and c: "ctx_id < AGX_UAT_CONTEXT_COUNT"
  obtains u' es0 es1 where "agx_uat_free_context u ctx_id = Some u'" "freed (unat ctx_id) u u'"
    "uat_trace u' = uat_trace u @ es0 @ [Store_L0 (2 * unat ctx_id) 0] @ es1 @
       [Store_L0 (2 * unat ctx_id + 1) 0]"
    "set es0 = freed_events u (Sub [0, unat ctx_id])"
    "\<forall>e \<in> set es1. \<exists>cpu phys. e = Free_Table cpu phys"
proof -
  let ?c = "unat ctx_id"
  have c': "?c < 64" using c by (simp add: word_less_nat_alt)
  obtain v es0 where s0: "(do { node \<leftarrow> read_l1 u ctx_id 0;
           uat \<leftarrow> agx_uat_free_node uat_free_fuel u node 1;
           uat \<leftarrow> write_l1 uat ctx_id 0 0;
           agx_uat_l0_write uat ctx_id 0 0 0 }) = Some v"
    and v: "pruned u 0 ?c v" "uat_wf ainv v" "uat_ops v = ops"
    and tr0: "uat_trace v = uat_trace u @ es0 @ [Store_L0 (2 * ?c) 0]"
      "set es0 = freed_events u (Sub [0, ?c])"
    by (rule free_select [OF wf ops c, of 0]) auto
  obtain u' es1 where s1: "(do { node \<leftarrow> read_l1 v ctx_id 1;
           uat \<leftarrow> agx_uat_free_node uat_free_fuel v node 1;
           uat \<leftarrow> write_l1 uat ctx_id 1 0;
           agx_uat_l0_write uat ctx_id 1 0 0 }) = Some u'"
    and u': "pruned v 1 ?c u'" "uat_wf ainv u'" "uat_ops u' = ops"
    and tr1: "uat_trace u' = uat_trace v @ es1 @ [Store_L0 (2 * ?c + 1) 0]"
      "set es1 = freed_events v (Sub [1, ?c])"
    by (rule free_select [OF v(2,3) c, of 1]) auto
  have "agx_uat_free_context u ctx_id = Some u'"
    using c s0 s1 by (simp add: agx_uat_free_context_def not_le)
  moreover have "freed ?c u u'"
  proof -
    note n0 = pruned_nd [OF wf v(1) c'] and n1 = pruned_nd [OF v(2) u'(1) c']
    note e0 = pruned_views(1) [OF wf v(1) c'] and e1 = pruned_views(1) [OF v(2) u'(1) c']
    have "hw_ok u \<longrightarrow> hw_ok u'"
      using pruned_hw [OF wf v(1) c'] pruned_hw [OF v(2) u'(1) c'] by simp
    with u'(2,3) show ?thesis unfolding freed_def by (simp add: n0 n1 e0 e1)
  qed
  moreover have "uat_trace u' = uat_trace u @ es0 @ [Store_L0 (2 * ?c) 0] @ es1 @ [Store_L0 (2 * ?c + 1) 0]"
    using tr0(1) tr1(1) by simp
  moreover have "\<forall>e \<in> set es1. \<exists>cpu phys. e = Free_Table cpu phys"
    using tr1(2) by (auto simp: freed_events_def)
  ultimately show thesis using tr0(2) by (intro that)
qed

lemma freed_leaf:
  assumes "freed (unat c) u u'"
  shows "uat_leaf u' c' va = (if c' = c then 0 else uat_leaf u c' va)"
proof -
  have "uat_path c' va \<in> Sub [0, unat c] \<union> Sub [1, unat c] \<longleftrightarrow> c' = c"
    using index_bounds(4) [of va]
    by (auto simp: uat_path_def Sub_def Cons_eq_append_conv word_unat_eq_iff less_2_cases_iff)
  then show ?thesis using assms by (simp add: freed_def uat_leaf_def)
qed

end

end
