(* ===== verification/Uat_Spec.thy ===== *)
theory Uat_Spec
  imports Uat_Free
begin

text \<open>
  The specification of the UAT walker and the refinement. The abstract state is a finite
  map from (context, page number) to the leaf descriptor. The locale \<open>page_table\<close> is the
  interface a client of \<^verbatim>\<open>src/uat.h\<close> relies on; its client lemma runs an arbitrary sequence
  of calls against the reference map, the way \<^verbatim>\<open>tests/uat_test.cpp\<close> compares the walker with
  a \<^verbatim>\<open>std::map\<close>. The model of \<^verbatim>\<open>src/uat.c\<close> interprets it. The last section reads the
  tables the way the GPU does, through TTBR slots and physical addresses.
\<close>

section \<open>The abstract page map\<close>

type_synonym uat_pages = "u32 \<times> u64 \<Rightarrow> u64 option"

definition page_of :: "u64 \<Rightarrow> u64" where
  "page_of va = drop_bit AGX_UAT_PAGE_BITS va"

datatype uat_call =
    Call_Map u32 u64 u64 u64
  | Call_Unmap u32 u64
  | Call_Free u32

text \<open>\<open>spec_step call m r\<close> is the map after a call that returned \<open>r\<close>, or \<open>None\<close> if the call may
  not return \<open>r\<close>. Allocation may fail at any time, so \<^verbatim>\<open>AGX_ENOMEM\<close> is always permitted
  for a well-formed map request, and then nothing changes.\<close>

fun spec_step :: "uat_call \<Rightarrow> uat_pages \<Rightarrow> int \<Rightarrow> uat_pages option" where
  "spec_step (Call_Map c va pa fl) m r =
     (if map_rejects c va pa then if r = AGX_EINVAL then Some m else None
      else if r = 0 then Some (m((c, page_of va) \<mapsto> agx_uat_pte pa (fl OR AGX_UAT_PTE_VALID)))
      else if r = AGX_ENOMEM then Some m else None)"
| "spec_step (Call_Unmap c va) m r =
     (if AGX_UAT_CONTEXT_COUNT \<le> c \<or> AGX_UAT_VA_LIMIT \<le> va
      then if r = AGX_EINVAL then Some m else None
      else if m (c, page_of va) = None then if r = AGX_ENODATA then Some m else None
      else if r = 0 then Some (m((c, page_of va) := None)) else None)"
| "spec_step (Call_Free c) m r =
     (if r = 0 then Some (\<lambda>(c', p). if c' = c then None else m (c', p)) else None)"

fun spec_run :: "uat_call list \<Rightarrow> uat_pages \<Rightarrow> int list \<Rightarrow> uat_pages option" where
  "spec_run [] m [] = Some m"
| "spec_run (k # ks) m (r # rs) = Option.bind (spec_step k m r) (\<lambda>m'. spec_run ks m' rs)"
| "spec_run _ _ _ = None"

definition spec_lookup :: "uat_pages \<Rightarrow> u32 \<Rightarrow> u64 \<Rightarrow> u64 \<times> bool" where
  "spec_lookup m c va =
     (if AGX_UAT_CONTEXT_COUNT \<le> c \<or> AGX_UAT_VA_LIMIT \<le> va then (0, False)
      else case m (c, page_of va) of None \<Rightarrow> (0, False) | Some e \<Rightarrow> (agx_uat_pte_phys e, True))"

section \<open>The interface\<close>

locale page_table =
  fixes inv :: "'s \<Rightarrow> bool"
    and pages :: "'s \<Rightarrow> uat_pages"
    and call :: "uat_call \<Rightarrow> 's \<Rightarrow> (int \<times> 's) option"
    and lookup :: "'s \<Rightarrow> u32 \<Rightarrow> u64 \<Rightarrow> (u64 \<times> bool) option"
  assumes call_law: "inv s \<Longrightarrow>
      \<exists>r s'. call k s = Some (r, s') \<and> inv s' \<and> spec_step k (pages s) r = Some (pages s')"
    and lookup_law: "inv s \<Longrightarrow> \<exists>p v. lookup s c va = Some (p, v) \<and>
      v = snd (spec_lookup (pages s) c va) \<and> (v \<longrightarrow> p = fst (spec_lookup (pages s) c va))"
begin

primrec run :: "uat_call list \<Rightarrow> 's \<Rightarrow> (int list \<times> 's) option" where
  "run [] s = Some ([], s)"
| "run (k # ks) s = Option.bind (call k s) (\<lambda>(r, s'). Option.bind (run ks s') (\<lambda>(rs, t). Some (r # rs, t)))"

lemma run_refines:
  assumes "inv s"
  shows "\<exists>rs t. run ks s = Some (rs, t) \<and> inv t \<and> spec_run ks (pages s) rs = Some (pages t)"
  using assms
proof (induction ks arbitrary: s)
  case (Cons k ks)
  obtain r s' where 1: "call k s = Some (r, s')" "inv s'" "spec_step k (pages s) r = Some (pages s')"
    using call_law [OF Cons.prems] by blast
  obtain rs t where 2: "run ks s' = Some (rs, t)" "inv t" "spec_run ks (pages s') rs = Some (pages t)"
    using Cons.IH [OF 1(2)] by blast
  show ?case
    by (intro exI [of _ "r # rs"] exI [of _ t]) (simp add: 1 2)
qed simp

lemma run_lookup:
  assumes "inv s" "run ks s = Some (rs, t)"
  obtains m p v where "spec_run ks (pages s) rs = Some m" "lookup t c va = Some (p, v)"
    "v = snd (spec_lookup m c va)" "v \<longrightarrow> p = fst (spec_lookup m c va)"
proof -
  have "inv t" "spec_run ks (pages s) rs = Some (pages t)"
    using run_refines [OF assms(1), of ks] assms(2) by auto
  with lookup_law [OF this(1), of c va] that show thesis by blast
qed

end

section \<open>Keys\<close>

lemma page_of_bit: "bit (page_of va) i \<longleftrightarrow> bit va (i + 14)"
  by (simp add: page_of_def AGX_UAT_PAGE_BITS_def bit_drop_bit_eq add.commute)

lemma page_of_bound: "va < AGX_UAT_VA_LIMIT \<Longrightarrow> page_of va < 2 ^ 29"
  using word_less_exp_iff_bits [of 29 "page_of va"] by (auto simp: page_of_bit below_VA_LIMIT_bit)

lemma indices_page:
  assumes "pn < 2 ^ 29" "va < AGX_UAT_VA_LIMIT"
  shows "uat_indices (push_bit 14 pn) = uat_indices va \<longleftrightarrow> pn = page_of va"
proof -
  have pn: "bit pn i \<Longrightarrow> i < 29" for i using word_less_exp_iff_bits [of 29 pn] assms(1) by simp
  have "uat_indices (push_bit 14 pn) = uat_indices va \<longleftrightarrow>
      (\<forall>i. 14 \<le> i \<and> i < 43 \<longrightarrow> bit pn (i - 14) = bit va i)"
    by (simp add: uat_indices_eq_iff_bits bit_push_bit_iff)
  also have "\<dots> \<longleftrightarrow> (\<forall>j<29. bit pn j = bit va (j + 14))"
  proof safe
    fix j :: nat assume "\<forall>i. 14 \<le> i \<and> i < 43 \<longrightarrow> bit pn (i - 14) = bit va i" "j < 29"
    from this(1) [rule_format, of "j + 14"] this(2) show "bit pn j \<Longrightarrow> bit va (j + 14)"
      "bit va (j + 14) \<Longrightarrow> bit pn j" by simp_all
  next
    fix i :: nat assume "\<forall>j<29. bit pn j = bit va (j + 14)" "14 \<le> i" "i < 43"
    from this(1) [rule_format, of "i - 14"] this(2,3) show "bit pn (i - 14) \<Longrightarrow> bit va i"
      "bit va i \<Longrightarrow> bit pn (i - 14)" by simp_all
  qed
  also have "\<dots> \<longleftrightarrow> pn = page_of va"
  proof -
    have "bit va (j + 14) \<Longrightarrow> j < 29" for j using assms(2) by (auto simp: below_VA_LIMIT_bit)
    moreover have "j < 29 \<longrightarrow> j < LENGTH(64)" for j :: nat by simp
    ultimately show ?thesis using pn unfolding word_eq_iff_bits page_of_bit by metis
  qed
  finally show ?thesis .
qed

lemma leaf_indices: "uat_indices va = uat_indices va' \<Longrightarrow> uat_leaf u c va = uat_leaf u c va'"
  using uat_path_eq_iff [of c va c va'] by (simp add: uat_leaf_def)

section \<open>The walker implements the page map\<close>

definition uat_abs :: "'e agx_uat \<Rightarrow> uat_pages" where
  "uat_abs u = (\<lambda>(c, pn). let e = uat_leaf u c (push_bit 14 pn)
     in if c < AGX_UAT_CONTEXT_COUNT \<and> pn < 2 ^ 29 \<and> bit e 0 then Some e else None)"

definition uat_call :: "uat_call \<Rightarrow> 'e agx_uat \<Rightarrow> (int \<times> 'e agx_uat) option" where
  "uat_call k u =
     (case k of
        Call_Map c va pa fl \<Rightarrow> agx_uat_map_page u c va pa fl
      | Call_Unmap c va \<Rightarrow> agx_uat_unmap_page u c va
      | Call_Free c \<Rightarrow> Option.bind (agx_uat_free_context u c) (\<lambda>u'. Some (0, u')))"

definition uat_inv :: "'e agx_uat \<Rightarrow> bool" where
  "uat_inv u \<longleftrightarrow> (\<exists>I. uat_allocator I (uat_ops u) \<and> uat_wf I u)"

lemma uat_abs_leaf:
  assumes "c < AGX_UAT_CONTEXT_COUNT" "va < AGX_UAT_VA_LIMIT"
  shows "uat_abs u (c, page_of va) =
     (if bit (uat_leaf u c va) 0 then Some (uat_leaf u c va) else None)"
proof -
  have "uat_leaf u c (push_bit 14 (page_of va)) = uat_leaf u c va"
    using indices_page [of "page_of va" va] assms page_of_bound by (intro leaf_indices) simp
  with assms page_of_bound [of va] show ?thesis by (simp add: uat_abs_def)
qed

lemma uat_abs_updated:
  assumes "updated I u u' c va v" "c < AGX_UAT_CONTEXT_COUNT" "va < AGX_UAT_VA_LIMIT"
  shows "uat_abs u' = (uat_abs u)((c, page_of va) := if bit v 0 then Some v else None)"
proof
  fix k :: "u32 \<times> u64"
  obtain c' pn where k: "k = (c', pn)" by (cases k)
  show "uat_abs u' k = ((uat_abs u)((c, page_of va) := if bit v 0 then Some v else None)) k"
  proof (cases "pn < 2 ^ 29")
    case True
    then have "uat_indices (push_bit 14 pn) = uat_indices va \<longleftrightarrow> pn = page_of va"
      using assms(3) by (rule indices_page)
    then have "uat_leaf u' c' (push_bit 14 pn) =
        (if c' = c \<and> pn = page_of va then v else uat_leaf u c' (push_bit 14 pn))"
      using assms(1) by (simp add: updated_def)
    with True assms(2) show ?thesis by (auto simp: k uat_abs_def Let_def)
  next
    case False
    with page_of_bound [OF assms(3)] show ?thesis by (auto simp: k uat_abs_def Let_def)
  qed
qed

lemma updatedD:
  "updated I u u' c va v \<Longrightarrow> uat_wf I u' \<and> uat_ops u' = uat_ops u \<and> (hw_ok u \<longrightarrow> hw_ok u')"
  by (simp add: updated_def)

lemma keptD:
  "kept I u u' \<Longrightarrow> uat_wf I u' \<and> uat_ops u' = uat_ops u \<and> (hw_ok u \<longrightarrow> hw_ok u') \<and> uat_abs u' = uat_abs u"
  by (simp add: kept_def uat_abs_def)

lemma uat_call_refines:
  assumes A: "uat_allocator I ops" and wf: "uat_wf I u" and ops: "uat_ops u = ops"
  shows "\<exists>r u'. uat_call k u = Some (r, u') \<and> uat_wf I u' \<and> uat_ops u' = ops \<and>
    (hw_ok u \<longrightarrow> hw_ok u') \<and> spec_step k (uat_abs u) r = Some (uat_abs u')"
proof (cases k)
  case (Call_Map c va pa fl)
  let ?v = "agx_uat_pte pa (fl OR AGX_UAT_PTE_VALID)"
  obtain r u' where r: "agx_uat_map_page u c va pa fl = Some (r, u')"
    "if map_rejects c va pa then r = AGX_EINVAL \<and> u' = u
     else r = 0 \<and> updated I u u' c va ?v \<or> r = AGX_ENOMEM \<and> kept I u u'"
    using uat_allocator.map_leaf [OF A wf ops] .
  have up: "uat_abs u' = (uat_abs u)((c, page_of va) \<mapsto> ?v)"
    if "\<not> map_rejects c va pa" "updated I u u' c va ?v"
    using that uat_abs_updated [OF that(2)] by (simp add: map_rejects_def pte_valid_forced not_le)
  from r up wf ops show ?thesis
    by (auto simp: Call_Map uat_call_def AGX_ENOMEM_def dest: updatedD keptD split: if_splits)
next
  case (Call_Unmap c va)
  obtain r u' where r: "agx_uat_unmap_page u c va = Some (r, u')"
    "if AGX_UAT_CONTEXT_COUNT \<le> c \<or> AGX_UAT_VA_LIMIT \<le> va then r = AGX_EINVAL \<and> u' = u
     else if bit (uat_leaf u c va) 0 then r = 0 \<and> updated I u u' c va 0
     else r = AGX_ENODATA \<and> u' = u"
    using unmap_leaf [OF wf] .
  have up: "uat_abs u' = (uat_abs u)((c, page_of va) := None)"
    if "c < AGX_UAT_CONTEXT_COUNT" "va < AGX_UAT_VA_LIMIT" "updated I u u' c va 0"
    using uat_abs_updated [OF that(3,1,2)] by simp
  from r up wf ops show ?thesis
    by (auto simp: Call_Unmap uat_call_def not_le uat_abs_leaf dest: updatedD split: if_splits)
next
  case (Call_Free c)
  show ?thesis
  proof (cases "AGX_UAT_CONTEXT_COUNT \<le> c")
    case True
    then have "uat_abs u = (\<lambda>(c', p). if c' = c then None else uat_abs u (c', p))"
      by (auto simp: fun_eq_iff uat_abs_def Let_def not_less)
    with True wf ops show ?thesis
      by (simp add: Call_Free uat_call_def agx_uat_free_context_def)
  next
    case False
    then obtain u' where u': "agx_uat_free_context u c = Some u'" "uat_allocator.freed I ops (unat c) u u'"
      using uat_allocator.free_context_freed [OF A wf ops, of c] by (metis not_le)
    have "uat_abs u' = (\<lambda>(c', p). if c' = c then None else uat_abs u (c', p))"
      using uat_allocator.freed_leaf [OF A u'(2)] by (auto simp: fun_eq_iff uat_abs_def Let_def)
    with u' show ?thesis
      by (simp add: Call_Free uat_call_def uat_allocator.freed_def [OF A])
  qed
qed

interpretation uat: page_table uat_inv uat_abs uat_call agx_uat_lookup
proof
  fix s :: "'a agx_uat" and k c va
  assume "uat_inv s"
  then obtain I where I: "uat_allocator I (uat_ops s)" "uat_wf I s" by (auto simp: uat_inv_def)
  show "\<exists>r s'. uat_call k s = Some (r, s') \<and> uat_inv s' \<and> spec_step k (uat_abs s) r = Some (uat_abs s')"
    using uat_call_refines [OF I refl, of k] I(1) unfolding uat_inv_def by metis
  show "\<exists>p v. agx_uat_lookup s c va = Some (p, v) \<and> v = snd (spec_lookup (uat_abs s) c va) \<and>
      (v \<longrightarrow> p = fst (spec_lookup (uat_abs s) c va))"
    using lookup_leaf [OF I(2), of c va]
    by (auto simp: spec_lookup_def uat_abs_leaf not_le split: option.split)
qed

section \<open>Initialisation\<close>

definition no_mem :: uat_mem where
  "no_mem = \<lparr>mem_nodes = Map.empty, mem_arrays = Map.empty, mem_tables = Map.empty\<rparr>"

lemma nd_init:
  assumes "uat_mem u = no_mem"
  shows "nd (agx_uat_init u ops e l0) b = 0"
proof -
  let ?u = "agx_uat_init u ops e l0"
  have k: "kid (uat_mem ?u) p i = 0" for p i using assms by (simp add: kid_def no_mem_def agx_uat_init_def)
  have r: "root (uat_l1 ?u) c s = 0" for c s
    by (auto simp: root_def agx_uat_init_def nth_Cons' split: if_splits)
  show ?thesis by (cases "(?u, b)" rule: nd.cases) (simp_all add: k r)
qed

lemma init_wf:
  assumes "uat_mem u = no_mem" "length l0 = 128" "I e {} {}"
  shows "uat_wf I (agx_uat_init u ops e l0)" "uat_ops (agx_uat_init u ops e l0) = ops"
    "uat_abs (agx_uat_init u ops e l0) = Map.empty"
    "(\<forall>x \<in> set l0. x = 0) \<Longrightarrow> hw_ok (agx_uat_init u ops e l0)"
proof -
  let ?u = "agx_uat_init u ops e l0"
  have m: "uat_mem ?u = no_mem" using assms(1) by (simp add: agx_uat_init_def)
  note n = nd_init [OF assms(1), of ops e l0]
  have "separated no_mem" "live_objects no_mem = {}" "live_tables no_mem = {}"
    by (simp_all add: separated_def live_objects_def live_tables_def no_mem_def)
  moreover have "l1_shape ?u" using assms(2)
    by (simp add: l1_shape_def agx_uat_init_def AGX_UAT_CONTEXT_COUNT_def)
  moreover have "no_leak ?u" by (simp add: no_leak_def n m image_constant_conv) (simp add: no_mem_def)
  moreover have "tree_ok ?u" by (simp add: tree_ok_def n)
  ultimately show "uat_wf I ?u" using assms(3) by (simp add: uat_wf_def m) (simp add: agx_uat_init_def)
  show "uat_ops ?u = ops" by (simp add: agx_uat_init_def)
  have "uat_leaf ?u c va = 0" for c va
    by (simp add: uat_leaf_def entry_def ent_def m no_mem_def)
  then show "uat_abs ?u = Map.empty" by (simp add: uat_abs_def fun_eq_iff)
  show "hw_ok ?u" if "\<forall>x \<in> set l0. x = 0"
  proof -
    have "uat_l0 ?u ! (2 * c + s) = 0" if "c < 64" "s < 2" for c s :: nat
      using \<open>\<forall>x \<in> set l0. x = 0\<close> that assms(2)
      by (simp add: agx_uat_init_def)
    then show ?thesis by (simp add: hw_ok_def n del: nd.simps)
  qed
qed

text \<open>What every sequence of calls keeps, stated for a fixed allocator.\<close>

lemma run_wf:
  assumes A: "uat_allocator I ops"
  shows "uat_wf I u \<Longrightarrow> uat_ops u = ops \<Longrightarrow>
    \<exists>rs t. uat.run ks u = Some (rs, t) \<and> uat_wf I t \<and> uat_ops t = ops \<and> (hw_ok u \<longrightarrow> hw_ok t) \<and>
      spec_run ks (uat_abs u) rs = Some (uat_abs t)"
proof (induction ks arbitrary: u)
  case Nil
  then show ?case by simp
next
  case (Cons k ks)
  obtain r u' where 1: "uat_call k u = Some (r, u')" "uat_wf I u'" "uat_ops u' = ops"
    "hw_ok u \<longrightarrow> hw_ok u'" "spec_step k (uat_abs u) r = Some (uat_abs u')"
    using uat_call_refines [OF A Cons.prems, of k] by blast
  obtain rs t where 2: "uat.run ks u' = Some (rs, t)" "uat_wf I t" "uat_ops t = ops"
    "hw_ok u' \<longrightarrow> hw_ok t" "spec_run ks (uat_abs u') rs = Some (uat_abs t)"
    using Cons.IH [OF 1(2,3)] by blast
  show ?case
    by (intro exI [of _ "r # rs"] exI [of _ t]) (use 1(4) 2(4) in \<open>simp add: 1 2\<close>)
qed

section \<open>What the GPU sees\<close>

text \<open>The table walk the descriptor formats prescribe: \<open>ram pa k\<close> is the \<open>k\<close>-th word of the page
  at physical address \<open>pa\<close>. The GPU starts at the TTBR slot of its context and follows
  physical addresses only.\<close>

definition gpu_walk :: "(u64 \<Rightarrow> nat \<Rightarrow> u64) \<Rightarrow> u64 list \<Rightarrow> u32 \<Rightarrow> u64 \<Rightarrow> u64 option" where
  "gpu_walk ram l0 c va =
     (let t = l0 ! (2 * unat c + unat (agx_uat_ttbr_select va)) in
      if \<not> bit t 0 then None
      else let e1 = ram (ttbr_table t) (unat (agx_uat_l1_index va)) in
      if \<not> bit e1 0 then None
      else let e2 = ram (agx_uat_table_pte_addr e1) (unat (agx_uat_l2_index va)) in
      if \<not> bit e2 0 then None
      else let e3 = ram (agx_uat_table_pte_addr e2) (unat (agx_uat_l3_index va)) in
      if \<not> bit e3 0 then None else Some (agx_uat_pte_phys e3))"

definition ram_backs :: "(u64 \<Rightarrow> nat \<Rightarrow> u64) \<Rightarrow> uat_mem \<Rightarrow> bool" where
  "ram_backs ram m \<longleftrightarrow> (\<forall>p n t k. mem_nodes m p = Some n \<longrightarrow> mem_tables m (node_cpu n) = Some t \<longrightarrow>
     k < 2048 \<longrightarrow> ram (node_phys n) k = t ! k)"

definition phys_encodable :: "uat_mem \<Rightarrow> bool" where
  "phys_encodable m \<longleftrightarrow> (\<forall>(c, ph) \<in> live_tables m. uat_phys_ok ph \<and> ph \<noteq> 0)"

lemma ram_entry:
  assumes wf: "uat_wf I u" and ram: "ram_backs ram (uat_mem u)" and a: "nd u a \<noteq> 0" and k: "k < 2048"
  shows "ram (phys_at u a) k = entry u a k"
proof -
  obtain n t where "get_node u (nd u a) = Some n" "mem_tables (uat_mem u) (node_cpu n) = Some t"
    "length t = 2048" using wf a by (rule wf_node)
  with ram k show ?thesis
    by (simp add: ram_backs_def phys_at_def entry_def ent_def get_node_def)
qed

lemma phys_at_ok:
  assumes wf: "uat_wf I u" and ok: "phys_encodable (uat_mem u)" and a: "nd u a \<noteq> 0"
  shows "uat_phys_ok (phys_at u a)" "phys_at u a \<noteq> 0"
proof -
  obtain n where "get_node u (nd u a) = Some n" using wf a by (rule wf_node)
  then have "(node_cpu n, node_phys n) \<in> live_tables (uat_mem u)" "phys_at u a = node_phys n"
    by (auto simp: live_tables_def get_node_def phys_at_def intro: ranI)
  with ok show "uat_phys_ok (phys_at u a)" "phys_at u a \<noteq> 0" by (auto simp: phys_encodable_def)
qed

lemma gpu_walk_leaf:
  assumes wf: "uat_wf I u" and hw: "hw_ok u" and ram: "ram_backs ram (uat_mem u)"
    and ok: "phys_encodable (uat_mem u)" and c: "c < AGX_UAT_CONTEXT_COUNT"
  shows "gpu_walk ram (uat_l0 u) c va =
     (if bit (uat_leaf u c va) 0 then Some (agx_uat_pte_phys (uat_leaf u c va)) else None)"
proof -
  let ?s = "unat (agx_uat_ttbr_select va)" and ?i = "unat (agx_uat_l1_index va)"
    and ?j = "unat (agx_uat_l2_index va)" and ?k = "unat (agx_uat_l3_index va)" and ?c = "unat c"
  let ?a1 = "[?s, ?c]" and ?a2 = "[?i, ?s, ?c]" and ?a3 = "[?j, ?i, ?s, ?c]"
  note ix = index_bounds [of va] and null = kid_null [OF wf_sep [OF wf]]
  have le: "?i < 2048" using ix(1) by simp
  have tbl: "agx_uat_table_pte_addr (agx_uat_table_pte (phys_at u a)) = phys_at u a" if "nd u a \<noteq> 0" for a
    using phys_at_ok(1) [OF wf ok that] by (simp add: agx_uat_table_pte_addr_def uat_phys_ok_mask)
  have t: "uat_l0 u ! (2 * ?c + ?s) = (if nd u ?a1 = 0 then 0 else agx_uat_ttbr (phys_at u ?a1) c)"
    using hw c ix(4) by (simp add: hw_ok_def word_less_nat_alt del: nd.simps)
  have e: "entry u a i = (if nd u (i # a) = 0 then 0 else agx_uat_table_pte (phys_at u (i # a)))"
    if "nd u a \<noteq> 0" "length a < 4" for a i using hw that by (simp add: hw_ok_def)
  note ram' = ram_entry [OF wf ram]
  have lf: "uat_leaf u c va = entry u ?a3 ?k" by (simp add: uat_leaf_def uat_path_def)
  consider "nd u ?a1 = 0" | "nd u ?a1 \<noteq> 0" "nd u ?a2 = 0"
    | "nd u ?a1 \<noteq> 0" "nd u ?a2 \<noteq> 0" "nd u ?a3 = 0" | "nd u ?a1 \<noteq> 0" "nd u ?a2 \<noteq> 0" "nd u ?a3 \<noteq> 0"
    by blast
  then show ?thesis
  proof cases
    case 1
    then have "nd u ?a3 = 0" using null by simp
    with 1 t show ?thesis by (simp add: gpu_walk_def Let_def lf entry_null [OF wf] del: nd.simps)
  next
    case 2
    then have "nd u ?a3 = 0" using null by simp
    with 2 t e [of ?a1 ?i] le phys_at_ok [OF wf ok 2(1)] ram' [OF 2(1) le] show ?thesis
      by (simp add: gpu_walk_def Let_def lf entry_null [OF wf] ttbr_valid_iff ttbr_table_ttbr del: nd.simps)
  next
    case 3
    with t e [of ?a1 ?i] e [of ?a2 ?j] phys_at_ok [OF wf ok 3(1)] ram' [OF 3(1) le] ram' [OF 3(2) ix(2)]
    show ?thesis
      by (simp add: gpu_walk_def Let_def lf entry_null [OF wf] ttbr_valid_iff ttbr_table_ttbr tbl
          table_pte_valid del: nd.simps)
  next
    case 4
    with t e [of ?a1 ?i] e [of ?a2 ?j] phys_at_ok [OF wf ok 4(1)] ram' [OF 4(1) le] ram' [OF 4(2) ix(2)]
      ram' [OF 4(3) ix(3)]
    show ?thesis
      by (simp add: gpu_walk_def Let_def lf ttbr_valid_iff ttbr_table_ttbr tbl table_pte_valid
          del: nd.simps)
  qed
qed

end
