(* ===== verification/Uat_Budget.thy ===== *)
theory Uat_Budget
  imports Uat_Map
begin

text \<open>
  When mapping succeeds. The contract of \<open>uat_allocator\<close> lets every allocation fail; here
  the allocator also promises that it serves \<open>budget e\<close> more requests. A map call makes at
  most nine requests (a node, a table page and a child array at each of three levels), so
  with nine in hand it returns 0.
\<close>

lemma counts_nonzero [simp]:
  "AGX_UAT_L1_COUNT \<noteq> 0" "AGX_UAT_L2_COUNT \<noteq> 0" "AGX_UAT_L3_COUNT \<noteq> 0"
  by (simp_all add: uat_geometry_defs)

lemma store_ctx:
  "write_array u a i v = Some u' \<Longrightarrow> uat_ctx u' = uat_ctx u"
  "store_rel u a i w = Some u' \<Longrightarrow> uat_ctx u' = uat_ctx u"
  "write_l1 u c s v = Some u' \<Longrightarrow> uat_ctx u' = uat_ctx u"
  "agx_uat_l0_write u c s w d = Some u' \<Longrightarrow> uat_ctx u' = uat_ctx u"
  by (auto simp: write_array_def store_rel_def write_l1_def agx_uat_l0_write_def Let_def
      split: option.splits if_splits)

locale uat_allocator_budget = uat_allocator +
  fixes budget :: "'a \<Rightarrow> nat"
  assumes bookkeeping_serves:
      "ainv e B T \<Longrightarrow> 0 < budget e \<Longrightarrow> alloc_bookkeeping ops e n = ((p, ws), e') \<Longrightarrow>
         p \<noteq> 0 \<and> budget e \<le> budget e' + 1"
    and table_serves:
      "ainv e B T \<Longrightarrow> 0 < budget e \<Longrightarrow> alloc_table ops e = ((r, c, ph, pg), e') \<Longrightarrow>
         r = 0 \<and> budget e \<le> budget e' + 1"
begin

lemma new_node_serves:
  assumes I: "ainv (uat_ctx u) B T" and ops: "uat_ops u = ops" and cnt: "cnt \<noteq> 0"
    and b: "3 \<le> budget (uat_ctx u)" and r: "agx_uat_new_node u cnt = (q, u1)"
  shows "q \<noteq> 0" "budget (uat_ctx u) \<le> budget (uat_ctx u1) + 3"
proof -
  obtain p ws e1 where a1: "alloc_bookkeeping ops (uat_ctx u) sizeof_agx_uat_node = ((p, ws), e1)"
    by (metis prod.collapse)
  then have p: "p \<noteq> 0" "budget (uat_ctx u) \<le> budget e1 + 1" "ainv e1 (insert p B) T"
    using bookkeeping_serves [OF I _ a1] bookkeeping_fresh [OF I a1] b by auto
  obtain r' cpu ph pg e2 where a2: "alloc_table ops e1 = ((r', cpu, ph, pg), e2)"
    by (metis prod.collapse)
  then have t: "r' = 0" "budget e1 \<le> budget e2 + 1" using table_serves [OF p(3) _ a2] p(2) b by auto
  then have I2: "ainv e2 (insert p B) (insert (cpu, ph) T)" using table_fresh [OF p(3)] a2 by simp
  obtain ch ws' e3 where a3: "alloc_bookkeeping ops e2 (sizeof_ptr * unat cnt) = ((ch, ws'), e3)"
    by (metis prod.collapse)
  then have "ch \<noteq> 0" "budget e2 \<le> budget e3 + 1"
    using bookkeeping_serves [OF I2 _ a3] p(2) t(2) b by auto
  with a1 a2 a3 p t ops cnt r show "q \<noteq> 0" "budget (uat_ctx u) \<le> budget (uat_ctx u1) + 3"
    by (auto simp: agx_uat_new_node_def Let_def)
qed

lemma wf_ainv: "uat_wf ainv u \<Longrightarrow> ainv (uat_ctx u) (live_objects (uat_mem u)) (live_tables (uat_mem u))"
  by (simp add: uat_wf_def)

lemma l1_serves:
  assumes wf: "uat_wf ainv u" and ops: "uat_ops u = ops" and b: "3 \<le> budget (uat_ctx u)"
    and r: "agx_uat_l1 u ctx_id sel True asid = Some (q, u')"
  shows "q \<noteq> 0 \<and> budget (uat_ctx u) \<le> budget (uat_ctx u') + 3"
proof (cases "\<exists>p. read_l1 u ctx_id sel = Some p \<and> p \<noteq> 0")
  case True
  with r show ?thesis by (auto simp: agx_uat_l1_def)
next
  case False
  obtain p v where nn: "agx_uat_new_node u AGX_UAT_L1_COUNT = (p, v)" by (metis prod.collapse)
  have "p \<noteq> 0" "budget (uat_ctx u) \<le> budget (uat_ctx v) + 3"
    using new_node_serves [OF wf_ainv [OF wf] ops _ b nn] by simp_all
  with False r nn show ?thesis
    by (auto simp: agx_uat_l1_def bind_eq_Some_conv dest!: store_ctx split: if_splits)
qed

lemma child_serves:
  assumes wf: "uat_wf ainv u" and ops: "uat_ops u = ops" and b: "3 \<le> budget (uat_ctx u)"
    and cnt: "cnt \<noteq> 0" and r: "agx_uat_child u parent idx cnt True = Some (q, u')"
  shows "q \<noteq> 0 \<and> budget (uat_ctx u) \<le> budget (uat_ctx u') + 3"
proof -
  obtain np c where np: "get_node u parent = Some np" "read_array u (node_children np) (unat idx) = Some c"
    using r by (auto simp: agx_uat_child_def bind_eq_Some_conv)
  obtain p v where nn: "agx_uat_new_node u cnt = (p, v)" by (metis prod.collapse)
  have "p \<noteq> 0" "budget (uat_ctx u) \<le> budget (uat_ctx v) + 3"
    using new_node_serves [OF wf_ainv [OF wf] ops cnt b nn] by simp_all
  with r np nn show ?thesis
    by (auto simp: agx_uat_child_def bind_eq_Some_conv dest!: store_ctx split: if_splits)
qed

lemma map_serves:
  assumes wf: "uat_wf ainv u" and ops: "uat_ops u = ops" and b: "9 \<le> budget (uat_ctx u)"
    and ok: "\<not> map_rejects c iova phys"
  shows "\<exists>u'. agx_uat_map_page u c iova phys flags = Some (0, u')"
proof -
  let ?sel = "agx_uat_ttbr_select iova" and ?i1 = "agx_uat_l1_index iova"
    and ?i2 = "agx_uat_l2_index iova"
  let ?a1 = "[unat ?sel, unat c]"
  note ix = index_bounds [of iova]
  have c: "c < AGX_UAT_CONTEXT_COUNT" using ok by (auto simp: map_rejects_def not_le)
  obtain r u' where m: "agx_uat_map_page u c iova phys flags = Some (r, u')"
    using map_leaf [OF wf ops] by blast
  obtain q1 u1 where r1: "agx_uat_l1 u c ?sel True c = Some (q1, u1)" and g1: "grown ainv u u1 ?a1 q1"
    using wf ops c ix(4) by (rule l1_create)
  have s1: "q1 \<noteq> 0" "6 \<le> budget (uat_ctx u1)" using l1_serves [OF wf ops _ r1] b by auto
  have w1: "uat_wf ainv u1" "uat_ops u1 = ops" "nd u1 ?a1 = q1"
    using g1 ops by (simp_all add: grown_def del: nd.simps)
  obtain q2 u2 where r2: "agx_uat_child u1 q1 ?i1 AGX_UAT_L2_COUNT True = Some (q2, u2)"
    and g2: "grown ainv u1 u2 (unat ?i1 # ?a1) q2"
    using child_create [of u1 ?a1 ?i1] w1 s1(1) ix(1) by (auto simp del: nd.simps)
  have s2: "q2 \<noteq> 0" "3 \<le> budget (uat_ctx u2)"
    using child_serves [OF w1(1,2) _ _ r2] s1 by auto
  have w2: "uat_wf ainv u2" "uat_ops u2 = ops" "nd u2 (unat ?i1 # ?a1) = q2"
    using g2 w1 by (simp_all add: grown_def del: nd.simps)
  obtain q3 u3 where r3: "agx_uat_child u2 q2 ?i2 AGX_UAT_L3_COUNT True = Some (q3, u3)"
    and "grown ainv u2 u3 (unat ?i2 # unat ?i1 # ?a1) q3"
    using child_create [of u2 "unat ?i1 # ?a1" ?i2] w2 s2 ix(2) by (auto simp del: nd.simps)
  have "q3 \<noteq> 0" using child_serves [OF w2(1,2) s2(2) _ r3] by simp
  with m r1 r2 r3 s1 s2 ok show ?thesis
    by (auto simp: agx_uat_map_page_def map_rejects_def bind_eq_Some_conv)
qed

end

end
