(* ===== verification/Uat_Theorems.thy ===== *)
theory Uat_Theorems
  imports Uat_Spec Uat_Budget
begin

text \<open>
  The theorems about the UAT walker, and an allocator that meets the contract. The arena is
  the one of \<^verbatim>\<open>tests/uat_test.cpp\<close>, with two differences: its pages are 16 KB aligned, as
  the descriptors require, and it can run out of memory.
\<close>

section \<open>An arena allocator\<close>

record arena =
  ar_next :: nat
  ar_limit :: nat
  ar_tables :: "(ptr \<times> u64) list"
  ar_objects :: "ptr list"

definition arena_addr :: "nat \<Rightarrow> u64" where
  "arena_addr k = word_of_nat (k * 16384)"

definition arena_alloc_table :: "arena \<Rightarrow> (int \<times> ptr \<times> u64 \<times> u64 list) \<times> arena" where
  "arena_alloc_table a =
     (if ar_next a < ar_limit a
      then let p = arena_addr (ar_next a)
           in ((0, p, p, replicate 2048 0),
               a\<lparr>ar_next := ar_next a + 1, ar_tables := (p, p) # ar_tables a\<rparr>)
      else ((AGX_ENOMEM, 0, 0, []), a))"

definition arena_free_table :: "arena \<Rightarrow> ptr \<Rightarrow> u64 \<Rightarrow> arena" where
  "arena_free_table a c ph = a\<lparr>ar_tables := filter (\<lambda>t. t \<noteq> (c, ph)) (ar_tables a)\<rparr>"

definition arena_alloc_bookkeeping :: "arena \<Rightarrow> nat \<Rightarrow> (ptr \<times> ptr list) \<times> arena" where
  "arena_alloc_bookkeeping a n =
     (if ar_next a < ar_limit a
      then let p = arena_addr (ar_next a)
           in ((p, replicate (n div 8) 0),
               a\<lparr>ar_next := ar_next a + 1, ar_objects := p # ar_objects a\<rparr>)
      else ((0, []), a))"

definition arena_free_bookkeeping :: "arena \<Rightarrow> ptr \<Rightarrow> nat \<Rightarrow> arena" where
  "arena_free_bookkeeping a p n = a\<lparr>ar_objects := filter (\<lambda>q. q \<noteq> p) (ar_objects a)\<rparr>"

definition arena_ops :: "arena agx_uat_ops" where
  "arena_ops = \<lparr>alloc_table = arena_alloc_table, free_table = arena_free_table,
     alloc_bookkeeping = arena_alloc_bookkeeping, free_bookkeeping = arena_free_bookkeeping\<rparr>"

definition arena_inv :: "arena \<Rightarrow> ptr set \<Rightarrow> (ptr \<times> u64) set \<Rightarrow> bool" where
  "arena_inv a B T \<longleftrightarrow> 0 < ar_next a \<and> ar_limit a \<le> 2 ^ 34 \<and>
     B = set (ar_objects a) \<and> T = set (ar_tables a) \<and>
     (\<forall>p \<in> B. \<exists>k. k < ar_next a \<and> k < 2 ^ 34 \<and> p = arena_addr k) \<and>
     (\<forall>t \<in> T. \<exists>k. 0 < k \<and> k < ar_next a \<and> k < 2 ^ 34 \<and> t = (arena_addr k, arena_addr k))"

definition arena_new :: "nat \<Rightarrow> arena" where
  "arena_new lim = \<lparr>ar_next = 1, ar_limit = lim, ar_tables = [], ar_objects = []\<rparr>"

lemma arena_addr_unat: "k < 2 ^ 34 \<Longrightarrow> unat (arena_addr k) = k * 16384"
  by (simp only: arena_addr_def unsigned_of_nat) (simp add: take_bit_nat_eq_self)

lemma arena_addr_inj: "j < 2 ^ 34 \<Longrightarrow> k < 2 ^ 34 \<Longrightarrow> arena_addr j = arena_addr k \<longleftrightarrow> j = k"
  by (metis arena_addr_unat mult_right_cancel zero_neq_numeral)

lemma arena_addr_phys_ok: "0 < k \<Longrightarrow> k < 2 ^ 34 \<Longrightarrow> uat_phys_ok (arena_addr k) \<and> arena_addr k \<noteq> 0"
proof -
  assume k: "0 < k" "k < 2 ^ 34"
  have "arena_addr k = push_bit 14 (word_of_nat k)"
    by (simp add: arena_addr_def push_bit_eq_mult)
  then have "agx_uat_page_offset (arena_addr k) = 0"
    by (auto simp: page_offset_zero_bit bit_push_bit_iff)
  moreover have "arena_addr k < 2 ^ 48"
    using k(2) by (simp add: word_less_nat_alt arena_addr_unat)
  moreover have "arena_addr k \<noteq> 0" using k arena_addr_unat [of k] by force
  ultimately show ?thesis by (simp add: uat_phys_ok_iff)
qed

lemma arena_inv_mono:
  assumes "arena_inv a B T" "ar_next a < ar_limit a"
  shows "arena_addr (ar_next a) \<notin> B" "arena_addr (ar_next a) \<notin> fst ` T"
    "arena_addr (ar_next a) \<notin> snd ` T" "arena_addr (ar_next a) \<noteq> 0"
proof -
  have n: "0 < ar_next a" "ar_next a < 2 ^ 34" using assms by (auto simp: arena_inv_def)
  have "arena_addr k \<noteq> arena_addr (ar_next a)" if "k < ar_next a" for k
    using arena_addr_inj [of k "ar_next a"] that n by simp
  then show "arena_addr (ar_next a) \<notin> B" "arena_addr (ar_next a) \<notin> fst ` T"
    "arena_addr (ar_next a) \<notin> snd ` T"
    using assms(1) unfolding arena_inv_def by force+
  show "arena_addr (ar_next a) \<noteq> 0" using arena_addr_phys_ok [OF n] by simp
qed

interpretation arena: uat_allocator arena_inv arena_ops
proof
  fix e B T n ws e'
  assume I: "arena_inv e B T" and r: "alloc_bookkeeping arena_ops e n = ((0, ws), e')"
  have "\<not> ar_next e < ar_limit e"
    using r arena_inv_mono(4) [OF I] by (auto simp: arena_ops_def arena_alloc_bookkeeping_def Let_def)
  with I r show "arena_inv e' B T" by (simp add: arena_ops_def arena_alloc_bookkeeping_def)
next
  fix e B T n p ws e'
  assume I: "arena_inv e B T" and r: "alloc_bookkeeping arena_ops e n = ((p, ws), e')" "p \<noteq> 0"
  then have lt: "ar_next e < ar_limit e"
    and e: "p = arena_addr (ar_next e)" "ws = replicate (n div 8) 0"
      "e' = e\<lparr>ar_next := ar_next e + 1, ar_objects := p # ar_objects e\<rparr>"
    by (auto simp: arena_ops_def arena_alloc_bookkeeping_def Let_def split: if_splits)
  have "arena_inv e' (insert p B) T"
    using I lt unfolding arena_inv_def e by (auto simp: less_Suc_eq)
  with arena_inv_mono [OF I lt] e show "p \<notin> B \<and> ws = replicate (n div 8) 0 \<and> arena_inv e' (insert p B) T"
    by simp
next
  fix e B T r c ph pg e'
  assume "arena_inv e B T" "alloc_table arena_ops e = ((r, c, ph, pg), e')" "r \<noteq> 0"
  then show "arena_inv e' B T"
    by (auto simp: arena_ops_def arena_alloc_table_def Let_def split: if_splits)
next
  fix e B T c ph pg e'
  assume I: "arena_inv e B T" and r: "alloc_table arena_ops e = ((0, c, ph, pg), e')"
  then have lt: "ar_next e < ar_limit e"
    and e: "c = arena_addr (ar_next e)" "ph = c" "pg = replicate 2048 0"
      "e' = e\<lparr>ar_next := ar_next e + 1, ar_tables := (c, c) # ar_tables e\<rparr>"
    by (auto simp: arena_ops_def arena_alloc_table_def Let_def AGX_ENOMEM_def split: if_splits)
  have "arena_inv e' B (insert (c, ph) T)"
    using I lt unfolding arena_inv_def e by (auto simp: less_Suc_eq)
  with arena_inv_mono [OF I lt] e
  show "c \<notin> fst ` T \<and> ph \<notin> snd ` T \<and> pg = replicate 2048 0 \<and> arena_inv e' B (insert (c, ph) T)"
    by simp
next
  fix e B T p n
  assume "arena_inv e B T" "p \<in> B"
  then show "arena_inv (free_bookkeeping arena_ops e p n) (B - {p}) T"
    by (auto simp: arena_inv_def arena_ops_def arena_free_bookkeeping_def)
next
  fix e B T c ph
  assume "arena_inv e B T" "(c, ph) \<in> T"
  then show "arena_inv (free_table arena_ops e c ph) B (T - {(c, ph)})"
    by (auto simp: arena_inv_def arena_ops_def arena_free_table_def)
qed

interpretation arena: uat_allocator_budget arena_inv arena_ops "\<lambda>a. ar_limit a - ar_next a"
proof
  fix e B T n p ws e'
  assume "arena_inv e B T" "0 < ar_limit e - ar_next e" "alloc_bookkeeping arena_ops e n = ((p, ws), e')"
  then show "p \<noteq> 0 \<and> ar_limit e - ar_next e \<le> ar_limit e' - ar_next e' + 1"
    using arena_inv_mono(4) [of e B T]
    by (auto simp: arena_ops_def arena_alloc_bookkeeping_def Let_def split: if_splits)
next
  fix e B T r c ph pg e'
  assume "arena_inv e B T" "0 < ar_limit e - ar_next e" "alloc_table arena_ops e = ((r, c, ph, pg), e')"
  then show "r = 0 \<and> ar_limit e - ar_next e \<le> ar_limit e' - ar_next e' + 1"
    by (auto simp: arena_ops_def arena_alloc_table_def Let_def split: if_splits)
qed

lemma arena_new_inv: "lim \<le> 2 ^ 34 \<Longrightarrow> arena_inv (arena_new lim) {} {}"
  by (simp add: arena_inv_def arena_new_def)

text \<open>A fresh walker over the arena, and a session with it that the witnesses use.\<close>

definition arena_uat :: "nat \<Rightarrow> arena agx_uat" where
  "arena_uat lim = agx_uat_init
     \<lparr>uat_ops = arena_ops, uat_ctx = arena_new 0, uat_l0 = [], uat_l1 = [], uat_mem = no_mem,
      uat_trace = []\<rparr> arena_ops (arena_new lim) (replicate 128 0)"

lemma arena_uat_ok:
  assumes "lim \<le> 2 ^ 34"
  shows "uat_wf arena_inv (arena_uat lim)" "uat_ops (arena_uat lim) = arena_ops"
    "hw_ok (arena_uat lim)"
  unfolding arena_uat_def using assms
  by (intro init_wf(1,2,4) arena_new_inv; simp)+

lemma uat_wf_inv: "uat_allocator I (uat_ops u) \<Longrightarrow> uat_wf I u \<Longrightarrow> uat_inv u"
  by (auto simp: uat_inv_def)

section \<open>Properties\<close>

text \<open>C1. Refinement. Start from \<^verbatim>\<open>agx_uat_init\<close> with any allocator that keeps its contract and make
  any sequence of map, unmap and free-context calls. No call touches memory that is not
  there, the returned statuses are ones the abstract page map permits, and in the final
  state \<^verbatim>\<open>agx_uat_lookup\<close> agrees with that map for every context and every address.\<close>

theorem uat_refines_page_map:
  assumes "uat_allocator I ops" "I e {} {}" "uat_mem u = no_mem" "length l0 = 128"
  shows "\<exists>rs t m. uat.run calls (agx_uat_init u ops e l0) = Some (rs, t) \<and> uat_wf I t \<and>
     spec_run calls Map.empty rs = Some m \<and>
     (\<forall>c va. \<exists>p v. agx_uat_lookup t c va = Some (p, v) \<and> v = snd (spec_lookup m c va) \<and>
        (v \<longrightarrow> p = fst (spec_lookup m c va)))"
proof -
  note init = init_wf [where I = I and ops = ops, OF assms(3,4,2)]
  obtain rs t where r: "uat.run calls (agx_uat_init u ops e l0) = Some (rs, t)" "uat_wf I t"
    "uat_ops t = ops" "spec_run calls Map.empty rs = Some (uat_abs t)"
    using run_wf [OF assms(1) init(1,2)] init(3) by metis
  have "uat_inv t" using uat_wf_inv [of I t] assms(1) r(2,3) by simp
  with r uat.lookup_law [of t] show ?thesis by blast
qed

theorem uat_refines_page_map_witness:
  "\<exists>rs t m. uat.run [Call_Map 3 0x4000 0x8000 0, Call_Map 3 0x4001 0 0, Call_Unmap 3 0x4000]
       (agx_uat_init (arena_uat 0) arena_ops (arena_new 100) (replicate 128 0)) = Some (rs, t) \<and>
     uat_wf arena_inv t \<and>
     spec_run [Call_Map 3 0x4000 0x8000 0, Call_Map 3 0x4001 0 0, Call_Unmap 3 0x4000] Map.empty rs = Some m \<and>
     (\<forall>c va. \<exists>p v. agx_uat_lookup t c va = Some (p, v) \<and> v = snd (spec_lookup m c va) \<and>
        (v \<longrightarrow> p = fst (spec_lookup m c va)))"
proof (rule uat_refines_page_map [OF arena.uat_allocator_axioms])
  show "arena_inv (arena_new 100) {} {}" by (rule arena_new_inv) simp
  show "uat_mem (arena_uat 0) = no_mem" by (simp add: arena_uat_def agx_uat_init_def)
qed simp

text \<open>C6. Mapping. On a well-formed walker \<^verbatim>\<open>agx_uat_map_page\<close> never faults. A request with a bad
  context, an unaligned address or an address past the 43 bit limit returns
  \<^verbatim>\<open>AGX_EINVAL\<close> and changes nothing at all. Otherwise it returns 0 and exactly the one
  leaf descriptor that serves the address becomes the requested one, forced valid, or it
  returns \<^verbatim>\<open>AGX_ENOMEM\<close> and no translation of any context changes. The invariants are kept
  in every case.\<close>

theorem map_page_correct:
  assumes "uat_allocator I (uat_ops u)" "uat_wf I u"
  shows "\<exists>r u'. agx_uat_map_page u c iova phys flags = Some (r, u') \<and> uat_wf I u' \<and>
     (hw_ok u \<longrightarrow> hw_ok u') \<and>
     (if AGX_UAT_CONTEXT_COUNT \<le> c \<or> agx_uat_page_offset iova \<noteq> 0 \<or> agx_uat_page_offset phys \<noteq> 0 \<or>
         AGX_UAT_VA_LIMIT \<le> iova
      then r = AGX_EINVAL \<and> u' = u
      else r = 0 \<and> (\<forall>c' va. uat_leaf u' c' va =
              (if c' = c \<and> uat_indices va = uat_indices iova
               then agx_uat_pte phys (flags OR AGX_UAT_PTE_VALID) else uat_leaf u c' va)) \<or>
           r = AGX_ENOMEM \<and> uat_leaf u' = uat_leaf u)"
proof -
  obtain r u' where r: "agx_uat_map_page u c iova phys flags = Some (r, u')"
    "if map_rejects c iova phys then r = AGX_EINVAL \<and> u' = u
     else r = 0 \<and> updated I u u' c iova (agx_uat_pte phys (flags OR AGX_UAT_PTE_VALID)) \<or>
          r = AGX_ENOMEM \<and> kept I u u'"
    using uat_allocator.map_leaf [OF assms refl] .
  show ?thesis
  proof (intro exI conjI)
    show "agx_uat_map_page u c iova phys flags = Some (r, u')" by (rule r(1))
  qed (use r(2) assms(2) in \<open>auto simp: map_rejects_def updated_def kept_def split: if_splits\<close>)
qed

theorem map_page_correct_witness:
  "\<exists>r u'. agx_uat_map_page (arena_uat 100) 3 0x4000 0x8000 0 = Some (r, u') \<and> uat_wf arena_inv u' \<and>
     (r = 0 \<and> uat_leaf u' 3 0x4000 = 0x8001 \<or> r = AGX_ENOMEM \<and> uat_leaf u' = uat_leaf (arena_uat 100))"
proof -
  have "\<not> AGX_UAT_CONTEXT_COUNT \<le> 3 \<and> agx_uat_page_offset 0x4000 = 0 \<and> agx_uat_page_offset 0x8000 = 0 \<and>
      \<not> AGX_UAT_VA_LIMIT \<le> 0x4000" "agx_uat_pte 0x8000 (0 OR AGX_UAT_PTE_VALID) = 0x8001"
    by code_simp+
  with map_page_correct [of arena_inv "arena_uat 100" 3 "0x4000" "0x8000" 0]
    arena_uat_ok [of 100] arena.uat_allocator_axioms show ?thesis by auto
qed

text \<open>C21. Success and read-back. If the allocator still serves nine requests, a well-formed map request
  returns 0, and afterwards a lookup of any address in that page, in the same context,
  reports it mapped to the requested physical page.\<close>

theorem map_then_lookup:
  assumes "uat_allocator_budget I ops budget" "uat_wf I u" "uat_ops u = ops"
    and "9 \<le> budget (uat_ctx u)" "c < AGX_UAT_CONTEXT_COUNT" "iova < AGX_UAT_VA_LIMIT"
    and "agx_uat_page_offset iova = 0" "agx_uat_page_offset phys = 0" "phys < 2 ^ 48"
    and "va < AGX_UAT_VA_LIMIT" "page_of va = page_of iova"
  shows "\<exists>u'. agx_uat_map_page u c iova phys flags = Some (0, u') \<and>
     agx_uat_lookup u' c va = Some (phys, True)"
proof -
  have A: "uat_allocator I ops" using assms(1) by (rule uat_allocator_budget.axioms(1))
  have ok: "\<not> map_rejects c iova phys" using assms by (simp add: map_rejects_def not_le)
  obtain u' where m: "agx_uat_map_page u c iova phys flags = Some (0, u')"
    using uat_allocator_budget.map_serves [OF assms(1-4) ok] by blast
  obtain r v where r: "uat_call (Call_Map c iova phys flags) u = Some (r, v)" "uat_wf I v"
    "spec_step (Call_Map c iova phys flags) (uat_abs u) r = Some (uat_abs v)"
    using uat_call_refines [OF A assms(2,3)] by metis
  then have v: "v = u'" "uat_wf I u'"
    "uat_abs u' = (uat_abs u)((c, page_of iova) \<mapsto> agx_uat_pte phys (flags OR AGX_UAT_PTE_VALID))"
    using m ok by (auto simp: uat_call_def)
  have "bit (uat_leaf u' c va) 0 \<and> uat_leaf u' c va = agx_uat_pte phys (flags OR AGX_UAT_PTE_VALID)"
    using uat_abs_leaf [OF assms(5,10), of u'] v(3) assms(11) by (simp split: if_splits)
  moreover have "uat_phys_ok phys" using assms(8,9) by (simp add: uat_phys_ok_iff)
  ultimately show ?thesis
    using m lookup_leaf [OF v(2), of c va] assms(5,10) by (simp add: not_le [symmetric] uat_phys_ok_mask pte_valid_forced)
qed

theorem map_then_lookup_witness:
  "\<exists>u'. agx_uat_map_page (arena_uat 100) 3 0x4000 0x8000 0 = Some (0, u') \<and>
     agx_uat_lookup u' 3 0x4123 = Some (0x8000, True)"
proof (rule map_then_lookup [OF arena.uat_allocator_budget_axioms arena_uat_ok(1,2)])
  show "9 \<le> ar_limit (uat_ctx (arena_uat 100)) - ar_next (uat_ctx (arena_uat 100))"
    by (simp add: arena_uat_def agx_uat_init_def arena_new_def)
  show "3 < AGX_UAT_CONTEXT_COUNT" "0x4000 < AGX_UAT_VA_LIMIT" "agx_uat_page_offset 0x4000 = 0"
    "agx_uat_page_offset 0x8000 = 0" "0x4123 < AGX_UAT_VA_LIMIT" "page_of 0x4123 = page_of 0x4000"
    by code_simp+
qed simp_all

text \<open>C19. Unmapping. \<^verbatim>\<open>agx_uat_unmap_page\<close> never faults on a well-formed walker. It returns
  \<^verbatim>\<open>AGX_EINVAL\<close> for a bad context or address, \<^verbatim>\<open>AGX_ENODATA\<close> when the page is not mapped,
  both without any change, and otherwise 0 with exactly that one descriptor cleared.\<close>

theorem unmap_page_correct:
  assumes "uat_wf I u"
  shows "\<exists>r u'. agx_uat_unmap_page u c iova = Some (r, u') \<and> uat_wf I u' \<and> (hw_ok u \<longrightarrow> hw_ok u') \<and>
     (if AGX_UAT_CONTEXT_COUNT \<le> c \<or> AGX_UAT_VA_LIMIT \<le> iova then r = AGX_EINVAL \<and> u' = u
      else if \<not> snd (the (agx_uat_lookup u c iova)) then r = AGX_ENODATA \<and> u' = u
      else r = 0 \<and> (\<forall>c' va. uat_leaf u' c' va =
              (if c' = c \<and> uat_indices va = uat_indices iova then 0 else uat_leaf u c' va)))"
proof -
  obtain r u' where r: "agx_uat_unmap_page u c iova = Some (r, u')"
    "if AGX_UAT_CONTEXT_COUNT \<le> c \<or> AGX_UAT_VA_LIMIT \<le> iova then r = AGX_EINVAL \<and> u' = u
     else if bit (uat_leaf u c iova) 0 then r = 0 \<and> updated I u u' c iova 0
     else r = AGX_ENODATA \<and> u' = u"
    using unmap_leaf [OF assms] .
  show ?thesis
  proof (intro exI conjI)
    show "agx_uat_unmap_page u c iova = Some (r, u')" by (rule r(1))
  qed (use r(2) assms in \<open>auto simp: lookup_leaf [OF assms] updated_def split: if_splits\<close>)
qed

theorem unmap_page_correct_witness:
  "\<exists>r u'. agx_uat_unmap_page (arena_uat 100) 3 0x4000 = Some (r, u') \<and> uat_wf arena_inv u'"
  using unmap_page_correct [OF arena_uat_ok(1) [of 100], of 3 "0x4000"] by auto

lemma freed_nd:
  assumes A: "uat_allocator I ops" and wf: "uat_wf I u" and f: "uat_allocator.freed I ops c u u'"
  shows "nd u' b = (if last b = c then 0 else nd u b)"
proof (cases "nd u b = 0")
  case True
  then show ?thesis using f by (simp add: uat_allocator.freed_def [OF A])
next
  case False
  obtain xs s d where "b = xs @ [s, d]" "s < 2" using wf False by (rule root_path)
  then have "b \<in> Sub [0, c] \<union> Sub [1, c] \<longleftrightarrow> last b = c"
    by (auto simp: Sub_def less_2_cases_iff)
  with f show ?thesis by (simp add: uat_allocator.freed_def [OF A])
qed

text \<open>C20. Teardown. \<^verbatim>\<open>agx_uat_free_context\<close> terminates without touching freed memory, within three
  levels of recursion. Afterwards no node of the context is left: the live nodes are
  exactly those reachable from the other contexts, the allocator agrees, every address of
  the context is unmapped and every translation of the other contexts is as before.\<close>

theorem free_context_correct:
  assumes "uat_allocator I (uat_ops u)" "uat_wf I u" "c < AGX_UAT_CONTEXT_COUNT"
  shows "\<exists>u'. agx_uat_free_context u c = Some u' \<and> uat_wf I u' \<and> (hw_ok u \<longrightarrow> hw_ok u') \<and>
     dom (mem_nodes (uat_mem u')) = {nd u b | b. nd u b \<noteq> 0 \<and> last b \<noteq> unat c} \<and>
     (\<forall>c' va. uat_leaf u' c' va = (if c' = c then 0 else uat_leaf u c' va))"
proof -
  obtain u' where u': "agx_uat_free_context u c = Some u'"
    "uat_allocator.freed I (uat_ops u) (unat c) u u'"
    using uat_allocator.free_context_freed [OF assms(1,2) refl assms(3)] by blast
  note f = u'(2) [unfolded uat_allocator.freed_def [OF assms(1)]]
  note nd' = freed_nd [OF assms(1,2) u'(2)]
  have "dom (mem_nodes (uat_mem u')) = range (nd u') - {0}"
    using f by (simp add: uat_wf_def no_leak_def)
  also have "\<dots> = {nd u b | b. nd u b \<noteq> 0 \<and> last b \<noteq> unat c}"
    unfolding nd' by (auto split: if_splits)
  finally show ?thesis
    using u'(1) f uat_allocator.freed_leaf [OF assms(1) u'(2)] by auto
qed

theorem free_context_correct_witness:
  "\<exists>u'. agx_uat_free_context (arena_uat 100) 3 = Some u' \<and> uat_wf arena_inv u'"
proof -
  have "3 < AGX_UAT_CONTEXT_COUNT" by code_simp
  with free_context_correct [of arena_inv "arena_uat 100" 3] arena_uat_ok [of 100]
    arena.uat_allocator_axioms show ?thesis by auto
qed

text \<open>C10. No leaks. Whatever a session did, freeing all 64 contexts, as the teardown of
  \<^verbatim>\<open>tests/uat_test.cpp\<close> does, returns every bookkeeping object and every table page: the allocator is left with no
  live object.\<close>

theorem free_all_contexts_no_leak:
  assumes "uat_allocator I (uat_ops u)" "uat_wf I u"
  shows "\<exists>t. foldO (\<lambda>i uat. agx_uat_free_context uat (word_of_nat i)) [0..<64] u = Some t \<and>
     I (uat_ctx t) {} {} \<and> uat_mem t = no_mem"
proof -
  let ?P = "\<lambda>i t. uat_wf I t \<and> uat_ops t = uat_ops u \<and> (\<forall>b. nd t b \<noteq> 0 \<longrightarrow> i \<le> last b)"
  have "\<exists>t. foldO (\<lambda>i uat. agx_uat_free_context uat (word_of_nat i)) [0..<64] u = Some t \<and> ?P 64 t"
  proof (rule foldO_upt_rule)
    show "?P 0 u" using assms(2) by simp
  next
    fix i :: nat and t assume i: "i < 64" and t: "?P i t"
    have c: "unat (word_of_nat i :: u32) = i" "(word_of_nat i :: u32) < AGX_UAT_CONTEXT_COUNT"
      using i by (simp_all add: unat_of_nat word_less_nat_alt take_bit_nat_eq_self)
    have wf: "uat_wf I t" "uat_ops t = uat_ops u" using t by simp_all
    obtain t' where t': "agx_uat_free_context t (word_of_nat i) = Some t'"
      "uat_allocator.freed I (uat_ops u) i t t'"
      using uat_allocator.free_context_freed [OF assms(1) wf c(2)] c(1) by metis
    have "?P (Suc i) t'"
      using t freed_nd [OF assms(1) wf(1) t'(2)] t'(2)
      by (auto simp: uat_allocator.freed_def [OF assms(1)] Suc_le_eq le_neq_implies_less split: if_splits)
    with t'(1) show "\<exists>t'. agx_uat_free_context t (word_of_nat i) = Some t' \<and> ?P (Suc i) t'" by blast
  qed
  then obtain t where t: "foldO (\<lambda>i uat. agx_uat_free_context uat (word_of_nat i)) [0..<64] u = Some t"
    and P: "?P 64 t" by blast
  have "nd t b = 0" for b
  proof (rule ccontr)
    assume b: "nd t b \<noteq> 0"
    with P have "uat_wf I t" by simp
    then obtain xs s c where "b = xs @ [s, c]" "c < 64" using b by (rule root_path)
    with P b show False by fastforce
  qed
  with P have "mem_nodes (uat_mem t) = Map.empty" "dom (mem_arrays (uat_mem t)) = {}"
    "dom (mem_tables (uat_mem t)) = {}"
    by (auto simp: uat_wf_def no_leak_def image_constant_conv)
  then have "uat_mem t = no_mem" by (simp add: no_mem_def)
  moreover from this have "live_objects (uat_mem t) = {}" "live_tables (uat_mem t) = {}"
    by (simp_all add: no_mem_def live_objects_def live_tables_def)
  ultimately show ?thesis using t P by (auto simp: uat_wf_def)
qed

theorem free_all_contexts_no_leak_witness:
  "\<exists>t. foldO (\<lambda>i uat. agx_uat_free_context uat (word_of_nat i)) [0..<64] (arena_uat 100) = Some t \<and>
     arena_inv (uat_ctx t) {} {} \<and> uat_mem t = no_mem"
  using free_all_contexts_no_leak [of arena_inv "arena_uat 100"] arena_uat_ok [of 100]
    arena.uat_allocator_axioms by simp

text \<open>C11. The GPU agrees with the software. After any sequence of calls from a zeroed L0 page, with
  table pages the descriptors can carry, a walk through the TTBR slot and the physical
  addresses in the descriptors finds exactly the translation that \<^verbatim>\<open>agx_uat_lookup\<close>
  reports from the software tree.\<close>

theorem gpu_walk_agrees_with_lookup:
  assumes "uat_allocator I ops" "I e {} {}" "uat_mem u = no_mem" "l0 = replicate 128 0"
    and "\<And>e B T c ph. I e B T \<Longrightarrow> (c, ph) \<in> T \<Longrightarrow> uat_phys_ok ph \<and> ph \<noteq> 0"
    and "uat.run calls (agx_uat_init u ops e l0) = Some (rs, t)" "ram_backs ram (uat_mem t)"
    and "c < AGX_UAT_CONTEXT_COUNT" "va < AGX_UAT_VA_LIMIT"
  shows "\<exists>p v. agx_uat_lookup t c va = Some (p, v) \<and>
     gpu_walk ram (uat_l0 t) c va = (if v then Some p else None)"
proof -
  have l0: "length l0 = 128" "\<forall>x\<in>set l0. x = 0" by (simp_all add: assms(4))
  note init = init_wf [where I = I and ops = ops, OF assms(3) l0(1) assms(2)]
  have t: "uat_wf I t" "hw_ok t"
    using run_wf [OF assms(1) init(1,2), of calls] assms(6) init(4) [OF l0(2)] by auto
  have ph: "phys_encodable (uat_mem t)"
    using t(1) assms(5) unfolding uat_wf_def phys_encodable_def by blast
  show ?thesis
    using gpu_walk_leaf [OF t assms(7) ph assms(8)] lookup_leaf [OF t(1), of c va] assms(8,9)
    by (simp add: not_le [symmetric])
qed

lemma arena_inv_phys: "arena_inv e B T \<Longrightarrow> (c, ph) \<in> T \<Longrightarrow> uat_phys_ok ph \<and> ph \<noteq> 0"
  using arena_addr_phys_ok by (auto simp: arena_inv_def)

lemma arena_uat_reinit:
  "arena_uat lim = agx_uat_init (arena_uat 0) arena_ops (arena_new lim) (replicate 128 0)"
  by (simp add: arena_uat_def agx_uat_init_def)

theorem gpu_walk_agrees_with_lookup_witness:
  "\<exists>rs t ram p v. uat.run [Call_Map 3 0x4000 0x8000 0] (arena_uat 100) = Some (rs, t) \<and>
     agx_uat_lookup t 3 0x4000 = Some (p, v) \<and>
     gpu_walk ram (uat_l0 t) 3 0x4000 = (if v then Some p else None)"
proof -
  have lim: "(100 :: nat) \<le> 2 ^ 34" by simp
  obtain rs t where r: "uat.run [Call_Map 3 0x4000 0x8000 0] (arena_uat 100) = Some (rs, t)"
    "uat_wf arena_inv t"
    using run_wf [OF arena.uat_allocator_axioms arena_uat_ok(1,2) [OF lim]] by blast
  define ram where "ram = (\<lambda>pa k. the (mem_tables (uat_mem t) pa) ! k)"
  have "node_cpu n = node_phys n" if "mem_nodes (uat_mem t) p = Some n" for p n
  proof -
    have "(node_cpu n, node_phys n) \<in> live_tables (uat_mem t)"
      using that by (auto simp: live_tables_def intro: ranI)
    with r(2) show ?thesis unfolding uat_wf_def arena_inv_def by (metis prod.inject)
  qed
  then have "ram_backs ram (uat_mem t)" by (auto simp: ram_backs_def ram_def)
  moreover have "3 < AGX_UAT_CONTEXT_COUNT" "0x4000 < AGX_UAT_VA_LIMIT" by code_simp+
  moreover have "uat_mem (arena_uat 0) = no_mem" by (simp add: arena_uat_def agx_uat_init_def)
  moreover have "arena_inv (arena_new 100) {} {}" by (rule arena_new_inv) simp
  ultimately have "\<exists>p v. agx_uat_lookup t 3 0x4000 = Some (p, v) \<and>
      gpu_walk ram (uat_l0 t) 3 0x4000 = (if v then Some p else None)"
    using r(1) unfolding arena_uat_reinit [of 100]
    by (intro gpu_walk_agrees_with_lookup [OF arena.uat_allocator_axioms _ _ refl arena_inv_phys])
  with r(1) show ?thesis by blast
qed

text \<open>C22. Order of teardown. For a context whose select 0 tree is not empty, \<^verbatim>\<open>agx_uat_free_context\<close> gives
  the table pages back, its L1 page among them, before it clears the TTBR slot: in the
  order of effects every \<open>Free_Table\<close> of the tree precedes the first store to the L0 page. In between
  the slot still names a page the allocator may hand out again.\<close>

theorem free_context_frees_before_clearing:
  assumes "uat_allocator I (uat_ops u)" "uat_wf I u" "c < AGX_UAT_CONTEXT_COUNT"
    and "nd u [0, unat c] \<noteq> 0" "get_node u (nd u [0, unat c]) = Some n"
  shows "\<exists>u' es rest. agx_uat_free_context u c = Some u' \<and>
     uat_trace u' = uat_trace u @ es @ [Store_L0 (2 * unat c) 0] @ rest \<and>
     Free_Table (node_cpu n) (node_phys n) \<in> set es \<and>
     (\<forall>ev \<in> set es. \<exists>cpu phys. ev = Free_Table cpu phys)"
proof -
  obtain u' es0 es1 where u': "agx_uat_free_context u c = Some u'"
    "uat_trace u' = uat_trace u @ es0 @ [Store_L0 (2 * unat c) 0] @ es1 @ [Store_L0 (2 * unat c + 1) 0]"
    "set es0 = freed_events u (Sub [0, unat c])"
    by (rule uat_allocator.free_context_freed [OF assms(1,2) refl assms(3)]) (rule that)
  have "[0, unat c] \<in> lp u (Sub [0, unat c])" using assms(4) by (simp add: lp_def del: nd.simps)
  then have "Free_Table (node_cpu n) (node_phys n) \<in> set es0"
    using assms(5) u'(3) unfolding freed_events_def get_node_def by blast
  moreover have "\<forall>ev \<in> set es0. \<exists>cpu phys. ev = Free_Table cpu phys"
    using u'(3) by (auto simp: freed_events_def)
  ultimately show ?thesis using u'(1,2) by blast
qed

lemma arena_mapped:
  obtains u where "agx_uat_map_page (arena_uat 100) 3 0x4000 0x8000 0 = Some (0, u)"
    "uat_wf arena_inv u" "uat_ops u = arena_ops" "nd u [0, 3] \<noteq> 0"
proof -
  have lim: "(100 :: nat) \<le> 2 ^ 34" by simp
  note ok = arena_uat_ok [OF lim]
  have rej: "\<not> map_rejects 3 0x4000 0x8000" by code_simp
  have "9 \<le> ar_limit (uat_ctx (arena_uat 100)) - ar_next (uat_ctx (arena_uat 100))"
    by (simp add: arena_uat_def agx_uat_init_def arena_new_def)
  then obtain u where u: "agx_uat_map_page (arena_uat 100) 3 0x4000 0x8000 0 = Some (0, u)"
    using arena.map_serves [OF ok(1,2) _ rej] by blast
  then have up: "updated arena_inv (arena_uat 100) u 3 0x4000 (agx_uat_pte 0x8000 (0 OR AGX_UAT_PTE_VALID))"
    using arena.map_leaf [OF ok(1,2), of 3 "0x4000" "0x8000" 0] rej
    by (metis AGX_ENOMEM_def Pair_inject neg_equal_0_iff_equal option.inject zero_neq_numeral)
  then have wf: "uat_wf arena_inv u" "uat_ops u = arena_ops" using ok(2) by (simp_all add: updated_def)
  have "uat_leaf u 3 0x4000 = agx_uat_pte 0x8000 (0 OR AGX_UAT_PTE_VALID)"
    using up by (simp add: updated_def)
  moreover have "agx_uat_pte 0x8000 (0 OR AGX_UAT_PTE_VALID) \<noteq> 0" by code_simp
  ultimately have "nd u (uat_path 3 0x4000) \<noteq> 0"
    using walk_null_leaf [OF wf(1), of 3 "0x4000"] by (auto simp: uat_walk_def)
  moreover have "uat_path 3 0x4000 = [0, 0, 0, 3]" by code_simp
  ultimately have "nd u [0, 3] \<noteq> 0"
    using nd_below_null [OF wf(1), of "[0, 3]" "[0, 0, 0, 3]"] by (auto simp: Sub_def simp del: nd.simps)
  with u wf show thesis by (rule that)
qed

theorem free_context_frees_before_clearing_witness:
  "\<exists>u (n :: agx_uat_node) u' es rest. agx_uat_map_page (arena_uat 100) 3 0x4000 0x8000 0 = Some (0, u) \<and>
     agx_uat_free_context u 3 = Some u' \<and>
     uat_trace u' = uat_trace u @ es @ [Store_L0 6 0] @ rest \<and>
     Free_Table (node_cpu n) (node_phys n) \<in> set es"
proof -
  obtain u where u: "agx_uat_map_page (arena_uat 100) 3 0x4000 0x8000 0 = Some (0, u)"
    "uat_wf arena_inv u" "uat_ops u = arena_ops" "nd u [0, 3] \<noteq> 0" by (rule arena_mapped)
  obtain n where n: "get_node u (nd u [0, 3]) = Some n" using u(2,4) by (rule wf_node)
  have "3 < AGX_UAT_CONTEXT_COUNT" by code_simp
  with free_context_frees_before_clearing [of arena_inv u 3 n] u n arena.uat_allocator_axioms
  have "\<exists>u' es rest. agx_uat_free_context u 3 = Some u' \<and>
     uat_trace u' = uat_trace u @ es @ [Store_L0 6 0] @ rest \<and>
     Free_Table (node_cpu n) (node_phys n) \<in> set es" by (force simp del: nd.simps)
  with u(1) show ?thesis by blast
qed

text \<open>The parts of an address as digits of its value.\<close>

lemma index_unat:
  "unat (agx_uat_l1_index a) = unat a div 2 ^ 36 mod 2 ^ 6" "unat (agx_uat_l2_index a) = unat a div 2 ^ 25 mod 2 ^ 11"
  "unat (agx_uat_l3_index a) = unat a div 2 ^ 14 mod 2 ^ 11" "unat (agx_uat_page_offset a) = unat a mod 2 ^ 14"
  "unat (agx_uat_ttbr_select a) = unat a div 2 ^ 42 mod 2"
proof -
  note bits = bit_eq_iff bit_unsigned_iff bit_take_bit_iff bit_drop_bit_eq
  have "unat (agx_uat_l1_index a) = take_bit 6 (drop_bit 36 (unat a))"
    "unat (agx_uat_l2_index a) = take_bit 11 (drop_bit 25 (unat a))"
    "unat (agx_uat_l3_index a) = take_bit 11 (drop_bit 14 (unat a))"
    by (auto simp: bits bit_l1_index bit_l2_index bit_l3_index dest: bit_imp_le_length)
  then show "unat (agx_uat_l1_index a) = unat a div 2 ^ 36 mod 2 ^ 6" "unat (agx_uat_l2_index a) = unat a div 2 ^ 25 mod 2 ^ 11"
    "unat (agx_uat_l3_index a) = unat a div 2 ^ 14 mod 2 ^ 11"
    by (simp_all only: take_bit_eq_mod drop_bit_eq_div)
  have "unat (agx_uat_page_offset a) = take_bit 14 (unat a)"
    by (auto simp: agx_uat_page_offset_def agx_mask bits bit_and_iff bit_mask_iff)
  then show "unat (agx_uat_page_offset a) = unat a mod 2 ^ 14" by (simp only: take_bit_eq_mod)
  have "bit a 42 = bit (unat a) 42" by (simp add: bit_unsigned_iff)
  then have "bit a 42 \<longleftrightarrow> odd (unat a div 2 ^ 42)" by (simp only: bit_iff_odd [of "unat a"])
  then show "unat (agx_uat_ttbr_select a) = unat a div 2 ^ 42 mod 2"
    by (simp add: ttbr_select_bit odd_iff_mod_2_eq_one even_iff_mod_2_eq_zero)
qed

lemma digits_of_43_bits:
  fixes n :: nat
  assumes "n < 2 ^ 43"
  shows "n = (((n div 2 ^ 42 mod 2 * 2 ^ 6 + n div 2 ^ 36 mod 2 ^ 6) * 2 ^ 11 + n div 2 ^ 25 mod 2 ^ 11) * 2 ^ 11 +
     n div 2 ^ 14 mod 2 ^ 11) * 2 ^ 14 + n mod 2 ^ 14"
proof -
  have d: "n div 2 ^ i = n div 2 ^ (i + k) * 2 ^ k + n div 2 ^ i mod 2 ^ k" for i k
    by (simp only: power_add div_mult2_eq div_mult_mod_eq)
  have "n div 2 ^ 42 mod 2 = n div 2 ^ 42" using assms by (simp add: less_mult_imp_div_less)
  then show ?thesis using d [of 36 6] d [of 25 11] d [of 14 11] d [of 0 14] by simp
qed

text \<open>C31. The four indices of an address below the 43 bit limit and its offset in the page are the digits of its value, in
  the sizes of the tables: two roots, 64 entries of a first level table, 2048 of a second and of a third, pages of
  16 KB. So every index is inside its table and no two pages of a context share a leaf descriptor.\<close>

theorem uat_indices_injective:
  assumes "a < AGX_UAT_VA_LIMIT"
  shows "unat a = (((unat (agx_uat_ttbr_select a) * 64 + unat (agx_uat_l1_index a)) * 2048 + unat (agx_uat_l2_index a)) * 2048 +
      unat (agx_uat_l3_index a)) * 0x4000 + unat (agx_uat_page_offset a) \<and>
    unat (agx_uat_ttbr_select a) < 2 \<and> unat (agx_uat_l1_index a) < 64 \<and> unat (agx_uat_l2_index a) < 2048 \<and>
    unat (agx_uat_l3_index a) < 2048 \<and> unat (agx_uat_page_offset a) < 0x4000 \<and>
    (b < AGX_UAT_VA_LIMIT \<longrightarrow> agx_uat_page_offset a = 0 \<longrightarrow> agx_uat_page_offset b = 0 \<longrightarrow>
      (agx_uat_ttbr_select a = agx_uat_ttbr_select b \<and> agx_uat_l1_index a = agx_uat_l1_index b \<and>
       agx_uat_l2_index a = agx_uat_l2_index b \<and> agx_uat_l3_index a = agx_uat_l3_index b) = (a = b))"
proof -
  have "unat a < 2 ^ 43" using assms by (simp add: VA_LIMIT_eq word_less_nat_alt)
  from digits_of_43_bits [OF this]
  have "unat a = (((unat (agx_uat_ttbr_select a) * 64 + unat (agx_uat_l1_index a)) * 2048 + unat (agx_uat_l2_index a)) * 2048 +
      unat (agx_uat_l3_index a)) * 0x4000 + unat (agx_uat_page_offset a)"
    unfolding index_unat by simp
  moreover have "unat (agx_uat_page_offset a) < 0x4000" by (simp add: index_unat)
  moreover have "(agx_uat_ttbr_select a = agx_uat_ttbr_select b \<and> agx_uat_l1_index a = agx_uat_l1_index b \<and>
      agx_uat_l2_index a = agx_uat_l2_index b \<and> agx_uat_l3_index a = agx_uat_l3_index b) = (uat_indices a = uat_indices b)"
    by (auto simp: uat_indices_def word_unat_eq_iff)
  ultimately show ?thesis using index_bounds uat_indices_inject [OF assms] by blast
qed

theorem uat_indices_injective_witness:
  "unat (0x4000 :: u64) = (((unat (agx_uat_ttbr_select 0x4000) * 64 + unat (agx_uat_l1_index 0x4000)) * 2048 +
      unat (agx_uat_l2_index 0x4000)) * 2048 + unat (agx_uat_l3_index 0x4000)) * 0x4000 + unat (agx_uat_page_offset 0x4000) \<and>
   \<not> (agx_uat_ttbr_select 0x4000 = agx_uat_ttbr_select 0x8000 \<and> agx_uat_l1_index 0x4000 = agx_uat_l1_index 0x8000 \<and>
      agx_uat_l2_index 0x4000 = agx_uat_l2_index 0x8000 \<and> agx_uat_l3_index 0x4000 = agx_uat_l3_index 0x8000)"
proof -
  have "(0x4000 :: u64) < AGX_UAT_VA_LIMIT" "(0x8000 :: u64) < AGX_UAT_VA_LIMIT"
    "agx_uat_page_offset 0x4000 = 0" "agx_uat_page_offset 0x8000 = 0" by code_simp+
  with uat_indices_injective [of "0x4000" "0x8000"] show ?thesis by simp
qed

text \<open>C23. Descriptors. A leaf descriptor and a table descriptor give back the physical address exactly when it is a multiple of
  16 KB below \<open>2 ^ 48\<close>; for any other address, which \<^verbatim>\<open>agx_uat_map_page\<close> rejects only if it is unaligned, they carry a
  different one. A leaf keeps every flag outside bits 14 to 47; a table descriptor is valid and of table type. A TTBR slot gives
  back every even address below \<open>2 ^ 48\<close> and no other, the address space id exactly when it has 16 bits, and is valid
  exactly when there is a table.\<close>

theorem descriptor_round_trip:
  "(agx_uat_pte_phys (agx_uat_pte p f) = p \<longleftrightarrow> unat p mod 2 ^ 14 = 0 \<and> p < 2 ^ 48) \<and>
   (agx_uat_table_pte_addr (agx_uat_table_pte p) = p \<longleftrightarrow> unat p mod 2 ^ 14 = 0 \<and> p < 2 ^ 48) \<and>
   (bit (agx_uat_pte p f) i \<longleftrightarrow> (if 14 \<le> i \<and> i < 48 then bit p i else bit f i)) \<and>
   bit (agx_uat_table_pte p) 0 \<and> bit (agx_uat_table_pte p) 1 \<and>
   (ttbr_table (agx_uat_ttbr p asid) = p \<longleftrightarrow> unat p mod 2 = 0 \<and> p < 2 ^ 48) \<and>
   (ttbr_asid (agx_uat_ttbr p asid) = ucast asid \<longleftrightarrow> asid < 2 ^ 16) \<and>
   (bit (agx_uat_ttbr p asid) 0 \<longleftrightarrow> p \<noteq> 0)"
proof -
  have "bit (agx_uat_pte p f) i \<longleftrightarrow> (if 14 \<le> i \<and> i < 48 then bit p i else bit f i)"
    by (auto simp: bit_uat_pte dest: bit_imp_le_length)
  then show ?thesis
    using uat_phys_ok_mask [of p, unfolded uat_phys_ok_def]
    by (simp only: pte_phys_pte pte_phys_table_pte agx_uat_table_pte_addr_def table_pte_valid ttbr_table_iff ttbr_asid_iff
        ttbr_valid_iff simp_thms)
qed

end
