(* ===== verification/Wire.thy ===== *)
theory Wire
  imports Agx_Prelude
begin

text \<open>
  The wire formats: the mailbox registers of \<^verbatim>\<open>include/agx/mailbox_regs.h\<close>, the GPU endpoint
  messages of \<^verbatim>\<open>include/agx/gpu_ep.h\<close> and the power states of \<^verbatim>\<open>include/agx/power.h\<close> and
  \<^verbatim>\<open>src/power.c\<close>. Each message builder comes with the laws its readers rely on.
\<close>

section \<open>Mailbox registers\<close>

definition AGX_MBOX_A2I_CONTROL :: nat where "AGX_MBOX_A2I_CONTROL = 0x8110"
definition AGX_MBOX_I2A_CONTROL :: nat where "AGX_MBOX_I2A_CONTROL = 0x8114"
definition AGX_MBOX_A2I_SEND0 :: nat where "AGX_MBOX_A2I_SEND0 = 0x8800"
definition AGX_MBOX_A2I_SEND1 :: nat where "AGX_MBOX_A2I_SEND1 = 0x8808"
definition AGX_MBOX_I2A_RECV0 :: nat where "AGX_MBOX_I2A_RECV0 = 0x8830"
definition AGX_MBOX_I2A_RECV1 :: nat where "AGX_MBOX_I2A_RECV1 = 0x8838"
definition AGX_MBOX_REGION_SIZE :: nat where "AGX_MBOX_REGION_SIZE = 0x8840"

definition AGX_MBOX_CONTROL_ENABLE :: u32 where "AGX_MBOX_CONTROL_ENABLE = 0x1"
definition AGX_MBOX_CONTROL_FULL :: u32 where "AGX_MBOX_CONTROL_FULL = 0x10000"
definition AGX_MBOX_CONTROL_EMPTY :: u32 where "AGX_MBOX_CONTROL_EMPTY = 0x20000"
definition AGX_MBOX_MSG1_ENDPOINT_MASK :: u32 where "AGX_MBOX_MSG1_ENDPOINT_MASK = 0xff"

lemmas mbox_reg_defs =
  AGX_MBOX_A2I_CONTROL_def AGX_MBOX_I2A_CONTROL_def AGX_MBOX_A2I_SEND0_def AGX_MBOX_A2I_SEND1_def
  AGX_MBOX_I2A_RECV0_def AGX_MBOX_I2A_RECV1_def AGX_MBOX_REGION_SIZE_def

record agx_mbox_message =
  msg_data :: u64
  msg_endpoint :: u32
  msg_flags :: u32

definition agx_mbox_control_full :: "u32 \<Rightarrow> bool" where
  "agx_mbox_control_full control \<longleftrightarrow> control AND AGX_MBOX_CONTROL_FULL \<noteq> 0"

definition agx_mbox_control_empty :: "u32 \<Rightarrow> bool" where
  "agx_mbox_control_empty control \<longleftrightarrow> control AND AGX_MBOX_CONTROL_EMPTY \<noteq> 0"

definition agx_mbox_control_with_enable :: "u32 \<Rightarrow> bool \<Rightarrow> u32" where
  "agx_mbox_control_with_enable control enable =
     (control AND NOT AGX_MBOX_CONTROL_ENABLE) OR (if enable then AGX_MBOX_CONTROL_ENABLE else 0)"

definition agx_mbox_pack_msg1 :: "u32 \<Rightarrow> u64" where
  "agx_mbox_pack_msg1 endpoint = ucast (endpoint AND AGX_MBOX_MSG1_ENDPOINT_MASK)"

definition agx_mbox_unpack :: "u64 \<Rightarrow> u64 \<Rightarrow> agx_mbox_message" where
  "agx_mbox_unpack msg0 msg1 =
     \<lparr>msg_data = msg0,
      msg_endpoint = ucast (msg1 AND ucast AGX_MBOX_MSG1_ENDPOINT_MASK),
      msg_flags = ucast (drop_bit 32 msg1)\<rparr>"

section \<open>GPU endpoint messages\<close>

definition AGX_GPU_MSG_TYPE_SHIFT :: nat where "AGX_GPU_MSG_TYPE_SHIFT = 48"
definition AGX_GPU_MSG_TYPE_MASK :: u64 where "AGX_GPU_MSG_TYPE_MASK = 0xffff"
definition AGX_GPU_MSG_EVENT :: u32 where "AGX_GPU_MSG_EVENT = 0x42"
definition AGX_GPU_MSG_INIT :: u32 where "AGX_GPU_MSG_INIT = 0x81"
definition AGX_GPU_MSG_DOORBELL :: u32 where "AGX_GPU_MSG_DOORBELL = 0x83"
definition AGX_GPU_MSG_FWCTL :: u32 where "AGX_GPU_MSG_FWCTL = 0x84"
definition AGX_GPU_MSG_STOP :: u32 where "AGX_GPU_MSG_STOP = 0x85"
definition AGX_GPU_MSG_DOORBELL_ALT :: u32 where "AGX_GPU_MSG_DOORBELL_ALT = 0x86"
definition AGX_GPU_EVENT_TYPE_MASK :: u64 where "AGX_GPU_EVENT_TYPE_MASK = 0x3f"
definition AGX_GPU_EVENT_TYPE_VALUE :: u64 where "AGX_GPU_EVENT_TYPE_VALUE = 0x2"
definition AGX_GPU_KICK_INDEX_MASK :: u32 where "AGX_GPU_KICK_INDEX_MASK = 0x7"
definition AGX_GPU_KICK_INDEX_SHIFT :: nat where "AGX_GPU_KICK_INDEX_SHIFT = 2"
definition AGX_GPU_INITDATA_MASK :: u64 where "AGX_GPU_INITDATA_MASK = 0xfffffffffff"
definition AGX_GPU_DOORBELL_CHANNEL_MASK :: u64 where "AGX_GPU_DOORBELL_CHANNEL_MASK = 0xffff"
definition AGX_GPU_DOORBELL_KICK :: u32 where "AGX_GPU_DOORBELL_KICK = 0x10"

lemmas gpu_msg_defs =
  AGX_GPU_MSG_TYPE_SHIFT_def AGX_GPU_MSG_TYPE_MASK_def AGX_GPU_MSG_EVENT_def AGX_GPU_MSG_INIT_def
  AGX_GPU_MSG_DOORBELL_def AGX_GPU_MSG_FWCTL_def AGX_GPU_MSG_STOP_def AGX_GPU_MSG_DOORBELL_ALT_def
  AGX_GPU_EVENT_TYPE_MASK_def AGX_GPU_EVENT_TYPE_VALUE_def AGX_GPU_KICK_INDEX_MASK_def
  AGX_GPU_KICK_INDEX_SHIFT_def AGX_GPU_INITDATA_MASK_def AGX_GPU_DOORBELL_CHANNEL_MASK_def

definition agx_gpu_msg_type :: "u64 \<Rightarrow> u32" where
  "agx_gpu_msg_type message = ucast (AGX_FIELD_GET message AGX_GPU_MSG_TYPE_SHIFT AGX_GPU_MSG_TYPE_MASK)"

definition agx_gpu_msg_init :: "u64 \<Rightarrow> u64" where
  "agx_gpu_msg_init initdata_addr =
     AGX_FIELD_PUT (ucast AGX_GPU_MSG_INIT) AGX_GPU_MSG_TYPE_SHIFT AGX_GPU_MSG_TYPE_MASK OR
     (initdata_addr AND AGX_GPU_INITDATA_MASK)"

definition agx_gpu_msg_doorbell :: "u32 \<Rightarrow> u64" where
  "agx_gpu_msg_doorbell channel =
     AGX_FIELD_PUT (ucast AGX_GPU_MSG_DOORBELL) AGX_GPU_MSG_TYPE_SHIFT AGX_GPU_MSG_TYPE_MASK OR
     (ucast channel AND AGX_GPU_DOORBELL_CHANNEL_MASK)"

definition agx_gpu_msg_kick :: "u32 \<Rightarrow> bool \<Rightarrow> u64" where
  "agx_gpu_msg_kick index alt =
     (let type = if alt then AGX_GPU_MSG_DOORBELL_ALT else AGX_GPU_MSG_DOORBELL
      in AGX_FIELD_PUT (ucast type) AGX_GPU_MSG_TYPE_SHIFT AGX_GPU_MSG_TYPE_MASK OR
         ucast (push_bit AGX_GPU_KICK_INDEX_SHIFT (index AND AGX_GPU_KICK_INDEX_MASK)))"

definition agx_gpu_msg_stop :: "u64 \<Rightarrow> u64" where
  "agx_gpu_msg_stop counter =
     AGX_FIELD_PUT (ucast AGX_GPU_MSG_STOP) AGX_GPU_MSG_TYPE_SHIFT AGX_GPU_MSG_TYPE_MASK OR
     (counter AND AGX_GPU_INITDATA_MASK)"

definition agx_gpu_msg_is_event :: "u64 \<Rightarrow> bool" where
  "agx_gpu_msg_is_event message \<longleftrightarrow>
     AGX_FIELD_GET message AGX_GPU_MSG_TYPE_SHIFT AGX_GPU_EVENT_TYPE_MASK = AGX_GPU_EVENT_TYPE_VALUE"

definition agx_gpu_msg_fwctl :: u64 where
  "agx_gpu_msg_fwctl =
     AGX_FIELD_PUT (ucast AGX_GPU_MSG_FWCTL) AGX_GPU_MSG_TYPE_SHIFT AGX_GPU_MSG_TYPE_MASK"

definition agx_gpu_msg_initdata :: "u64 \<Rightarrow> u64" where
  "agx_gpu_msg_initdata message = message AND AGX_GPU_INITDATA_MASK"

definition agx_gpu_msg_channel :: "u64 \<Rightarrow> u32" where
  "agx_gpu_msg_channel message = ucast (message AND AGX_GPU_DOORBELL_CHANNEL_MASK)"

section \<open>Power states\<close>

definition AGX_PWR_OFF :: u32 where "AGX_PWR_OFF = 0x000"
definition AGX_PWR_SLEEP :: u32 where "AGX_PWR_SLEEP = 0x001"
definition AGX_PWR_QUIESCED :: u32 where "AGX_PWR_QUIESCED = 0x010"
definition AGX_PWR_ON :: u32 where "AGX_PWR_ON = 0x020"
definition AGX_PWR_IDLE :: u32 where "AGX_PWR_IDLE = 0x201"
definition AGX_PWR_UNKNOWN_202 :: u32 where "AGX_PWR_UNKNOWN_202 = 0x202"
definition AGX_PWR_INIT :: u32 where "AGX_PWR_INIT = 0x220"
definition AGX_PWR_LEVEL_MASK :: u32 where "AGX_PWR_LEVEL_MASK = 0xff"

lemmas pwr_defs = AGX_PWR_OFF_def AGX_PWR_SLEEP_def AGX_PWR_QUIESCED_def AGX_PWR_ON_def
  AGX_PWR_IDLE_def AGX_PWR_UNKNOWN_202_def AGX_PWR_INIT_def AGX_PWR_LEVEL_MASK_def

datatype agx_power_state = AGX_POWER_OFF | AGX_POWER_QUIESCENT | AGX_POWER_STANDBY | AGX_POWER_ON

text \<open>The values of the enumerators, and the name of an arbitrary value of the C type.\<close>

primrec agx_power_state_value :: "agx_power_state \<Rightarrow> u32" where
  "agx_power_state_value AGX_POWER_OFF = 0"
| "agx_power_state_value AGX_POWER_QUIESCENT = 1"
| "agx_power_state_value AGX_POWER_STANDBY = 2"
| "agx_power_state_value AGX_POWER_ON = 3"

definition power_value_name :: "u32 \<Rightarrow> string" where
  "power_value_name state =
     (if state = agx_power_state_value AGX_POWER_OFF then ''off''
      else if state = agx_power_state_value AGX_POWER_QUIESCENT then ''quiescent''
      else if state = agx_power_state_value AGX_POWER_STANDBY then ''standby''
      else if state = agx_power_state_value AGX_POWER_ON then ''on''
      else ''unknown'')"

definition agx_power_state_name :: "agx_power_state \<Rightarrow> string" where
  "agx_power_state_name state = power_value_name (agx_power_state_value state)"

text \<open>\<open>None\<close> is the C function returning false and leaving \<^verbatim>\<open>*state\<close> alone.\<close>

definition agx_power_state_from_wire :: "u32 \<Rightarrow> agx_power_state option" where
  "agx_power_state_from_wire wire =
     (if wire AND AGX_PWR_LEVEL_MASK = AGX_PWR_ON then Some AGX_POWER_ON
      else if wire = AGX_PWR_OFF then Some AGX_POWER_OFF
      else if wire = AGX_PWR_QUIESCED then Some AGX_POWER_QUIESCENT
      else if wire = AGX_PWR_SLEEP \<or> wire = AGX_PWR_IDLE then Some AGX_POWER_STANDBY
      else None)"

section \<open>Masks\<close>

lemma wire_masks [agx_mask]:
  "AGX_MBOX_MSG1_ENDPOINT_MASK = mask 8" "AGX_GPU_MSG_TYPE_MASK = mask 16"
  "AGX_GPU_EVENT_TYPE_MASK = mask 6" "AGX_GPU_KICK_INDEX_MASK = mask 3"
  "AGX_GPU_INITDATA_MASK = mask 44" "AGX_GPU_DOORBELL_CHANNEL_MASK = mask 16"
  "AGX_PWR_LEVEL_MASK = mask 8"
  by (simp_all add: AGX_MBOX_MSG1_ENDPOINT_MASK_def gpu_msg_defs AGX_PWR_LEVEL_MASK_def mask_eq_exp_minus_1)

lemma power_state_names [simp]:
  "agx_power_state_name AGX_POWER_OFF = ''off''" "agx_power_state_name AGX_POWER_QUIESCENT = ''quiescent''"
  "agx_power_state_name AGX_POWER_STANDBY = ''standby''" "agx_power_state_name AGX_POWER_ON = ''on''"
  by (simp_all add: agx_power_state_name_def power_value_name_def)

text \<open>The default case is for the values that are no power state.\<close>

lemma power_value_unknown: "power_value_name v = ''unknown'' \<longleftrightarrow> v \<notin> range agx_power_state_value"
proof -
  have u: "(UNIV :: agx_power_state set) = {AGX_POWER_OFF, AGX_POWER_QUIESCENT, AGX_POWER_STANDBY, AGX_POWER_ON}"
    using agx_power_state.exhaust by blast
  have "range agx_power_state_value = {0, 1, 2, 3}" unfolding u by simp
  then show ?thesis by (simp add: power_value_name_def)
qed

lemma power_state_name_inject: "agx_power_state_name s = agx_power_state_name t \<Longrightarrow> s = t"
  by (cases s; cases t) simp_all

lemma from_wire_on: "agx_power_state_from_wire w = Some AGX_POWER_ON \<longleftrightarrow> w AND AGX_PWR_LEVEL_MASK = AGX_PWR_ON"
  by (simp add: agx_power_state_from_wire_def)

lemma gpu_msg_fields:
  assumes "\<And>i. bit low i \<Longrightarrow> i < 48" and m: "m = AGX_FIELD_PUT t AGX_GPU_MSG_TYPE_SHIFT AGX_GPU_MSG_TYPE_MASK OR low"
  shows "agx_gpu_msg_type m = ucast (t AND mask 16)"
    "agx_gpu_msg_is_event m \<longleftrightarrow> t AND mask 6 = 2"
    "n \<le> 48 \<Longrightarrow> m AND mask n = low AND mask n"
proof -
  have b: "bit m i \<longleftrightarrow> (if i < 48 then bit low i else i < 64 \<and> bit t (i - 48))" for i
    using assms(1) [of i]
    by (auto simp: m wire_masks AGX_FIELD_PUT_def AGX_GPU_MSG_TYPE_SHIFT_def bit_simps)
  have g: "AGX_FIELD_GET m AGX_GPU_MSG_TYPE_SHIFT (mask k) = t AND mask k" if "k \<le> 16" for k
    using that by (auto simp: word_eq_iff_bits AGX_FIELD_GET_def AGX_GPU_MSG_TYPE_SHIFT_def bit_simps b)
  show "agx_gpu_msg_type m = ucast (t AND mask 16)"
    by (simp add: agx_gpu_msg_type_def wire_masks g)
  show "agx_gpu_msg_is_event m \<longleftrightarrow> t AND mask 6 = 2"
    by (simp add: agx_gpu_msg_is_event_def wire_masks g AGX_GPU_EVENT_TYPE_VALUE_def)
  show "m AND mask n = low AND mask n" if "n \<le> 48"
    using that by (auto simp: word_eq_iff_bits bit_simps b)
qed

section \<open>Properties\<close>

text \<open>Mailbox words. Packing an endpoint and unpacking the pair gives back the message and the
  endpoint number modulo 256, which is the endpoint itself for every endpoint of the
  protocol; the enable setter changes bit 0 of the control word and no other.\<close>

lemma mbox_round_trip:
  "agx_mbox_unpack d (agx_mbox_pack_msg1 ep) = \<lparr>msg_data = d, msg_endpoint = ep AND 0xff, msg_flags = 0\<rparr> \<and>
   (ep < 256 \<longrightarrow> ep AND 0xff = ep) \<and>
   bit (agx_mbox_control_with_enable c en) i = (if i = 0 then en else bit c i)"
proof -
  have m: "(0xff :: u32) = mask 8" by (simp add: mask_eq_exp_minus_1)
  have "agx_mbox_unpack d (agx_mbox_pack_msg1 ep) =
      \<lparr>msg_data = d, msg_endpoint = ep AND 0xff, msg_flags = 0\<rparr>"
    unfolding agx_mbox_unpack_def agx_mbox_pack_msg1_def wire_masks m
    by (auto simp: word_eq_iff_bits bit_simps)
  moreover have "ep < 256 \<longrightarrow> ep AND 0xff = ep"
    using word_less_exp_iff_bits [of 8 ep] unfolding m by (auto simp: word_eq_iff_bits bit_simps)
  moreover have "bit (agx_mbox_control_with_enable c en) i = (if i = 0 then en else bit c i)"
    by (auto simp: agx_mbox_control_with_enable_def AGX_MBOX_CONTROL_ENABLE_def bit_simps
        dest: bit_imp_le_length)
  ultimately show ?thesis by simp
qed

text \<open>C30. GPU messages. Every builder produces its own type code; below it the message is exactly the argument, cut to the
  width of its field (44 bits of an address or a counter, 16 of a channel, 3 of a kick index, in steps of four), and the
  readers of the header give it back. The five type codes and the one of an event differ, and no built message is taken
  for a firmware event by \<^verbatim>\<open>agx_gpu_msg_is_event\<close>.\<close>

theorem gpu_msg_round_trip:
  "agx_gpu_msg_type (agx_gpu_msg_init a) = AGX_GPU_MSG_INIT \<and>
   agx_gpu_msg_initdata (agx_gpu_msg_init a) = take_bit 44 a \<and>
   agx_gpu_msg_type (agx_gpu_msg_doorbell ch) = AGX_GPU_MSG_DOORBELL \<and>
   agx_gpu_msg_channel (agx_gpu_msg_doorbell ch) = take_bit 16 ch \<and>
   agx_gpu_msg_type (agx_gpu_msg_kick ix alt) =
     (if alt then AGX_GPU_MSG_DOORBELL_ALT else AGX_GPU_MSG_DOORBELL) \<and>
   agx_gpu_msg_channel (agx_gpu_msg_kick ix alt) = push_bit 2 (take_bit 3 ix) \<and>
   agx_gpu_msg_type (agx_gpu_msg_stop n) = AGX_GPU_MSG_STOP \<and>
   agx_gpu_msg_initdata (agx_gpu_msg_stop n) = take_bit 44 n \<and>
   agx_gpu_msg_type agx_gpu_msg_fwctl = AGX_GPU_MSG_FWCTL \<and>
   take_bit 48 (agx_gpu_msg_init a) = take_bit 44 a \<and>
   take_bit 48 (agx_gpu_msg_doorbell ch) = ucast (take_bit 16 ch) \<and>
   take_bit 48 (agx_gpu_msg_kick ix alt) = ucast (push_bit 2 (take_bit 3 ix)) \<and>
   take_bit 48 (agx_gpu_msg_stop n) = take_bit 44 n \<and>
   take_bit 48 agx_gpu_msg_fwctl = 0 \<and>
   distinct [AGX_GPU_MSG_EVENT, AGX_GPU_MSG_INIT, AGX_GPU_MSG_DOORBELL, AGX_GPU_MSG_DOORBELL_ALT, AGX_GPU_MSG_STOP,
     AGX_GPU_MSG_FWCTL] \<and>
   \<not> agx_gpu_msg_is_event (agx_gpu_msg_init a) \<and> \<not> agx_gpu_msg_is_event (agx_gpu_msg_doorbell ch) \<and>
   \<not> agx_gpu_msg_is_event (agx_gpu_msg_kick ix alt) \<and> \<not> agx_gpu_msg_is_event (agx_gpu_msg_stop n) \<and>
   \<not> agx_gpu_msg_is_event agx_gpu_msg_fwctl"
proof -
  have low: "bit (a AND AGX_GPU_INITDATA_MASK) i \<Longrightarrow> i < 48"
    "bit (n AND AGX_GPU_INITDATA_MASK) i \<Longrightarrow> i < 48"
    "bit (ucast ch AND AGX_GPU_DOORBELL_CHANNEL_MASK) i \<Longrightarrow> i < 48"
    "bit (ucast (push_bit AGX_GPU_KICK_INDEX_SHIFT (ix AND AGX_GPU_KICK_INDEX_MASK)) :: u64) i \<Longrightarrow> i < 48"
    "bit (0 :: u64) i \<Longrightarrow> i < 48" for i
    by (auto simp: wire_masks bit_simps)
  note f1 = gpu_msg_fields [OF _ agx_gpu_msg_init_def [of a], OF low(1)]
  note f2 = gpu_msg_fields [OF _ agx_gpu_msg_doorbell_def [of ch], OF low(3)]
  note f3 = gpu_msg_fields [OF _ agx_gpu_msg_kick_def [of ix alt, unfolded Let_def], OF low(4)]
  note f4 = gpu_msg_fields [OF _ agx_gpu_msg_stop_def [of n], OF low(2)]
  have f5: "agx_gpu_msg_type agx_gpu_msg_fwctl = AGX_GPU_MSG_FWCTL" "\<not> agx_gpu_msg_is_event agx_gpu_msg_fwctl"
    "take_bit 48 agx_gpu_msg_fwctl = 0"
    by code_simp+
  have arg: "take_bit 48 (agx_gpu_msg_init a) = take_bit 44 a"
    "take_bit 48 (agx_gpu_msg_doorbell ch) = ucast (take_bit 16 ch)"
    "take_bit 48 (agx_gpu_msg_kick ix alt) = ucast (push_bit 2 (take_bit 3 ix))"
    "take_bit 48 (agx_gpu_msg_stop n) = take_bit 44 n"
    using f1(3) [of 48] f2(3) [of 48] f3(3) [of 48] f4(3) [of 48]
    by (simp_all add: take_bit_eq_mask wire_masks AGX_GPU_KICK_INDEX_SHIFT_def)
      (auto simp: word_eq_iff_bits bit_simps)
  have "agx_gpu_msg_initdata (agx_gpu_msg_stop n) = take_bit 44 n"
    using f4(3) [of 44] by (simp add: agx_gpu_msg_initdata_def wire_masks take_bit_eq_mask and.assoc)
  moreover have "distinct [AGX_GPU_MSG_EVENT, AGX_GPU_MSG_INIT, AGX_GPU_MSG_DOORBELL, AGX_GPU_MSG_DOORBELL_ALT,
      AGX_GPU_MSG_STOP, AGX_GPU_MSG_FWCTL]" by (simp add: gpu_msg_defs)
  moreover note arg
  moreover have "agx_gpu_msg_initdata (agx_gpu_msg_init a) = take_bit 44 a"
    using f1(3) [of 44] by (simp add: agx_gpu_msg_initdata_def wire_masks take_bit_eq_mask and.assoc)
  moreover have "agx_gpu_msg_channel (agx_gpu_msg_doorbell ch) = take_bit 16 ch"
    using f2(3) [of 16] by (simp add: agx_gpu_msg_channel_def wire_masks)
      (auto simp: word_eq_iff_bits bit_simps)
  moreover have "agx_gpu_msg_channel (agx_gpu_msg_kick ix alt) = push_bit 2 (take_bit 3 ix)"
    using f3(3) [of 16] by (simp add: agx_gpu_msg_channel_def wire_masks AGX_GPU_KICK_INDEX_SHIFT_def)
      (auto simp: word_eq_iff_bits bit_simps)
  ultimately show ?thesis
    using f1(1,2) f2(1,2) f3(1,2) f4(1,2) f5
    by (simp del: take_bit_push_bit) (simp add: mask_eq_exp_minus_1 gpu_msg_defs)
qed

text \<open>Power states. A wire value decodes to on exactly when its low byte is 0x20, so both the ON and
  the INIT request count as on; the other levels are matched as whole words, and the
  names of the four states are distinct.\<close>

lemma power_from_wire:
  "agx_power_state_from_wire w =
     (if take_bit 8 w = 0x20 then Some AGX_POWER_ON else if w = 0 then Some AGX_POWER_OFF
      else if w = 0x10 then Some AGX_POWER_QUIESCENT
      else if w = 0x1 \<or> w = 0x201 then Some AGX_POWER_STANDBY else None) \<and>
   inj agx_power_state_name"
  unfolding agx_power_state_from_wire_def wire_masks
  by (simp add: pwr_defs take_bit_eq_mask injI power_state_name_inject)

end
