(* ===== verification/Display.thy ===== *)
theory Display
  imports Wire
begin

text \<open>
  The power notification broker of \<^verbatim>\<open>src/display.c\<close>. Listeners are identified by the address of
  their list node; the callback is a parameter that acts on the world \<open>'w\<close> outside the
  driver. The intrusive list is the sequence of linked listeners; linking a node twice or
  unlinking one that is not linked corrupts a kernel list and is \<open>None\<close> here, as is
  taking the spinlock while it is held. Theory \<open>Display_Memory\<close> has the same functions on the pointers of the list.
\<close>

record 'w agx_display_listener =
  dl_callback :: "u64 \<Rightarrow> agx_power_state \<Rightarrow> agx_power_state \<Rightarrow> 'w \<Rightarrow> 'w"
  dl_cookie :: u64

record 'w agx_display_broker =
  db_listeners :: "(u64 \<times> 'w agx_display_listener) list"
  db_lock :: bool

definition spin_lock :: "'w agx_display_broker \<Rightarrow> 'w agx_display_broker option" where
  "spin_lock broker = (if db_lock broker then None else Some (broker\<lparr>db_lock := True\<rparr>))"

definition spin_unlock :: "'w agx_display_broker \<Rightarrow> 'w agx_display_broker" where
  "spin_unlock broker = broker\<lparr>db_lock := False\<rparr>"

definition agx_display_broker_init :: "'w agx_display_broker" where
  "agx_display_broker_init = \<lparr>db_listeners = [], db_lock = False\<rparr>"

definition agx_display_register ::
  "'w agx_display_broker \<Rightarrow> u64 \<Rightarrow> 'w agx_display_listener \<Rightarrow> 'w agx_display_broker option" where
  "agx_display_register broker p listener = do {
     broker \<leftarrow> spin_lock broker;
     if p \<in> fst ` set (db_listeners broker) then None
     else Some (spin_unlock (broker\<lparr>db_listeners := db_listeners broker @ [(p, listener)]\<rparr>))
   }"

definition agx_display_unregister ::
  "'w agx_display_broker \<Rightarrow> u64 \<Rightarrow> 'w agx_display_broker option" where
  "agx_display_unregister broker p = do {
     broker \<leftarrow> spin_lock broker;
     if p \<notin> fst ` set (db_listeners broker) then None
     else Some (spin_unlock (broker\<lparr>db_listeners := filter (\<lambda>(q, l). q \<noteq> p) (db_listeners broker)\<rparr>))
   }"

definition agx_display_notify ::
  "'w agx_display_broker \<Rightarrow> agx_power_state \<Rightarrow> agx_power_state \<Rightarrow> 'w \<Rightarrow> ('w agx_display_broker \<times> 'w) option" where
  "agx_display_notify broker old new w = do {
     broker \<leftarrow> spin_lock broker;
     let w = fold (\<lambda>(q, l) w. dl_callback l (dl_cookie l) old new w) (db_listeners broker) w in
     Some (spin_unlock broker, w)
   }"

section \<open>Properties\<close>

text \<open>The broker is idle and no node is linked twice.\<close>

definition broker_ok :: "'w agx_display_broker \<Rightarrow> bool" where
  "broker_ok b \<longleftrightarrow> \<not> db_lock b \<and> distinct (map fst (db_listeners b))"

lemma broker_init_ok: "broker_ok agx_display_broker_init"
  by (simp add: broker_ok_def agx_display_broker_init_def)

lemma register_ok:
  assumes "broker_ok b" "p \<notin> fst ` set (db_listeners b)"
  shows "agx_display_register b p l = Some (b\<lparr>db_listeners := db_listeners b @ [(p, l)]\<rparr>)"
    "broker_ok (b\<lparr>db_listeners := db_listeners b @ [(p, l)]\<rparr>)"
  using assms by (auto simp: broker_ok_def agx_display_register_def spin_lock_def spin_unlock_def)

lemma unregister_ok:
  assumes "broker_ok b" "p \<in> fst ` set (db_listeners b)"
  shows "agx_display_unregister b p = Some (b\<lparr>db_listeners := filter (\<lambda>(q, l). q \<noteq> p) (db_listeners b)\<rparr>)"
    "broker_ok (b\<lparr>db_listeners := filter (\<lambda>(q, l). q \<noteq> p) (db_listeners b)\<rparr>)"
  using assms by (auto simp: broker_ok_def agx_display_unregister_def spin_lock_def spin_unlock_def
      distinct_map_filter)

lemma notify_ok:
  assumes "broker_ok b"
  shows "agx_display_notify b old new w =
     Some (b, fold (\<lambda>(q, l) w. dl_callback l (dl_cookie l) old new w) (db_listeners b) w)"
  using assms by (simp add: broker_ok_def agx_display_notify_def spin_lock_def spin_unlock_def Let_def)

text \<open>Notification. A registered listener is called exactly once per power change, after every listener that
  registered before it and with its own cookie; after it unregisters, the others are
  called as if it had never registered. The broker is left unlocked each time.\<close>

lemma display_register_notify_unregister:
  assumes "broker_ok b" "p \<notin> fst ` set (db_listeners b)"
  shows "\<exists>b'. agx_display_register b p l = Some b' \<and> broker_ok b' \<and>
     (\<exists>w'. agx_display_notify b old new w = Some (b, w') \<and>
        agx_display_notify b' old new w = Some (b', dl_callback l (dl_cookie l) old new w')) \<and>
     agx_display_unregister b' p = Some b"
proof -
  let ?b = "b\<lparr>db_listeners := db_listeners b @ [(p, l)]\<rparr>"
  have "filter (\<lambda>(q, l). q \<noteq> p) (db_listeners b @ [(p, l)]) = db_listeners b"
    using assms(2) by (force simp: filter_id_conv)
  then have "agx_display_unregister ?b p = Some b"
    using unregister_ok(1) [OF register_ok(2) [OF assms], of p l] by simp
  with register_ok [OF assms, of l] notify_ok [OF assms(1)] notify_ok [OF register_ok(2) [OF assms]]
  show ?thesis by simp
qed

end
