(* ===== verification/Display_Memory.thy ===== *)
theory Display_Memory
  imports Display
begin

text \<open>
  The broker of \<^verbatim>\<open>src/display.c\<close> on pointers: the intrusive list of \<^verbatim>\<open>tests/kshim/linux/list.h\<close>, with the
  assignments of each function in their order, and the four functions of the broker over it. The two links
  of every \<^verbatim>\<open>struct list_head\<close> are two maps from addresses; an access to an address without a node, the null
  pointer included, is \<open>None\<close>. \<open>dlist m head ps\<close> says that the circular list at \<open>head\<close> runs through the nodes
  \<open>ps\<close> forwards and backwards. The property at the end is that the functions implement the sequence of
  listeners of theory \<open>Display\<close>, on which the driver core is built.
\<close>

section \<open>\<^verbatim>\<open>list.h\<close>\<close>

record list_mem =
  lm_next :: "u64 \<rightharpoonup> u64"
  lm_prev :: "u64 \<rightharpoonup> u64"

definition set_next :: "'a list_mem_scheme \<Rightarrow> u64 \<Rightarrow> u64 \<Rightarrow> 'a list_mem_scheme option" where
  "set_next m p v = (if lm_next m p = None then None else Some (m\<lparr>lm_next := (lm_next m)(p \<mapsto> v)\<rparr>))"

definition set_prev :: "'a list_mem_scheme \<Rightarrow> u64 \<Rightarrow> u64 \<Rightarrow> 'a list_mem_scheme option" where
  "set_prev m p v = (if lm_prev m p = None then None else Some (m\<lparr>lm_prev := (lm_prev m)(p \<mapsto> v)\<rparr>))"

definition INIT_LIST_HEAD :: "'a list_mem_scheme \<Rightarrow> u64 \<Rightarrow> 'a list_mem_scheme option" where
  "INIT_LIST_HEAD m list = do {
     m \<leftarrow> set_next m list list;
     set_prev m list list
   }"

definition list_add_tail :: "'a list_mem_scheme \<Rightarrow> u64 \<Rightarrow> u64 \<Rightarrow> 'a list_mem_scheme option" where
  "list_add_tail m entry head = do {
     head_prev \<leftarrow> lm_prev m head;
     m \<leftarrow> set_prev m entry head_prev;
     m \<leftarrow> set_next m entry head;
     head_prev \<leftarrow> lm_prev m head;
     m \<leftarrow> set_next m head_prev entry;
     set_prev m head entry
   }"

definition list_del :: "'a list_mem_scheme \<Rightarrow> u64 \<Rightarrow> 'a list_mem_scheme option" where
  "list_del m entry = do {
     entry_prev \<leftarrow> lm_prev m entry;
     entry_next \<leftarrow> lm_next m entry;
     m \<leftarrow> set_next m entry_prev entry_next;
     entry_next \<leftarrow> lm_next m entry;
     entry_prev \<leftarrow> lm_prev m entry;
     m \<leftarrow> set_prev m entry_next entry_prev;
     m \<leftarrow> set_next m entry 0;
     set_prev m entry 0
   }"

text \<open>\<open>offset\<close> is the offset of the member \<^verbatim>\<open>struct list_head\<close> in the structure of the entries.\<close>

definition list_entry :: "u64 \<Rightarrow> u64 \<Rightarrow> u64" where
  "list_entry ptr offset = ptr - offset"

partial_function (option) for_each_from ::
  "'a list_mem_scheme \<Rightarrow> u64 \<Rightarrow> u64 \<Rightarrow> (u64 \<Rightarrow> 'w \<Rightarrow> 'w option) \<Rightarrow> u64 \<Rightarrow> 'w \<Rightarrow> 'w option" where
  "for_each_from m head offset body pos w =
     (if pos + offset = head then Some w
      else do {
        w \<leftarrow> body pos w;
        next \<leftarrow> lm_next m (pos + offset);
        for_each_from m head offset body (list_entry next offset) w
      })"

definition list_for_each_entry ::
  "'a list_mem_scheme \<Rightarrow> u64 \<Rightarrow> u64 \<Rightarrow> (u64 \<Rightarrow> 'w \<Rightarrow> 'w option) \<Rightarrow> 'w \<Rightarrow> 'w option" where
  "list_for_each_entry m head offset body w = do {
     first \<leftarrow> lm_next m head;
     for_each_from m head offset body (list_entry first offset) w
   }"

section \<open>\<^verbatim>\<open>display.c\<close>\<close>

text \<open>The memory of one broker: the list nodes, the listeners by their addresses, the spinlock.\<close>

record 'w display_mem = list_mem +
  dm_listener :: "u64 \<rightharpoonup> 'w agx_display_listener"
  dm_lock :: bool

text \<open>The offset of \<^verbatim>\<open>node\<close> in \<^verbatim>\<open>struct agx_display_listener\<close>, behind two pointers.\<close>

definition listener_node :: u64 where "listener_node = 16"

definition mem_spin_lock :: "'w display_mem \<Rightarrow> 'w display_mem option" where
  "mem_spin_lock m = (if dm_lock m then None else Some (m\<lparr>dm_lock := True\<rparr>))"

definition mem_spin_unlock :: "'w display_mem \<Rightarrow> 'w display_mem" where
  "mem_spin_unlock m = m\<lparr>dm_lock := False\<rparr>"

definition mem_broker_init :: "'w display_mem \<Rightarrow> u64 \<Rightarrow> 'w display_mem option" where
  "mem_broker_init m broker = do {
     m \<leftarrow> INIT_LIST_HEAD m broker;
     Some (m\<lparr>dm_lock := False\<rparr>)
   }"

definition mem_register :: "'w display_mem \<Rightarrow> u64 \<Rightarrow> u64 \<Rightarrow> 'w display_mem option" where
  "mem_register m broker listener = do {
     m \<leftarrow> mem_spin_lock m;
     m \<leftarrow> list_add_tail m (listener + listener_node) broker;
     Some (mem_spin_unlock m)
   }"

definition mem_unregister :: "'w display_mem \<Rightarrow> u64 \<Rightarrow> u64 \<Rightarrow> 'w display_mem option" where
  "mem_unregister m broker listener = do {
     m \<leftarrow> mem_spin_lock m;
     m \<leftarrow> list_del m (listener + listener_node);
     Some (mem_spin_unlock m)
   }"

definition mem_notify ::
  "'w display_mem \<Rightarrow> u64 \<Rightarrow> agx_power_state \<Rightarrow> agx_power_state \<Rightarrow> 'w \<Rightarrow> ('w display_mem \<times> 'w) option" where
  "mem_notify m broker from to w = do {
     m \<leftarrow> mem_spin_lock m;
     w \<leftarrow> list_for_each_entry m broker listener_node
       (\<lambda>listener w. do {
          l \<leftarrow> dm_listener m listener;
          Some (dl_callback l (dl_cookie l) from to w)
        }) w;
     Some (mem_spin_unlock m, w)
   }"

text \<open>Sequences of calls, on the memory and on the broker of theory \<open>Display\<close>; \<open>L\<close> are the listeners by address.\<close>

datatype display_call = Register u64 | Unregister u64

fun mem_calls :: "'w display_mem \<Rightarrow> u64 \<Rightarrow> display_call list \<Rightarrow> 'w display_mem option" where
  "mem_calls m broker [] = Some m"
| "mem_calls m broker (Register x # cs) = do { m \<leftarrow> mem_register m broker x; mem_calls m broker cs }"
| "mem_calls m broker (Unregister x # cs) = do { m \<leftarrow> mem_unregister m broker x; mem_calls m broker cs }"

fun spec_calls ::
  "(u64 \<rightharpoonup> 'w agx_display_listener) \<Rightarrow> 'w agx_display_broker \<Rightarrow> display_call list \<Rightarrow> 'w agx_display_broker option" where
  "spec_calls L b [] = Some b"
| "spec_calls L b (Register x # cs) =
     do { l \<leftarrow> L x; b \<leftarrow> agx_display_register b (x + listener_node) l; spec_calls L b cs }"
| "spec_calls L b (Unregister x # cs) = do { b \<leftarrow> agx_display_unregister b (x + listener_node); spec_calls L b cs }"

section \<open>Circular lists in memory\<close>

fun links :: "'a list_mem_scheme \<Rightarrow> u64 list \<Rightarrow> bool" where
  "links m (a # b # xs) \<longleftrightarrow> lm_next m a = Some b \<and> lm_prev m b = Some a \<and> links m (b # xs)"
| "links m xs \<longleftrightarrow> True"

definition dlist :: "'a list_mem_scheme \<Rightarrow> u64 \<Rightarrow> u64 list \<Rightarrow> bool" where
  "dlist m head ps \<longleftrightarrow> distinct (head # ps) \<and> links m (head # ps @ [head])"

lemma links_append: "links m (xs @ a # ys) \<longleftrightarrow> links m (xs @ [a]) \<and> links m (a # ys)"
  by (induction m "xs @ [a]" arbitrary: xs rule: links.induct) (auto simp: Cons_eq_append_conv append_eq_Cons_conv)

lemma links_cong:
  "(\<forall>q\<in>set (butlast xs). lm_next m q = lm_next m' q) \<Longrightarrow> (\<forall>q\<in>set (tl xs). lm_prev m q = lm_prev m' q) \<Longrightarrow>
     links m xs = links m' xs"
  by (induction m xs rule: links.induct) auto

lemma dlist_ends:
  assumes "dlist m head ps"
  obtains zs t where "head # ps = zs @ [t]" "links m (zs @ [t])" "lm_next m t = Some head" "lm_prev m head = Some t"
proof -
  obtain zs t where z: "head # ps = zs @ [t]" by (cases "head # ps" rule: rev_cases) auto
  have "links m ((head # ps) @ [head])" using assms by (simp add: dlist_def)
  then have "links m (zs @ t # [head])" unfolding z by simp
  then have "links m (zs @ [t]) \<and> links m (t # [head])" by (subst (asm) links_append)
  with z that show ?thesis by simp
qed

lemma dlist_nodes:
  assumes "dlist m head ps" "p \<in> set (head # ps)"
  shows "lm_next m p \<noteq> None" "lm_prev m p \<noteq> None"
proof -
  have n: "links m xs \<Longrightarrow> q \<in> set (butlast xs) \<Longrightarrow> lm_next m q \<noteq> None" for xs q
    by (induction m xs rule: links.induct) auto
  have v: "links m xs \<Longrightarrow> q \<in> set (tl xs) \<Longrightarrow> lm_prev m q \<noteq> None" for xs q
    by (induction m xs rule: links.induct) auto
  show "lm_next m p \<noteq> None" "lm_prev m p \<noteq> None"
    using assms n [of "head # ps @ [head]" p] v [of "head # ps @ [head]" p] by (auto simp: dlist_def butlast_append)
qed

lemma INIT_LIST_HEAD_dlist:
  assumes "lm_next m head \<noteq> None" "lm_prev m head \<noteq> None"
  shows "\<exists>m'. INIT_LIST_HEAD m head = Some m' \<and> dlist m' head [] \<and> list_mem.more m' = list_mem.more m \<and>
     dom (lm_next m') = dom (lm_next m) \<and> dom (lm_prev m') = dom (lm_prev m)"
  using assms by (auto simp: INIT_LIST_HEAD_def set_next_def set_prev_def dlist_def)

lemma list_add_tail_dlist:
  assumes d: "dlist m head ps" and e: "e \<notin> set (head # ps)" "lm_next m e \<noteq> None" "lm_prev m e \<noteq> None"
  shows "\<exists>m'. list_add_tail m e head = Some m' \<and> dlist m' head (ps @ [e]) \<and> list_mem.more m' = list_mem.more m \<and>
     dom (lm_next m') = dom (lm_next m) \<and> dom (lm_prev m') = dom (lm_prev m)"
proof -
  obtain zs t where z: "head # ps = zs @ [t]" "links m (zs @ [t])" and
    t: "lm_next m t = Some head" "lm_prev m head = Some t" using d by (rule dlist_ends)
  define m' where "m' = m\<lparr>lm_next := (lm_next m)(e \<mapsto> head, t \<mapsto> e), lm_prev := (lm_prev m)(e \<mapsto> t, head \<mapsto> e)\<rparr>"
  have te: "t \<noteq> e" "e \<noteq> head" using e z(1) by (auto simp: Cons_eq_append_conv)
  have "list_add_tail m e head = Some m'"
    using t e te by (simp add: list_add_tail_def set_next_def set_prev_def m'_def)
  moreover have "links m' (zs @ [t])"
  proof (subst links_cong [of _ m' m])
    have "distinct (zs @ [t])" "e \<notin> set (zs @ [t])" using d e z(1) by (auto simp: dlist_def)
    then show "\<forall>q\<in>set (butlast (zs @ [t])). lm_next m' q = lm_next m q" by (auto simp: m'_def)
    have "tl (zs @ [t]) = ps" using z(1) by (metis list.sel(3))
    then show "\<forall>q\<in>set (tl (zs @ [t])). lm_prev m' q = lm_prev m q"
      using d e by (auto simp: m'_def dlist_def)
  qed (use z in auto)
  then have "links m' (zs @ t # [e, head])"
    using te by (subst links_append) (simp add: m'_def)
  then have "links m' ((zs @ [t]) @ [e, head])" by simp
  then have "dlist m' head (ps @ [e])"
    using d e unfolding z(1) [symmetric] by (auto simp: dlist_def)
  moreover have "list_mem.more m' = list_mem.more m" "dom (lm_next m') = dom (lm_next m)" "dom (lm_prev m') = dom (lm_prev m)"
    using t e by (auto simp: m'_def)
  ultimately show ?thesis by blast
qed

lemma list_del_dlist:
  assumes d: "dlist m head (xs @ e # ys)"
  shows "\<exists>m'. list_del m e = Some m' \<and> dlist m' head (xs @ ys) \<and> list_mem.more m' = list_mem.more m \<and>
     dom (lm_next m') = dom (lm_next m) \<and> dom (lm_prev m') = dom (lm_prev m) \<and> lm_next m' e = Some 0 \<and> lm_prev m' e = Some 0"
proof -
  obtain as p where p: "head # xs = as @ [p]" by (cases "head # xs" rule: rev_cases) auto
  obtain n bs where n: "ys @ [head] = n # bs" by (cases "ys @ [head]") auto
  have dist: "distinct (head # xs @ e # ys)" using d by (simp add: dlist_def)
  have "links m ((as @ [p]) @ e # n # bs)"
    using d unfolding p [symmetric] n [symmetric] by (simp add: dlist_def)
  then have "links m (as @ p # e # n # bs)" by simp
  then have "links m (as @ [p]) \<and> links m (p # e # n # bs)" by (subst (asm) links_append)
  then have pe: "links m (as @ [p])" "lm_next m p = Some e" "lm_prev m e = Some p"
    and en: "lm_next m e = Some n" "lm_prev m n = Some e" "links m (n # bs)" by auto
  have "p \<in> set (head # xs)" "n \<in> set (ys @ [head])" unfolding p n by simp_all
  then have ne: "p \<noteq> e" "n \<noteq> e" using dist by auto
  define m' where "m' = m\<lparr>lm_next := (lm_next m)(p \<mapsto> n, e \<mapsto> 0), lm_prev := (lm_prev m)(n \<mapsto> p, e \<mapsto> 0)\<rparr>"
  have "list_del m e = Some m'"
    using pe en ne by (simp add: list_del_def set_next_def set_prev_def m'_def)
  moreover have "links m' (as @ [p])"
  proof (subst links_cong [of _ m' m])
    have "distinct (as @ [p])" "e \<notin> set (as @ [p])" using dist unfolding p [symmetric] by auto
    then show "\<forall>q\<in>set (butlast (as @ [p])). lm_next m' q = lm_next m q" by (auto simp: m'_def)
    have "tl (as @ [p]) = xs" using p by (metis list.sel(3))
    then show "\<forall>q\<in>set (tl (as @ [p])). lm_prev m' q = lm_prev m q"
      using dist \<open>n \<in> set (ys @ [head])\<close> by (auto simp: m'_def)
  qed (use pe in auto)
  moreover have "links m' (n # bs)"
  proof (subst links_cong [of _ m' m])
    have "butlast (n # bs) = ys" using n by (metis butlast_snoc)
    then show "\<forall>q\<in>set (butlast (n # bs)). lm_next m' q = lm_next m q"
      using dist \<open>p \<in> set (head # xs)\<close> by (auto simp: m'_def)
    have "distinct (n # bs)" "e \<notin> set (n # bs)" using dist unfolding n [symmetric] by auto
    then show "\<forall>q\<in>set (tl (n # bs)). lm_prev m' q = lm_prev m q" by (auto simp: m'_def)
  qed (use en in auto)
  moreover have "lm_next m' p = Some n" "lm_prev m' n = Some p" using ne by (simp_all add: m'_def)
  ultimately have "links m' (as @ p # n # bs)" by (subst links_append) simp
  then have "links m' ((as @ [p]) @ n # bs)" by simp
  then have "dlist m' head (xs @ ys)"
    using dist unfolding p [symmetric] n [symmetric] by (simp add: dlist_def)
  moreover have "list_mem.more m' = list_mem.more m" "dom (lm_next m') = dom (lm_next m)" "dom (lm_prev m') = dom (lm_prev m)"
    "lm_next m' e = Some 0" "lm_prev m' e = Some 0"
    using pe en by (auto simp: m'_def)
  ultimately show ?thesis using \<open>list_del m e = Some m'\<close> by blast
qed

text \<open>The loop ends and visits the entries of the list in order.\<close>

fun visit :: "(u64 \<Rightarrow> 'w \<Rightarrow> 'w option) \<Rightarrow> u64 list \<Rightarrow> 'w \<Rightarrow> 'w option" where
  "visit body [] w = Some w"
| "visit body (e # es) w = do { w \<leftarrow> body e w; visit body es w }"

lemma for_each_from_visits:
  "links m (ps @ [head]) \<Longrightarrow> head \<notin> set ps \<Longrightarrow>
     for_each_from m head off body (list_entry (hd (ps @ [head])) off) w = visit body (map (\<lambda>p. list_entry p off) ps) w"
proof (induction ps arbitrary: w)
  case Nil
  then show ?case by (subst for_each_from.simps) (simp add: list_entry_def)
next
  case (Cons p ps)
  have "lm_next m p = Some (hd (ps @ [head]))" "links m (ps @ [head])"
    using Cons.prems(1) by (cases ps; simp)+
  with Cons show ?case by (subst for_each_from.simps) (auto simp: list_entry_def)
qed

lemma list_for_each_entry_visits:
  assumes "dlist m head ps"
  shows "list_for_each_entry m head off body w = visit body (map (\<lambda>p. list_entry p off) ps) w"
proof -
  have "lm_next m head = Some (hd (ps @ [head]))" "links m (ps @ [head])" "head \<notin> set ps"
    using assms by (cases ps; simp add: dlist_def)+
  then show ?thesis by (simp add: list_for_each_entry_def for_each_from_visits)
qed

section \<open>The broker in memory and the sequence of its listeners\<close>

text \<open>The memory of an idle broker with the given listeners; \<open>D\<close> are the addresses that hold a list node.\<close>

definition broker_rel :: "u64 set \<Rightarrow> (u64 \<rightharpoonup> 'w agx_display_listener) \<Rightarrow> u64 \<Rightarrow> 'w display_mem \<Rightarrow> 'w agx_display_broker \<Rightarrow> bool" where
  "broker_rel D L broker m b \<longleftrightarrow> dlist m broker (map fst (db_listeners b)) \<and> broker_ok b \<and> \<not> dm_lock m \<and>
     dm_listener m = L \<and> (\<forall>(p, l) \<in> set (db_listeners b). L (list_entry p listener_node) = Some l) \<and>
     D \<subseteq> dom (lm_next m) \<and> D \<subseteq> dom (lm_prev m)"

text \<open>A list operation changes the links only; the lock and the listeners are the rest of the record.\<close>

lemma display_more:
  fixes m m' :: "'w display_mem"
  shows "list_mem.more m' = list_mem.more m \<Longrightarrow> dm_lock m' = dm_lock m \<and> dm_listener m' = dm_listener m"
  by (cases m; cases m') simp

lemma dlist_update [simp]: "dlist (m\<lparr>dm_lock := x\<rparr>) head ps = dlist m head ps"
proof -
  have "links (m\<lparr>dm_lock := x\<rparr>) xs = links m xs" for xs by (rule links_cong) simp_all
  then show ?thesis by (simp add: dlist_def)
qed

lemma init_rel:
  assumes "broker \<in> D" "D \<subseteq> dom (lm_next m)" "D \<subseteq> dom (lm_prev m)"
  shows "\<exists>m'. mem_broker_init m broker = Some m' \<and> broker_rel D (dm_listener m) broker m' agx_display_broker_init"
proof -
  have "lm_next m broker \<noteq> None" "lm_prev m broker \<noteq> None" using assms by auto
  from INIT_LIST_HEAD_dlist [OF this] obtain m' where m': "INIT_LIST_HEAD m broker = Some m'" "dlist m' broker []"
    "list_mem.more m' = list_mem.more m" "dom (lm_next m') = dom (lm_next m)" "dom (lm_prev m') = dom (lm_prev m)" by blast
  then show ?thesis
    using assms display_more [OF m'(3)] broker_init_ok
    by (simp add: mem_broker_init_def broker_rel_def agx_display_broker_init_def)
qed

lemma register_rel:
  assumes rel: "broker_rel D L broker m b" and x: "x + listener_node \<in> D" "x + listener_node \<noteq> broker" "L x = Some l"
    and b': "agx_display_register b (x + listener_node) l = Some b'"
  shows "\<exists>m'. mem_register m broker x = Some m' \<and> broker_rel D L broker m' b'"
proof -
  let ?e = "x + listener_node" and ?m = "m\<lparr>dm_lock := True\<rparr>"
  have fresh: "?e \<notin> fst ` set (db_listeners b)"
    using b' by (auto simp: agx_display_register_def spin_lock_def bind_eq_Some_conv split: if_splits)
  have b: "broker_ok b" using rel by (simp add: broker_rel_def)
  note reg = register_ok [OF b fresh, of l]
  have d: "dlist ?m broker (map fst (db_listeners b))" using rel by (simp add: broker_rel_def)
  have e: "?e \<notin> set (broker # map fst (db_listeners b))" using fresh x(2) by simp
  have n: "lm_next ?m ?e \<noteq> None" "lm_prev ?m ?e \<noteq> None" using rel x(1) by (auto simp: broker_rel_def)
  from list_add_tail_dlist [OF d e n] obtain m' where m': "list_add_tail ?m ?e broker = Some m'"
    "dlist m' broker (map fst (db_listeners b) @ [?e])" "list_mem.more m' = list_mem.more ?m"
    "dom (lm_next m') = dom (lm_next ?m)" "dom (lm_prev m') = dom (lm_prev ?m)" by blast
  show ?thesis
    using rel m' display_more [OF m'(3)] reg b' x(3)
    by (auto simp: broker_rel_def mem_register_def mem_spin_lock_def mem_spin_unlock_def list_entry_def)
qed

lemma unregister_rel:
  assumes rel: "broker_rel D L broker m b" and b': "agx_display_unregister b (x + listener_node) = Some b'"
  shows "\<exists>m'. mem_unregister m broker x = Some m' \<and> broker_rel D L broker m' b'"
proof -
  let ?e = "x + listener_node" and ?m = "m\<lparr>dm_lock := True\<rparr>"
  have mem: "?e \<in> fst ` set (db_listeners b)"
    using b' by (auto simp: agx_display_unregister_def spin_lock_def bind_eq_Some_conv split: if_splits)
  have b: "broker_ok b" using rel by (simp add: broker_rel_def)
  from mem obtain l xs ys where s: "db_listeners b = xs @ (?e, l) # ys"
    by (auto simp: in_set_conv_decomp)
  have dist: "distinct (map fst (xs @ (?e, l) # ys))" using b s by (simp add: broker_ok_def)
  have keep: "filter (\<lambda>(q, l). q \<noteq> ?e) zs = zs" if "?e \<notin> fst ` set zs" for zs :: "(u64 \<times> 'a agx_display_listener) list"
    using that by (force simp: filter_id_conv)
  have f: "filter (\<lambda>(q, l). q \<noteq> ?e) (db_listeners b) = xs @ ys"
    using dist keep [of xs] keep [of ys] by (simp add: s)
  note unreg = unregister_ok [OF b mem, unfolded f]
  have "dlist ?m broker (map fst xs @ ?e # map fst ys)" using rel s by (simp add: broker_rel_def)
  from list_del_dlist [OF this] obtain m' where m': "list_del ?m ?e = Some m'"
    "dlist m' broker (map fst xs @ map fst ys)" "list_mem.more m' = list_mem.more ?m"
    "dom (lm_next m') = dom (lm_next ?m)" "dom (lm_prev m') = dom (lm_prev ?m)" by blast
  show ?thesis
    using rel m' display_more [OF m'(3)] unreg b' s
    by (auto simp: broker_rel_def mem_unregister_def mem_spin_lock_def mem_spin_unlock_def)
qed

lemma visit_listeners:
  "\<forall>(p, l)\<in>set ls. L (list_entry p listener_node) = Some l \<Longrightarrow>
   visit (\<lambda>x w. do { l \<leftarrow> L x; Some (dl_callback l (dl_cookie l) from to w) })
     (map (\<lambda>p. list_entry p listener_node) (map fst ls)) w =
   Some (fold (\<lambda>(q, l) w. dl_callback l (dl_cookie l) from to w) ls w)"
  by (induction ls arbitrary: w) auto

lemma notify_rel:
  assumes "broker_rel D L broker m b"
  shows "mem_notify m broker from to w = map_option (\<lambda>(_, w'). (m, w')) (agx_display_notify b from to w)"
proof -
  have "dlist (m\<lparr>dm_lock := True\<rparr>) broker (map fst (db_listeners b))" "\<not> dm_lock m" "dm_listener m = L" "broker_ok b"
    "\<forall>(p, l)\<in>set (db_listeners b). L (list_entry p listener_node) = Some l"
    using assms by (simp_all add: broker_rel_def)
  then show ?thesis
    by (simp add: mem_notify_def mem_spin_lock_def mem_spin_unlock_def list_for_each_entry_visits visit_listeners notify_ok
        del: map_map)
qed

lemma calls_rel:
  assumes "broker_rel D L broker m b" "spec_calls L b cs = Some b'"
    and "\<forall>x. Register x \<in> set cs \<longrightarrow> x + listener_node \<in> D \<and> x + listener_node \<noteq> broker"
  shows "\<exists>m'. mem_calls m broker cs = Some m' \<and> broker_rel D L broker m' b'"
  using assms
proof (induction cs arbitrary: m b)
  case (Cons c cs)
  show ?case
  proof (cases c)
    case (Register x)
    then obtain l b1 where "L x = Some l" "agx_display_register b (x + listener_node) l = Some b1" "spec_calls L b1 cs = Some b'"
      using Cons.prems by (auto simp: bind_eq_Some_conv)
    moreover from this obtain m1 where "mem_register m broker x = Some m1" "broker_rel D L broker m1 b1"
      using register_rel [OF Cons.prems(1)] Cons.prems(3) Register by fastforce
    ultimately show ?thesis using Cons Register by fastforce
  next
    case (Unregister x)
    then obtain b1 where "agx_display_unregister b (x + listener_node) = Some b1" "spec_calls L b1 cs = Some b'"
      using Cons.prems by (auto simp: bind_eq_Some_conv)
    moreover from this obtain m1 where "mem_unregister m broker x = Some m1" "broker_rel D L broker m1 b1"
      using unregister_rel [OF Cons.prems(1)] by blast
    ultimately show ?thesis using Cons Unregister by fastforce
  qed
qed simp

section \<open>Properties\<close>

text \<open>C9. The broker on pointers implements the sequence of listeners. After any calls of register and unregister that link no
  node twice and unlink only linked nodes, the circular list runs through exactly the registered listeners in the order
  of their registration; no access is outside a node. A notification ends, leaves the memory as it was and
  calls each of them once, in that order and with its own cookie, as the broker of theory \<open>Display\<close> does.\<close>

theorem display_list_refines:
  assumes "spec_calls (dm_listener m) agx_display_broker_init calls = Some b"
    and "broker \<in> dom (lm_next m) \<inter> dom (lm_prev m)"
    and "\<forall>x. Register x \<in> set calls \<longrightarrow> x + listener_node \<in> dom (lm_next m) \<inter> dom (lm_prev m) - {broker}"
  shows "\<exists>m0 m'. mem_broker_init m broker = Some m0 \<and> mem_calls m0 broker calls = Some m' \<and>
     dlist m' broker (map fst (db_listeners b)) \<and>
     (\<forall>from to w. \<exists>w'. agx_display_notify b from to w = Some (b, w') \<and> mem_notify m' broker from to w = Some (m', w'))"
proof -
  let ?D = "dom (lm_next m) \<inter> dom (lm_prev m)"
  obtain m0 where m0: "mem_broker_init m broker = Some m0" "broker_rel ?D (dm_listener m) broker m0 agx_display_broker_init"
    using init_rel [of broker ?D m] assms(2) by auto
  obtain m' where m': "mem_calls m0 broker calls = Some m'" "broker_rel ?D (dm_listener m) broker m' b"
    using calls_rel [OF m0(2) assms(1)] assms(3) by auto
  have b: "broker_ok b" "dlist m' broker (map fst (db_listeners b))" using m'(2) by (simp_all add: broker_rel_def)
  show ?thesis
    using m0(1) m'(1) b(2) notify_rel [OF m'(2)] notify_ok [OF b(1)] by (intro exI conjI allI) simp_all
qed

text \<open>Two listeners at 64 and 128, the broker at 8.\<close>

definition two_listeners :: "(u64 \<times> agx_power_state \<times> agx_power_state) list display_mem" where
  "two_listeners =
     \<lparr>lm_next = [8 \<mapsto> 0, 80 \<mapsto> 0, 144 \<mapsto> 0], lm_prev = [8 \<mapsto> 0, 80 \<mapsto> 0, 144 \<mapsto> 0],
      dm_listener = [64 \<mapsto> \<lparr>dl_callback = (\<lambda>c old new w. w @ [(c, old, new)]), dl_cookie = 1\<rparr>,
        128 \<mapsto> \<lparr>dl_callback = (\<lambda>c old new w. w @ [(c, old, new)]), dl_cookie = 2\<rparr>],
      dm_lock = True\<rparr>"

theorem display_list_refines_witness:
  "\<exists>m0 m'. mem_broker_init two_listeners 8 = Some m0 \<and>
     mem_calls m0 8 [Register 64, Register 128, Unregister 64, Register 64] = Some m' \<and>
     dlist m' 8 [144, 80] \<and>
     mem_notify m' 8 AGX_POWER_OFF AGX_POWER_ON [] =
       Some (m', [(2, AGX_POWER_OFF, AGX_POWER_ON), (1, AGX_POWER_OFF, AGX_POWER_ON)])"
proof -
  let ?cs = "[Register 64, Register 128, Unregister 64, Register 64]"
  obtain b where b: "spec_calls (dm_listener two_listeners) agx_display_broker_init ?cs = Some b"
    "map fst (db_listeners b) = [144, 80]"
    "agx_display_notify b AGX_POWER_OFF AGX_POWER_ON [] = Some (b, [(2, AGX_POWER_OFF, AGX_POWER_ON), (1, AGX_POWER_OFF, AGX_POWER_ON)])"
    by (simp add: two_listeners_def agx_display_broker_init_def agx_display_register_def agx_display_unregister_def
        agx_display_notify_def spin_lock_def spin_unlock_def listener_node_def)
  have "8 \<in> dom (lm_next two_listeners) \<inter> dom (lm_prev two_listeners)"
    "\<forall>x. Register x \<in> set ?cs \<longrightarrow> x + listener_node \<in> dom (lm_next two_listeners) \<inter> dom (lm_prev two_listeners) - {8}"
    by (auto simp: two_listeners_def listener_node_def)
  from display_list_refines [OF b(1) this] b(2,3) show ?thesis by (metis option.inject prod.inject)
qed

end
