(* ===== verification/Rtkit.thy ===== *)
theory Rtkit
  imports Wire
begin

text \<open>
  The RTKit protocol core of \<^verbatim>\<open>src/rtkit.c\<close>. The state is \<^verbatim>\<open>struct agx_rtkit\<close>, field by field; the
  transport behind \<^verbatim>\<open>struct agx_rtkit_ops\<close> is a parameter: each callback is a function
  on the state behind the opaque \<^verbatim>\<open>ctx\<close> pointer, and the three callbacks the code tests for
  NULL are options. A C function that changes the protocol state returns the new state.
\<close>

section \<open>Constants of rtkit.h\<close>

definition AGX_RTKIT_EP_MGMT :: u32 where "AGX_RTKIT_EP_MGMT = 0"
definition AGX_RTKIT_EP_CRASHLOG :: u32 where "AGX_RTKIT_EP_CRASHLOG = 1"
definition AGX_RTKIT_EP_SYSLOG :: u32 where "AGX_RTKIT_EP_SYSLOG = 2"
definition AGX_RTKIT_EP_DEBUG :: u32 where "AGX_RTKIT_EP_DEBUG = 3"
definition AGX_RTKIT_EP_IOREPORT :: u32 where "AGX_RTKIT_EP_IOREPORT = 4"
definition AGX_RTKIT_EP_OSLOG :: u32 where "AGX_RTKIT_EP_OSLOG = 8"
definition AGX_RTKIT_EP_APP_START :: u32 where "AGX_RTKIT_EP_APP_START = 0x20"
definition AGX_RTKIT_EP_FIRMWARE :: u32 where "AGX_RTKIT_EP_FIRMWARE = 0x20"
definition AGX_RTKIT_EP_DOORBELL :: u32 where "AGX_RTKIT_EP_DOORBELL = 0x21"
definition AGX_RTKIT_EP_COUNT :: u32 where "AGX_RTKIT_EP_COUNT = 256"

lemmas rtkit_ep_defs =
  AGX_RTKIT_EP_MGMT_def AGX_RTKIT_EP_CRASHLOG_def AGX_RTKIT_EP_SYSLOG_def AGX_RTKIT_EP_DEBUG_def
  AGX_RTKIT_EP_IOREPORT_def AGX_RTKIT_EP_OSLOG_def AGX_RTKIT_EP_APP_START_def
  AGX_RTKIT_EP_FIRMWARE_def AGX_RTKIT_EP_DOORBELL_def AGX_RTKIT_EP_COUNT_def

definition AGX_RTKIT_MGMT_HELLO :: u32 where "AGX_RTKIT_MGMT_HELLO = 1"
definition AGX_RTKIT_MGMT_HELLO_REPLY :: u32 where "AGX_RTKIT_MGMT_HELLO_REPLY = 2"
definition AGX_RTKIT_MGMT_STARTEP :: u32 where "AGX_RTKIT_MGMT_STARTEP = 5"
definition AGX_RTKIT_MGMT_IOP_PWR :: u32 where "AGX_RTKIT_MGMT_IOP_PWR = 6"
definition AGX_RTKIT_MGMT_IOP_PWR_ACK :: u32 where "AGX_RTKIT_MGMT_IOP_PWR_ACK = 7"
definition AGX_RTKIT_MGMT_EPMAP :: u32 where "AGX_RTKIT_MGMT_EPMAP = 8"
definition AGX_RTKIT_MGMT_EPMAP_REPLY :: u32 where "AGX_RTKIT_MGMT_EPMAP_REPLY = 8"
definition AGX_RTKIT_MGMT_AP_PWR :: u32 where "AGX_RTKIT_MGMT_AP_PWR = 0xb"
definition AGX_RTKIT_MGMT_AP_PWR_ACK :: u32 where "AGX_RTKIT_MGMT_AP_PWR_ACK = 0xb"

lemmas rtkit_mgmt_defs =
  AGX_RTKIT_MGMT_HELLO_def AGX_RTKIT_MGMT_HELLO_REPLY_def AGX_RTKIT_MGMT_STARTEP_def
  AGX_RTKIT_MGMT_IOP_PWR_def AGX_RTKIT_MGMT_IOP_PWR_ACK_def AGX_RTKIT_MGMT_EPMAP_def
  AGX_RTKIT_MGMT_EPMAP_REPLY_def AGX_RTKIT_MGMT_AP_PWR_def AGX_RTKIT_MGMT_AP_PWR_ACK_def

definition AGX_RTKIT_TYPE_SHIFT :: nat where "AGX_RTKIT_TYPE_SHIFT = 52"
definition AGX_RTKIT_TYPE_MASK :: u64 where "AGX_RTKIT_TYPE_MASK = 0xff"
definition AGX_RTKIT_OSLOG_TYPE_SHIFT :: nat where "AGX_RTKIT_OSLOG_TYPE_SHIFT = 56"
definition AGX_RTKIT_HELLO_MINVER_SHIFT :: nat where "AGX_RTKIT_HELLO_MINVER_SHIFT = 0"
definition AGX_RTKIT_HELLO_MAXVER_SHIFT :: nat where "AGX_RTKIT_HELLO_MAXVER_SHIFT = 16"
definition AGX_RTKIT_HELLO_VER_MASK :: u64 where "AGX_RTKIT_HELLO_VER_MASK = 0xffff"
definition AGX_RTKIT_EPMAP_LAST :: u64 where "AGX_RTKIT_EPMAP_LAST = AGX_BIT64 51"
definition AGX_RTKIT_EPMAP_MORE :: u64 where "AGX_RTKIT_EPMAP_MORE = AGX_BIT64 0"
definition AGX_RTKIT_EPMAP_BASE_SHIFT :: nat where "AGX_RTKIT_EPMAP_BASE_SHIFT = 32"
definition AGX_RTKIT_EPMAP_BASE_MASK :: u64 where "AGX_RTKIT_EPMAP_BASE_MASK = 0x7"
definition AGX_RTKIT_EPMAP_BITMAP_MASK :: u64 where "AGX_RTKIT_EPMAP_BITMAP_MASK = 0xffffffff"
definition AGX_RTKIT_STARTEP_EP_SHIFT :: nat where "AGX_RTKIT_STARTEP_EP_SHIFT = 32"
definition AGX_RTKIT_STARTEP_EP_MASK :: u64 where "AGX_RTKIT_STARTEP_EP_MASK = 0xff"
definition AGX_RTKIT_STARTEP_FLAG :: u64 where "AGX_RTKIT_STARTEP_FLAG = AGX_BIT64 1"
definition AGX_RTKIT_PWR_STATE_MASK :: u64 where "AGX_RTKIT_PWR_STATE_MASK = 0xffff"
definition AGX_RTKIT_PROTO_MIN :: u32 where "AGX_RTKIT_PROTO_MIN = 11"
definition AGX_RTKIT_PROTO_MAX :: u32 where "AGX_RTKIT_PROTO_MAX = 12"
definition AGX_RTKIT_BUFFER_REQUEST :: u32 where "AGX_RTKIT_BUFFER_REQUEST = 1"
definition AGX_RTKIT_SYSLOG_LOG :: u32 where "AGX_RTKIT_SYSLOG_LOG = 5"
definition AGX_RTKIT_SYSLOG_INIT :: u32 where "AGX_RTKIT_SYSLOG_INIT = 8"
definition AGX_RTKIT_IOREPORT_ACK_A :: u32 where "AGX_RTKIT_IOREPORT_ACK_A = 0x8"
definition AGX_RTKIT_IOREPORT_ACK_B :: u32 where "AGX_RTKIT_IOREPORT_ACK_B = 0xc"
definition AGX_RTKIT_CRASHLOG_CRASH :: u32 where "AGX_RTKIT_CRASHLOG_CRASH = 1"
definition AGX_RTKIT_BUFREQ_SIZE_SHIFT :: nat where "AGX_RTKIT_BUFREQ_SIZE_SHIFT = 44"
definition AGX_RTKIT_BUFREQ_SIZE_MASK :: u64 where "AGX_RTKIT_BUFREQ_SIZE_MASK = 0xff"
definition AGX_RTKIT_BUFREQ_IOVA_MASK :: u64 where "AGX_RTKIT_BUFREQ_IOVA_MASK = 0xfffffffffff"
definition AGX_RTKIT_OSLOG_SIZE_SHIFT :: nat where "AGX_RTKIT_OSLOG_SIZE_SHIFT = 36"
definition AGX_RTKIT_OSLOG_SIZE_MASK :: u64 where "AGX_RTKIT_OSLOG_SIZE_MASK = 0xfffff"
definition AGX_RTKIT_OSLOG_IOVA_MASK :: u64 where "AGX_RTKIT_OSLOG_IOVA_MASK = 0xfffffffff"
definition AGX_RTKIT_PAGE_SHIFT :: nat where "AGX_RTKIT_PAGE_SHIFT = 12"
definition AGX_RTKIT_BUFFER_CRASHLOG :: u64 where "AGX_RTKIT_BUFFER_CRASHLOG = AGX_BIT64 0"
definition AGX_RTKIT_BUFFER_SYSLOG :: u64 where "AGX_RTKIT_BUFFER_SYSLOG = AGX_BIT64 1"
definition AGX_RTKIT_BUFFER_IOREPORT :: u64 where "AGX_RTKIT_BUFFER_IOREPORT = AGX_BIT64 2"
definition AGX_RTKIT_BUFFER_OSLOG :: u64 where "AGX_RTKIT_BUFFER_OSLOG = AGX_BIT64 3"

lemmas rtkit_field_defs =
  AGX_RTKIT_TYPE_SHIFT_def AGX_RTKIT_OSLOG_TYPE_SHIFT_def AGX_RTKIT_HELLO_MINVER_SHIFT_def
  AGX_RTKIT_HELLO_MAXVER_SHIFT_def AGX_RTKIT_EPMAP_BASE_SHIFT_def AGX_RTKIT_STARTEP_EP_SHIFT_def
  AGX_RTKIT_BUFREQ_SIZE_SHIFT_def AGX_RTKIT_OSLOG_SIZE_SHIFT_def AGX_RTKIT_PAGE_SHIFT_def

lemmas rtkit_type_defs =
  AGX_RTKIT_BUFFER_REQUEST_def AGX_RTKIT_SYSLOG_LOG_def AGX_RTKIT_SYSLOG_INIT_def
  AGX_RTKIT_IOREPORT_ACK_A_def AGX_RTKIT_IOREPORT_ACK_B_def AGX_RTKIT_CRASHLOG_CRASH_def

lemma rtkit_masks [agx_mask]:
  "AGX_RTKIT_TYPE_MASK = mask 8" "AGX_RTKIT_HELLO_VER_MASK = mask 16"
  "AGX_RTKIT_EPMAP_BASE_MASK = mask 3" "AGX_RTKIT_EPMAP_BITMAP_MASK = mask 32"
  "AGX_RTKIT_STARTEP_EP_MASK = mask 8" "AGX_RTKIT_PWR_STATE_MASK = mask 16"
  "AGX_RTKIT_BUFREQ_SIZE_MASK = mask 8" "AGX_RTKIT_BUFREQ_IOVA_MASK = mask 44"
  "AGX_RTKIT_OSLOG_SIZE_MASK = mask 20" "AGX_RTKIT_OSLOG_IOVA_MASK = mask 36"
  by (simp_all add: mask_eq_exp_minus_1 AGX_RTKIT_TYPE_MASK_def AGX_RTKIT_HELLO_VER_MASK_def
      AGX_RTKIT_EPMAP_BASE_MASK_def AGX_RTKIT_EPMAP_BITMAP_MASK_def AGX_RTKIT_STARTEP_EP_MASK_def
      AGX_RTKIT_PWR_STATE_MASK_def AGX_RTKIT_BUFREQ_SIZE_MASK_def AGX_RTKIT_BUFREQ_IOVA_MASK_def
      AGX_RTKIT_OSLOG_SIZE_MASK_def AGX_RTKIT_OSLOG_IOVA_MASK_def)

section \<open>State\<close>

text \<open>The callbacks: \<open>op_buffer\<close> returns the C status and the value of \<^verbatim>\<open>*iova\<close> afterwards.\<close>

record 'c agx_rtkit_ops =
  op_send :: "'c \<Rightarrow> u32 \<Rightarrow> u64 \<Rightarrow> int \<times> 'c"
  op_buffer :: "('c \<Rightarrow> u32 \<Rightarrow> u64 \<Rightarrow> u64 \<Rightarrow> (int \<times> u64) \<times> 'c) option"
  op_app :: "('c \<Rightarrow> u32 \<Rightarrow> u64 \<Rightarrow> 'c) option"
  op_crashed :: "('c \<Rightarrow> 'c) option"

record 'c agx_rtkit =
  rtk_ops :: "'c agx_rtkit_ops"
  rtk_ctx :: 'c
  rtk_endpoints :: "u32 list"
  rtk_buffers :: u32
  rtk_iop_power :: u32
  rtk_ap_power :: u32
  rtk_version :: u32
  rtk_hello_done :: u8
  rtk_epmap_done :: u8
  rtk_iop_acked :: u8
  rtk_ap_acked :: u8
  rtk_crashed :: u8
  rtk_error :: int
  rtk_rx_count :: u64
  rtk_stray_count :: u64
  rtk_unknown_count :: u64
  rtk_last_unknown :: u64

section \<open>Functions of rtkit.c\<close>

definition agx_rtkit_mgmt_msg :: "u32 \<Rightarrow> u64 \<Rightarrow> u64" where
  "agx_rtkit_mgmt_msg type payload =
     (payload AND NOT (push_bit AGX_RTKIT_TYPE_SHIFT AGX_RTKIT_TYPE_MASK)) OR
     AGX_FIELD_PUT (ucast type) AGX_RTKIT_TYPE_SHIFT AGX_RTKIT_TYPE_MASK"

definition agx_rtkit_fail :: "'c agx_rtkit \<Rightarrow> int \<Rightarrow> 'c agx_rtkit" where
  "agx_rtkit_fail rtk error = (if rtk_error rtk = 0 then rtk\<lparr>rtk_error := error\<rparr> else rtk)"

definition agx_rtkit_send :: "'c agx_rtkit \<Rightarrow> u32 \<Rightarrow> u64 \<Rightarrow> int \<times> 'c agx_rtkit" where
  "agx_rtkit_send rtk endpoint message =
     (let (ret, ctx) = op_send (rtk_ops rtk) (rtk_ctx rtk) endpoint message;
          rtk = rtk\<lparr>rtk_ctx := ctx\<rparr>
      in (ret, if ret \<noteq> 0 then agx_rtkit_fail rtk ret else rtk))"

definition agx_rtkit_mgmt_send :: "'c agx_rtkit \<Rightarrow> u32 \<Rightarrow> u64 \<Rightarrow> int \<times> 'c agx_rtkit" where
  "agx_rtkit_mgmt_send rtk type payload =
     agx_rtkit_send rtk AGX_RTKIT_EP_MGMT (agx_rtkit_mgmt_msg type payload)"

definition agx_rtkit_note_unknown :: "'c agx_rtkit \<Rightarrow> u64 \<Rightarrow> 'c agx_rtkit" where
  "agx_rtkit_note_unknown rtk message =
     rtk\<lparr>rtk_unknown_count := rtk_unknown_count rtk + 1, rtk_last_unknown := message\<rparr>"

definition agx_rtkit_buffer_bit :: "u32 \<Rightarrow> u32" where
  "agx_rtkit_buffer_bit endpoint =
     (if endpoint = AGX_RTKIT_EP_CRASHLOG then ucast AGX_RTKIT_BUFFER_CRASHLOG
      else if endpoint = AGX_RTKIT_EP_SYSLOG then ucast AGX_RTKIT_BUFFER_SYSLOG
      else if endpoint = AGX_RTKIT_EP_IOREPORT then ucast AGX_RTKIT_BUFFER_IOREPORT
      else if endpoint = AGX_RTKIT_EP_OSLOG then ucast AGX_RTKIT_BUFFER_OSLOG
      else 0)"

definition agx_rtkit_init :: "'c agx_rtkit_ops \<Rightarrow> 'c \<Rightarrow> 'c agx_rtkit" where
  "agx_rtkit_init ops ctx =
     \<lparr>rtk_ops = ops, rtk_ctx = ctx,
      rtk_endpoints = (replicate (unat (AGX_RTKIT_EP_COUNT div 32)) 0)[0 := 1],
      rtk_buffers = 0, rtk_iop_power = AGX_PWR_OFF, rtk_ap_power = AGX_PWR_OFF, rtk_version = 0,
      rtk_hello_done = 0, rtk_epmap_done = 0, rtk_iop_acked = 0, rtk_ap_acked = 0, rtk_crashed = 0,
      rtk_error = 0, rtk_rx_count = 0, rtk_stray_count = 0, rtk_unknown_count = 0,
      rtk_last_unknown = 0\<rparr>"

definition agx_rtkit_has_endpoint :: "'c agx_rtkit \<Rightarrow> u32 \<Rightarrow> bool" where
  "agx_rtkit_has_endpoint rtk endpoint \<longleftrightarrow>
     \<not> AGX_RTKIT_EP_COUNT \<le> endpoint \<and>
     drop_bit (unat (endpoint mod 32)) (rtk_endpoints rtk ! unat (endpoint div 32)) AND 1 \<noteq> 0"

definition agx_rtkit_hello_done :: "'c agx_rtkit \<Rightarrow> bool" where
  "agx_rtkit_hello_done rtk \<longleftrightarrow> rtk_hello_done rtk \<noteq> 0"

definition agx_rtkit_epmap_done :: "'c agx_rtkit \<Rightarrow> bool" where
  "agx_rtkit_epmap_done rtk \<longleftrightarrow> rtk_epmap_done rtk \<noteq> 0"

definition agx_rtkit_iop_acked :: "'c agx_rtkit \<Rightarrow> bool" where
  "agx_rtkit_iop_acked rtk \<longleftrightarrow> rtk_iop_acked rtk \<noteq> 0"

definition agx_rtkit_ap_acked :: "'c agx_rtkit \<Rightarrow> bool" where
  "agx_rtkit_ap_acked rtk \<longleftrightarrow> rtk_ap_acked rtk \<noteq> 0"

definition agx_rtkit_crashed :: "'c agx_rtkit \<Rightarrow> bool" where
  "agx_rtkit_crashed rtk \<longleftrightarrow> rtk_crashed rtk \<noteq> 0"

definition agx_rtkit_running :: "'c agx_rtkit \<Rightarrow> bool" where
  "agx_rtkit_running rtk \<longleftrightarrow>
     rtk_iop_power rtk AND AGX_PWR_LEVEL_MASK = AGX_PWR_ON \<and>
     rtk_ap_power rtk AND AGX_PWR_LEVEL_MASK = AGX_PWR_ON"

definition agx_rtkit_error :: "'c agx_rtkit \<Rightarrow> int" where
  "agx_rtkit_error rtk = rtk_error rtk"

definition agx_rtkit_set_iop_power :: "'c agx_rtkit \<Rightarrow> u32 \<Rightarrow> int \<times> 'c agx_rtkit" where
  "agx_rtkit_set_iop_power rtk state =
     agx_rtkit_mgmt_send (rtk\<lparr>rtk_iop_acked := 0\<rparr>) AGX_RTKIT_MGMT_IOP_PWR
       (AGX_FIELD_PUT (ucast state) 0 AGX_RTKIT_PWR_STATE_MASK)"

definition agx_rtkit_set_ap_power :: "'c agx_rtkit \<Rightarrow> u32 \<Rightarrow> int \<times> 'c agx_rtkit" where
  "agx_rtkit_set_ap_power rtk state =
     agx_rtkit_mgmt_send (rtk\<lparr>rtk_ap_acked := 0\<rparr>) AGX_RTKIT_MGMT_AP_PWR
       (AGX_FIELD_PUT (ucast state) 0 AGX_RTKIT_PWR_STATE_MASK)"

definition agx_rtkit_start_endpoint :: "'c agx_rtkit \<Rightarrow> u32 \<Rightarrow> int \<times> 'c agx_rtkit" where
  "agx_rtkit_start_endpoint rtk endpoint =
     (if AGX_RTKIT_EP_COUNT \<le> endpoint then (AGX_EINVAL, rtk)
      else if \<not> agx_rtkit_has_endpoint rtk endpoint then (AGX_EINVAL, rtk)
      else if AGX_RTKIT_EP_APP_START \<le> endpoint \<and> \<not> agx_rtkit_running rtk then (AGX_EINVAL, rtk)
      else agx_rtkit_mgmt_send rtk AGX_RTKIT_MGMT_STARTEP
        (AGX_FIELD_PUT (ucast endpoint) AGX_RTKIT_STARTEP_EP_SHIFT AGX_RTKIT_STARTEP_EP_MASK OR
         AGX_RTKIT_STARTEP_FLAG))"

definition agx_rtkit_rx_hello :: "'c agx_rtkit \<Rightarrow> u64 \<Rightarrow> 'c agx_rtkit" where
  "agx_rtkit_rx_hello rtk message =
     (let min_ver = ucast (AGX_FIELD_GET message AGX_RTKIT_HELLO_MINVER_SHIFT AGX_RTKIT_HELLO_VER_MASK) :: u32;
          max_ver = ucast (AGX_FIELD_GET message AGX_RTKIT_HELLO_MAXVER_SHIFT AGX_RTKIT_HELLO_VER_MASK) :: u32
      in if min_ver > max_ver \<or> min_ver > AGX_RTKIT_PROTO_MAX \<or> max_ver < AGX_RTKIT_PROTO_MIN
         then agx_rtkit_fail rtk AGX_EINVAL
         else let want = if max_ver < AGX_RTKIT_PROTO_MAX then max_ver else AGX_RTKIT_PROTO_MAX;
                  rtk = rtk\<lparr>rtk_version := want\<rparr>;
                  reply = AGX_FIELD_PUT (ucast want) AGX_RTKIT_HELLO_MINVER_SHIFT AGX_RTKIT_HELLO_VER_MASK OR
                          AGX_FIELD_PUT (ucast want) AGX_RTKIT_HELLO_MAXVER_SHIFT AGX_RTKIT_HELLO_VER_MASK;
                  (ret, rtk) = agx_rtkit_mgmt_send rtk AGX_RTKIT_MGMT_HELLO_REPLY reply
              in if ret \<noteq> 0 then rtk else rtk\<lparr>rtk_hello_done := 1\<rparr>)"

text \<open>The loop of \<^verbatim>\<open>agx_rtkit_rx_epmap\<close> over the endpoints below the application range; the empty list is
  the end of the loop, where the map is marked complete.\<close>

fun epmap_start_loop :: "u32 list \<Rightarrow> 'c agx_rtkit \<Rightarrow> 'c agx_rtkit" where
  "epmap_start_loop [] rtk = rtk\<lparr>rtk_epmap_done := 1\<rparr>"
| "epmap_start_loop (endpoint # rest) rtk =
     (if \<not> agx_rtkit_has_endpoint rtk endpoint then epmap_start_loop rest rtk
      else if endpoint \<in> {AGX_RTKIT_EP_CRASHLOG, AGX_RTKIT_EP_SYSLOG, AGX_RTKIT_EP_DEBUG,
                          AGX_RTKIT_EP_IOREPORT, AGX_RTKIT_EP_OSLOG}
      then let (ret, rtk) = agx_rtkit_start_endpoint rtk endpoint
           in if ret \<noteq> 0 then rtk else epmap_start_loop rest rtk
      else epmap_start_loop rest (rtk\<lparr>rtk_unknown_count := rtk_unknown_count rtk + 1\<rparr>))"

definition agx_rtkit_rx_epmap :: "'c agx_rtkit \<Rightarrow> u64 \<Rightarrow> 'c agx_rtkit" where
  "agx_rtkit_rx_epmap rtk message =
     (let base = ucast (AGX_FIELD_GET message AGX_RTKIT_EPMAP_BASE_SHIFT AGX_RTKIT_EPMAP_BASE_MASK) :: u32;
          bitmap = ucast (AGX_FIELD_GET message 0 AGX_RTKIT_EPMAP_BITMAP_MASK) :: u32;
          reply = AGX_FIELD_PUT (ucast base) AGX_RTKIT_EPMAP_BASE_SHIFT AGX_RTKIT_EPMAP_BASE_MASK;
          rtk = rtk\<lparr>rtk_endpoints := (rtk_endpoints rtk)[unat base := rtk_endpoints rtk ! unat base OR bitmap]\<rparr>;
          reply = reply OR (if message AND AGX_RTKIT_EPMAP_LAST \<noteq> 0 then AGX_RTKIT_EPMAP_LAST
                            else AGX_RTKIT_EPMAP_MORE);
          (ret, rtk) = agx_rtkit_mgmt_send rtk AGX_RTKIT_MGMT_EPMAP_REPLY reply
      in if ret \<noteq> 0 then rtk
         else if message AND AGX_RTKIT_EPMAP_LAST = 0 then rtk
         else epmap_start_loop (map word_of_nat [1..<unat AGX_RTKIT_EP_APP_START]) rtk)"

definition agx_rtkit_rx_mgmt :: "'c agx_rtkit \<Rightarrow> u64 \<Rightarrow> 'c agx_rtkit" where
  "agx_rtkit_rx_mgmt rtk message =
     (let type = ucast (AGX_FIELD_GET message AGX_RTKIT_TYPE_SHIFT AGX_RTKIT_TYPE_MASK) :: u32;
          state = ucast (AGX_FIELD_GET message 0 AGX_RTKIT_PWR_STATE_MASK) :: u32
      in if type = AGX_RTKIT_MGMT_HELLO then agx_rtkit_rx_hello rtk message
         else if type = AGX_RTKIT_MGMT_EPMAP then agx_rtkit_rx_epmap rtk message
         else if type = AGX_RTKIT_MGMT_IOP_PWR_ACK
         then rtk\<lparr>rtk_iop_power := state, rtk_iop_acked := 1\<rparr>
         else if type = AGX_RTKIT_MGMT_AP_PWR_ACK
         then rtk\<lparr>rtk_ap_power := state, rtk_ap_acked := 1\<rparr>
         else agx_rtkit_note_unknown rtk message)"

definition agx_rtkit_get_buffer :: "'c agx_rtkit \<Rightarrow> u32 \<Rightarrow> u64 \<Rightarrow> 'c agx_rtkit" where
  "agx_rtkit_get_buffer rtk endpoint message =
     (let (size, iova) =
            if endpoint = AGX_RTKIT_EP_OSLOG
            then (AGX_FIELD_GET message AGX_RTKIT_OSLOG_SIZE_SHIFT AGX_RTKIT_OSLOG_SIZE_MASK,
                  push_bit AGX_RTKIT_PAGE_SHIFT (AGX_FIELD_GET message 0 AGX_RTKIT_OSLOG_IOVA_MASK))
            else (push_bit AGX_RTKIT_PAGE_SHIFT
                    (AGX_FIELD_GET message AGX_RTKIT_BUFREQ_SIZE_SHIFT AGX_RTKIT_BUFREQ_SIZE_MASK),
                  AGX_FIELD_GET message 0 AGX_RTKIT_BUFREQ_IOVA_MASK)
      in if size = 0 \<or> op_buffer (rtk_ops rtk) = None
         then agx_rtkit_fail rtk (if size = 0 then AGX_EINVAL else AGX_ENODEV)
         else let ((ret, iova), ctx) = the (op_buffer (rtk_ops rtk)) (rtk_ctx rtk) endpoint size iova;
                  rtk = rtk\<lparr>rtk_ctx := ctx\<rparr>
              in if ret \<noteq> 0 then agx_rtkit_fail rtk ret
                 else let rtk = rtk\<lparr>rtk_buffers := rtk_buffers rtk OR agx_rtkit_buffer_bit endpoint\<rparr>;
                          reply =
                            if endpoint = AGX_RTKIT_EP_OSLOG
                            then AGX_FIELD_PUT (ucast AGX_RTKIT_BUFFER_REQUEST) AGX_RTKIT_OSLOG_TYPE_SHIFT AGX_RTKIT_TYPE_MASK OR
                                 AGX_FIELD_PUT size AGX_RTKIT_OSLOG_SIZE_SHIFT AGX_RTKIT_OSLOG_SIZE_MASK OR
                                 AGX_FIELD_PUT (drop_bit AGX_RTKIT_PAGE_SHIFT iova) 0 AGX_RTKIT_OSLOG_IOVA_MASK
                            else AGX_FIELD_PUT (ucast AGX_RTKIT_BUFFER_REQUEST) AGX_RTKIT_TYPE_SHIFT AGX_RTKIT_TYPE_MASK OR
                                 AGX_FIELD_PUT (drop_bit AGX_RTKIT_PAGE_SHIFT size) AGX_RTKIT_BUFREQ_SIZE_SHIFT AGX_RTKIT_BUFREQ_SIZE_MASK OR
                                 AGX_FIELD_PUT iova 0 AGX_RTKIT_BUFREQ_IOVA_MASK
                      in snd (agx_rtkit_send rtk endpoint reply))"

definition agx_rtkit_rx_crashlog :: "'c agx_rtkit \<Rightarrow> u64 \<Rightarrow> 'c agx_rtkit" where
  "agx_rtkit_rx_crashlog rtk message =
     (let type = ucast (AGX_FIELD_GET message AGX_RTKIT_TYPE_SHIFT AGX_RTKIT_TYPE_MASK) :: u32
      in if type \<noteq> AGX_RTKIT_CRASHLOG_CRASH then agx_rtkit_note_unknown rtk message
         else if rtk_buffers rtk AND ucast AGX_RTKIT_BUFFER_CRASHLOG = 0
         then agx_rtkit_get_buffer rtk AGX_RTKIT_EP_CRASHLOG message
         else let rtk = rtk\<lparr>rtk_crashed := 1\<rparr>
              in case op_crashed (rtk_ops rtk) of
                   None \<Rightarrow> rtk
                 | Some f \<Rightarrow> rtk\<lparr>rtk_ctx := f (rtk_ctx rtk)\<rparr>)"

definition agx_rtkit_rx_syslog :: "'c agx_rtkit \<Rightarrow> u64 \<Rightarrow> 'c agx_rtkit" where
  "agx_rtkit_rx_syslog rtk message =
     (let type = ucast (AGX_FIELD_GET message AGX_RTKIT_TYPE_SHIFT AGX_RTKIT_TYPE_MASK) :: u32
      in if type = AGX_RTKIT_BUFFER_REQUEST then agx_rtkit_get_buffer rtk AGX_RTKIT_EP_SYSLOG message
         else if type = AGX_RTKIT_SYSLOG_INIT then rtk
         else if type = AGX_RTKIT_SYSLOG_LOG then snd (agx_rtkit_send rtk AGX_RTKIT_EP_SYSLOG message)
         else agx_rtkit_note_unknown rtk message)"

definition agx_rtkit_rx_ioreport :: "'c agx_rtkit \<Rightarrow> u64 \<Rightarrow> 'c agx_rtkit" where
  "agx_rtkit_rx_ioreport rtk message =
     (let type = ucast (AGX_FIELD_GET message AGX_RTKIT_TYPE_SHIFT AGX_RTKIT_TYPE_MASK) :: u32
      in if type = AGX_RTKIT_BUFFER_REQUEST then agx_rtkit_get_buffer rtk AGX_RTKIT_EP_IOREPORT message
         else if type = AGX_RTKIT_IOREPORT_ACK_A \<or> type = AGX_RTKIT_IOREPORT_ACK_B
         then snd (agx_rtkit_send rtk AGX_RTKIT_EP_IOREPORT message)
         else agx_rtkit_note_unknown rtk message)"

definition agx_rtkit_rx_oslog :: "'c agx_rtkit \<Rightarrow> u64 \<Rightarrow> 'c agx_rtkit" where
  "agx_rtkit_rx_oslog rtk message =
     (let type = ucast (AGX_FIELD_GET message AGX_RTKIT_OSLOG_TYPE_SHIFT AGX_RTKIT_TYPE_MASK) :: u32
      in if type = AGX_RTKIT_BUFFER_REQUEST then agx_rtkit_get_buffer rtk AGX_RTKIT_EP_OSLOG message
         else agx_rtkit_note_unknown rtk message)"

definition agx_rtkit_rx :: "'c agx_rtkit \<Rightarrow> u32 \<Rightarrow> u64 \<Rightarrow> 'c agx_rtkit" where
  "agx_rtkit_rx rtk endpoint message =
     (let endpoint = endpoint AND 0xff;
          rtk = rtk\<lparr>rtk_rx_count := rtk_rx_count rtk + 1\<rparr>;
          rtk = (if \<not> agx_rtkit_has_endpoint rtk endpoint
                 then rtk\<lparr>rtk_stray_count := rtk_stray_count rtk + 1\<rparr> else rtk)
      in if endpoint = AGX_RTKIT_EP_MGMT then agx_rtkit_rx_mgmt rtk message
         else if endpoint = AGX_RTKIT_EP_CRASHLOG then agx_rtkit_rx_crashlog rtk message
         else if endpoint = AGX_RTKIT_EP_SYSLOG then agx_rtkit_rx_syslog rtk message
         else if endpoint = AGX_RTKIT_EP_IOREPORT then agx_rtkit_rx_ioreport rtk message
         else if endpoint = AGX_RTKIT_EP_OSLOG then agx_rtkit_rx_oslog rtk message
         else case op_app (rtk_ops rtk) of
                Some f \<Rightarrow> if AGX_RTKIT_EP_APP_START \<le> endpoint
                          then rtk\<lparr>rtk_ctx := f (rtk_ctx rtk) endpoint message\<rparr>
                          else agx_rtkit_note_unknown rtk message
              | None \<Rightarrow> agx_rtkit_note_unknown rtk message)"

end
