(* ===== verification/Mailbox.thy ===== *)
theory Mailbox
  imports Wire
begin

text \<open>
  The mailbox transport of \<^verbatim>\<open>src/mailbox.c\<close>. The registers and the kernel services the driver calls are
  not part of the repository: they are a parameter, the record \<open>'d kernel_ops\<close> of functions
  on a machine state \<open>'d\<close> that holds the device, the clock and everything else outside the
  driver. A register access may change the machine. Loops that poll the machine are partial
  functions, so a loop that never ends has the value \<open>None\<close>; the locale \<open>kernel_clock\<close>
  states the time laws under which they end, and \<open>mailbox_device\<close> what the two FIFOs behind the
  registers do.
\<close>

section \<open>Kernel services\<close>

text \<open>\<open>k_idle\<close> is the machine going on while the caller sleeps on a wait queue; \<open>k_dma_alloc\<close> returns the
  CPU pointer (0 for NULL) and the device address.\<close>

record 'd kernel_ops =
  k_readl :: "'d \<Rightarrow> nat \<Rightarrow> u32 \<times> 'd"
  k_readq :: "'d \<Rightarrow> nat \<Rightarrow> u64 \<times> 'd"
  k_writel :: "'d \<Rightarrow> u32 \<Rightarrow> nat \<Rightarrow> 'd"
  k_writeq :: "'d \<Rightarrow> u64 \<Rightarrow> nat \<Rightarrow> 'd"
  k_now_us :: "'d \<Rightarrow> nat"
  k_usleep :: "'d \<Rightarrow> nat \<Rightarrow> 'd"
  k_idle :: "'d \<Rightarrow> 'd"
  k_dma_alloc :: "'d \<Rightarrow> u64 \<Rightarrow> (u64 \<times> u64) \<times> 'd"
  k_dma_free :: "'d \<Rightarrow> u64 \<Rightarrow> u64 \<Rightarrow> u64 \<Rightarrow> 'd"
  k_request_irq :: "'d \<Rightarrow> int \<Rightarrow> int \<times> 'd"
  k_free_irq :: "'d \<Rightarrow> int \<Rightarrow> 'd"

definition AGX_MBOX_SEND_POLL_US :: nat where "AGX_MBOX_SEND_POLL_US = 10"
definition AGX_MBOX_SEND_TIMEOUT_US :: nat where "AGX_MBOX_SEND_TIMEOUT_US = 100000"

text \<open>\<^verbatim>\<open>readl_poll_timeout\<close>, with the deadline already computed: status, last value read, machine.\<close>

partial_function (option) poll_until ::
  "'d kernel_ops \<Rightarrow> nat \<Rightarrow> (u32 \<Rightarrow> bool) \<Rightarrow> nat \<Rightarrow> nat \<Rightarrow> 'd \<Rightarrow> (int \<times> u32 \<times> 'd) option" where
  "poll_until k addr cond sleep_us end_us d =
     (let (val, d) = k_readl k d addr
      in if cond val then Some (0, val, d)
         else if end_us \<le> k_now_us k d
         then let (val, d) = k_readl k d addr in Some (if cond val then 0 else AGX_ETIMEDOUT, val, d)
         else poll_until k addr cond sleep_us end_us (k_usleep k d sleep_us))"

definition readl_poll_timeout ::
  "'d kernel_ops \<Rightarrow> nat \<Rightarrow> (u32 \<Rightarrow> bool) \<Rightarrow> nat \<Rightarrow> nat \<Rightarrow> 'd \<Rightarrow> (int \<times> u32 \<times> 'd) option" where
  "readl_poll_timeout k addr cond sleep_us timeout_us d =
     poll_until k addr cond sleep_us (k_now_us k d + timeout_us) d"

section \<open>Functions of mailbox.c\<close>

record agx_mailbox =
  mb_base :: nat
  mb_lock :: bool

definition agx_mailbox_init :: "nat \<Rightarrow> agx_mailbox" where
  "agx_mailbox_init base = \<lparr>mb_base = base, mb_lock = False\<rparr>"

definition agx_mailbox_outbox_empty :: "'d kernel_ops \<Rightarrow> agx_mailbox \<Rightarrow> 'd \<Rightarrow> bool \<times> 'd" where
  "agx_mailbox_outbox_empty k mbox d =
     (let (control, d) = k_readl k d (mb_base mbox + AGX_MBOX_I2A_CONTROL)
      in (agx_mbox_control_empty control, d))"

definition agx_mailbox_set_outbox_enable :: "'d kernel_ops \<Rightarrow> agx_mailbox \<Rightarrow> bool \<Rightarrow> 'd \<Rightarrow> 'd" where
  "agx_mailbox_set_outbox_enable k mbox enable d =
     (let (control, d) = k_readl k d (mb_base mbox + AGX_MBOX_I2A_CONTROL)
      in k_writel k d (agx_mbox_control_with_enable control enable) (mb_base mbox + AGX_MBOX_I2A_CONTROL))"

text \<open>Locking a mutex that is held blocks for ever in this single-threaded model: \<open>None\<close>.\<close>

definition mutex_lock :: "agx_mailbox \<Rightarrow> agx_mailbox option" where
  "mutex_lock mbox = (if mb_lock mbox then None else Some (mbox\<lparr>mb_lock := True\<rparr>))"

definition mutex_unlock :: "agx_mailbox \<Rightarrow> agx_mailbox" where
  "mutex_unlock mbox = mbox\<lparr>mb_lock := False\<rparr>"

definition agx_mailbox_send ::
  "'d kernel_ops \<Rightarrow> agx_mailbox \<Rightarrow> u32 \<Rightarrow> u64 \<Rightarrow> 'd \<Rightarrow> (int \<times> agx_mailbox \<times> 'd) option" where
  "agx_mailbox_send k mbox endpoint data d = do {
     mbox \<leftarrow> mutex_lock mbox;
     (ret, control, d) \<leftarrow> readl_poll_timeout k (mb_base mbox + AGX_MBOX_A2I_CONTROL)
        (\<lambda>control. \<not> agx_mbox_control_full control) AGX_MBOX_SEND_POLL_US AGX_MBOX_SEND_TIMEOUT_US d;
     if ret \<noteq> 0 then Some (AGX_ETIMEDOUT, mutex_unlock mbox, d)
     else let d = k_writeq k d data (mb_base mbox + AGX_MBOX_A2I_SEND0);
              d = k_writeq k d (agx_mbox_pack_msg1 endpoint) (mb_base mbox + AGX_MBOX_A2I_SEND1)
          in Some (0, mutex_unlock mbox, d)
   }"

text \<open>\<^verbatim>\<open>*msg\<close> is written only on success: the message is \<open>None\<close> otherwise.\<close>

definition agx_mailbox_recv ::
  "'d kernel_ops \<Rightarrow> agx_mailbox \<Rightarrow> 'd \<Rightarrow> int \<times> agx_mbox_message option \<times> 'd" where
  "agx_mailbox_recv k mbox d =
     (let (empty, d) = agx_mailbox_outbox_empty k mbox d
      in if empty then (AGX_ENODATA, None, d)
         else let (msg0, d) = k_readq k d (mb_base mbox + AGX_MBOX_I2A_RECV0);
                  (msg1, d) = k_readq k d (mb_base mbox + AGX_MBOX_I2A_RECV1)
              in (0, Some (agx_mbox_unpack msg0 msg1), d))"

section \<open>Time\<close>

locale kernel_clock =
  fixes k :: "'d kernel_ops"
  assumes readl_time: "k_now_us k d \<le> k_now_us k (snd (k_readl k d a))"
    and readq_time: "k_now_us k d \<le> k_now_us k (snd (k_readq k d a))"
    and writel_time: "k_now_us k d \<le> k_now_us k (k_writel k d v a)"
    and writeq_time: "k_now_us k d \<le> k_now_us k (k_writeq k d w a)"
    and usleep_time: "k_now_us k d + n \<le> k_now_us k (k_usleep k d n)"
    and idle_time: "k_now_us k d < k_now_us k (k_idle k d)"
    and dma_alloc_time: "k_now_us k d \<le> k_now_us k (snd (k_dma_alloc k d w))"
    and dma_free_time: "k_now_us k d \<le> k_now_us k (k_dma_free k d w c i)"
    and irq_time: "k_now_us k d \<le> k_now_us k (snd (k_request_irq k d n'))"
begin

text \<open>The rule for the polling loop: it ends, keeps what each access keeps, and on success has what the
  accepted value tells.\<close>

lemma poll_rule:
  assumes pos: "0 < sleep_us"
    and rd: "\<And>d v d'. P d \<Longrightarrow> k_readl k d addr = (v, d') \<Longrightarrow> P d' \<and> (cond v \<longrightarrow> Q d')"
    and sl: "\<And>d. P d \<Longrightarrow> P (k_usleep k d sleep_us)"
  shows "P d \<Longrightarrow> \<exists>ret val d'. poll_until k addr cond sleep_us end_us d = Some (ret, val, d') \<and>
     P d' \<and> k_now_us k d \<le> k_now_us k d' \<and> (ret = 0 \<and> Q d' \<or> ret = AGX_ETIMEDOUT)"
proof (induction "end_us - k_now_us k d" arbitrary: d rule: less_induct)
  case less
  obtain val d1 where r1: "k_readl k d addr = (val, d1)" by (rule prod.exhaust)
  obtain val2 d2 where r2: "k_readl k d1 addr = (val2, d2)" by (rule prod.exhaust)
  have t1: "k_now_us k d \<le> k_now_us k d1" using readl_time [of d addr] r1 by simp
  have t2: "k_now_us k d1 \<le> k_now_us k d2" using readl_time [of d1 addr] r2 by simp
  have P1: "P d1" "cond val \<longrightarrow> Q d1" using rd [OF less.prems r1] by simp_all
  have P2: "P d2" "cond val2 \<longrightarrow> Q d2" using rd [OF P1(1) r2] by simp_all
  show ?case
  proof (cases "cond val \<or> end_us \<le> k_now_us k d1")
    case True
    with r1 r2 t1 t2 P1 P2 show ?thesis by (subst poll_until.simps) auto
  next
    case False
    let ?d = "k_usleep k d1 sleep_us"
    have "k_now_us k d1 + sleep_us \<le> k_now_us k ?d" by (rule usleep_time)
    with False t1 pos have lt: "end_us - k_now_us k ?d < end_us - k_now_us k d" and t: "k_now_us k d \<le> k_now_us k ?d"
      by linarith+
    from less.hyps [OF lt sl [OF P1(1)]] t obtain ret v d' where
      "poll_until k addr cond sleep_us end_us ?d = Some (ret, v, d')" "P d'" "k_now_us k d \<le> k_now_us k d'"
      "ret = 0 \<and> Q d' \<or> ret = AGX_ETIMEDOUT" using order_trans by blast
    with False r1 show ?thesis by (subst poll_until.simps) simp
  qed
qed

lemma send_rule:
  assumes lock: "\<not> mb_lock mbox" and P: "P d"
    and rd: "\<And>d v d'. P d \<Longrightarrow> k_readl k d (mb_base mbox + AGX_MBOX_A2I_CONTROL) = (v, d') \<Longrightarrow>
      P d' \<and> (\<not> agx_mbox_control_full v \<longrightarrow> Q d')"
    and sl: "\<And>d. P d \<Longrightarrow> P (k_usleep k d AGX_MBOX_SEND_POLL_US)"
  shows "\<exists>ret d1 d'. agx_mailbox_send k mbox ep data d = Some (ret, mbox, d') \<and> P d1 \<and>
     k_now_us k d \<le> k_now_us k d' \<and>
     (ret = 0 \<and> Q d1 \<and> d' = k_writeq k (k_writeq k d1 data (mb_base mbox + AGX_MBOX_A2I_SEND0))
        (agx_mbox_pack_msg1 ep) (mb_base mbox + AGX_MBOX_A2I_SEND1) \<or>
      ret = AGX_ETIMEDOUT \<and> d' = d1)"
proof -
  have pos: "0 < AGX_MBOX_SEND_POLL_US" by (simp add: AGX_MBOX_SEND_POLL_US_def)
  have "\<exists>ret v d1. poll_until k (mb_base mbox + AGX_MBOX_A2I_CONTROL)
      (\<lambda>control. \<not> agx_mbox_control_full control) AGX_MBOX_SEND_POLL_US
      (k_now_us k d + AGX_MBOX_SEND_TIMEOUT_US) d = Some (ret, v, d1) \<and>
      P d1 \<and> k_now_us k d \<le> k_now_us k d1 \<and> (ret = 0 \<and> Q d1 \<or> ret = AGX_ETIMEDOUT)"
    by (rule poll_rule [where P = P and Q = Q]) (use pos rd sl P in auto)
  then obtain ret v d1 where p: "readl_poll_timeout k (mb_base mbox + AGX_MBOX_A2I_CONTROL)
      (\<lambda>control. \<not> agx_mbox_control_full control) AGX_MBOX_SEND_POLL_US AGX_MBOX_SEND_TIMEOUT_US d = Some (ret, v, d1)"
    "P d1" "k_now_us k d \<le> k_now_us k d1" "ret = 0 \<and> Q d1 \<or> ret = AGX_ETIMEDOUT"
    unfolding readl_poll_timeout_def by blast
  let ?d = "k_writeq k (k_writeq k d1 data (mb_base mbox + AGX_MBOX_A2I_SEND0))
      (agx_mbox_pack_msg1 ep) (mb_base mbox + AGX_MBOX_A2I_SEND1)"
  have "k_now_us k d1 \<le> k_now_us k ?d" using writeq_time order_trans by blast
  moreover have "agx_mailbox_send k mbox ep data d = Some (if ret = 0 then 0 else AGX_ETIMEDOUT, mbox, if ret = 0 then ?d else d1)"
    using p(1) lock by (simp add: agx_mailbox_send_def mutex_lock_def mutex_unlock_def Let_def)
  ultimately show ?thesis using p(2-4)
    by (intro exI [of _ ret] exI [of _ d1] exI [of _ "if ret = 0 then ?d else d1"]) (auto simp: AGX_ETIMEDOUT_def)
qed

lemma send_ends:
  assumes "\<not> mb_lock mbox"
  shows "\<exists>ret d'. agx_mailbox_send k mbox ep data d = Some (ret, mbox, d') \<and> ret \<in> {0, AGX_ETIMEDOUT} \<and>
     k_now_us k d \<le> k_now_us k d'"
proof -
  have "\<exists>ret d1 d'. agx_mailbox_send k mbox ep data d = Some (ret, mbox, d') \<and> True \<and>
     k_now_us k d \<le> k_now_us k d' \<and>
     (ret = 0 \<and> True \<and> d' = k_writeq k (k_writeq k d1 data (mb_base mbox + AGX_MBOX_A2I_SEND0))
        (agx_mbox_pack_msg1 ep) (mb_base mbox + AGX_MBOX_A2I_SEND1) \<or>
      ret = AGX_ETIMEDOUT \<and> d' = d1)"
    by (rule send_rule [where P = "\<lambda>_. True" and Q = "\<lambda>_. True", OF assms]) simp_all
  then show ?thesis by blast
qed

lemma recv_time: "k_now_us k d \<le> k_now_us k (snd (snd (agx_mailbox_recv k mbox d)))"
proof -
  let ?a = "\<lambda>r. mb_base mbox + r"
  let ?d1 = "snd (k_readl k d (?a AGX_MBOX_I2A_CONTROL))"
  let ?d2 = "snd (k_readq k ?d1 (?a AGX_MBOX_I2A_RECV0))"
  let ?d3 = "snd (k_readq k ?d2 (?a AGX_MBOX_I2A_RECV1))"
  have "k_now_us k d \<le> k_now_us k ?d1" "k_now_us k ?d1 \<le> k_now_us k ?d2" "k_now_us k ?d2 \<le> k_now_us k ?d3"
    by (rule readl_time readq_time)+
  then show ?thesis
    by (simp add: agx_mailbox_recv_def agx_mailbox_outbox_empty_def Let_def case_prod_beta)
qed

end

section \<open>The FIFOs behind the registers\<close>

text \<open>\<open>sent d\<close> is the history of items the coprocessor accepted, as endpoint and data; \<open>outbox d\<close> the items
  it has ready, as the two words of each. \<open>room\<close> holds when the inbox is not full.\<close>

locale mailbox_device = kernel_clock +
  fixes base :: nat
    and dinv :: "'a \<Rightarrow> bool"
    and sent :: "'a \<Rightarrow> (u32 \<times> u64) list"
    and outbox :: "'a \<Rightarrow> (u64 \<times> u64) list"
    and room :: "'a \<Rightarrow> bool"
  assumes inbox_status: "dinv d \<Longrightarrow> k_readl k d (base + AGX_MBOX_A2I_CONTROL) = (v, d') \<Longrightarrow>
      dinv d' \<and> sent d' = sent d \<and> (\<not> agx_mbox_control_full v \<longrightarrow> room d')"
    and sleep_keeps: "dinv d \<Longrightarrow> dinv (k_usleep k d n) \<and> sent (k_usleep k d n) = sent d"
    and inbox_write: "dinv d \<Longrightarrow> room d \<Longrightarrow>
      d' = k_writeq k (k_writeq k d data (base + AGX_MBOX_A2I_SEND0)) (agx_mbox_pack_msg1 ep) (base + AGX_MBOX_A2I_SEND1) \<Longrightarrow>
      dinv d' \<and> sent d' = sent d @ [(ep AND 0xff, data)]"
    and outbox_status: "dinv d \<Longrightarrow> k_readl k d (base + AGX_MBOX_I2A_CONTROL) = (v, d') \<Longrightarrow>
      dinv d' \<and> sent d' = sent d \<and> outbox d' = outbox d \<and> (agx_mbox_control_empty v \<longleftrightarrow> outbox d = [])"
    and outbox_read: "dinv d \<Longrightarrow> outbox d = (m0, m1) # rest \<Longrightarrow>
      \<exists>d1 d2. k_readq k d (base + AGX_MBOX_I2A_RECV0) = (m0, d1) \<and>
        k_readq k d1 (base + AGX_MBOX_I2A_RECV1) = (m1, d2) \<and>
        dinv d2 \<and> sent d2 = sent d \<and> outbox d2 = rest"
    and dma_keeps: "dinv d \<Longrightarrow> dinv (snd (k_dma_alloc k d w)) \<and> sent (snd (k_dma_alloc k d w)) = sent d"
begin

lemma send_delivers:
  assumes lock: "\<not> mb_lock mbox" and base: "mb_base mbox = base" and d: "dinv d"
  shows "\<exists>ret d'. agx_mailbox_send k mbox ep data d = Some (ret, mbox, d') \<and> dinv d' \<and>
     (ret = 0 \<and> sent d' = sent d @ [(ep AND 0xff, data)] \<or> ret = AGX_ETIMEDOUT \<and> sent d' = sent d)"
proof -
  let ?P = "\<lambda>e. dinv e \<and> sent e = sent d"
  have "\<exists>ret d1 d'. agx_mailbox_send k mbox ep data d = Some (ret, mbox, d') \<and> ?P d1 \<and>
     k_now_us k d \<le> k_now_us k d' \<and>
     (ret = 0 \<and> room d1 \<and> d' = k_writeq k (k_writeq k d1 data (mb_base mbox + AGX_MBOX_A2I_SEND0))
        (agx_mbox_pack_msg1 ep) (mb_base mbox + AGX_MBOX_A2I_SEND1) \<or>
      ret = AGX_ETIMEDOUT \<and> d' = d1)"
    by (rule send_rule [OF lock]) (use d inbox_status sleep_keeps base in auto)
  then show ?thesis using inbox_write base by metis
qed

lemma recv_fifo:
  assumes base: "mb_base mbox = base" and d: "dinv d"
  shows "\<exists>d'. dinv d' \<and> sent d' = sent d \<and>
     (case outbox d of
        [] \<Rightarrow> agx_mailbox_recv k mbox d = (AGX_ENODATA, None, d') \<and> outbox d' = []
      | (m0, m1) # rest \<Rightarrow> agx_mailbox_recv k mbox d = (0, Some (agx_mbox_unpack m0 m1), d') \<and> outbox d' = rest)"
proof -
  obtain v d1 where r: "k_readl k d (base + AGX_MBOX_I2A_CONTROL) = (v, d1)" by (rule prod.exhaust)
  note st = outbox_status [OF d r]
  show ?thesis
  proof (cases "outbox d")
    case Nil
    with r st base show ?thesis
      by (intro exI [of _ d1]) (simp add: agx_mailbox_recv_def agx_mailbox_outbox_empty_def)
  next
    case (Cons m rest)
    obtain m0 m1 where m: "m = (m0, m1)" by (rule prod.exhaust)
    obtain d2 d3 where q: "k_readq k d1 (base + AGX_MBOX_I2A_RECV0) = (m0, d2)"
      "k_readq k d2 (base + AGX_MBOX_I2A_RECV1) = (m1, d3)" "dinv d3" "sent d3 = sent d" "outbox d3 = rest"
      using outbox_read [of d1 m0 m1 rest] st Cons m by auto
    with r st base Cons m show ?thesis
      by (intro exI [of _ d3]) (simp add: agx_mailbox_recv_def agx_mailbox_outbox_empty_def)
  qed
qed

end

end
