(* ===== verification/Rtbuddy.thy ===== *)
theory Rtbuddy
  imports Rtkit Mailbox Display
begin

text \<open>
  The driver core of \<^verbatim>\<open>src/rtbuddy.c\<close>: bring-up, interrupt handling, shared buffers, GPU messages and
  removal. In C \<^verbatim>\<open>struct agx_rtbuddy\<close> embeds the protocol state and is itself the context of
  the protocol callbacks; here \<open>'d rtbuddy\<close>, the other fields, is the context, so a driver
  is an \<open>'d rtbuddy agx_rtkit\<close>. The machine \<open>'d\<close> outside the driver is one of its fields.
  The interrupt is delivered while the driver sleeps on its wait queue: \<open>service_irq\<close> runs the two
  handlers as the kernel does. Kernel log messages are left out.
\<close>

section \<open>State\<close>

definition AGX_CPU_CTRL_OFFSET :: nat where "AGX_CPU_CTRL_OFFSET = 0x44"
definition AGX_CPU_CTRL_RUN :: u32 where "AGX_CPU_CTRL_RUN = push_bit 4 1"
definition AGX_RTBUDDY_STAGE_TIMEOUT_MS :: nat where "AGX_RTBUDDY_STAGE_TIMEOUT_MS = 500"
definition AGX_RTBUDDY_DRAIN_MAX :: nat where "AGX_RTBUDDY_DRAIN_MAX = 64"
definition AGX_RTBUDDY_SHMEM_MAX :: u64 where "AGX_RTBUDDY_SHMEM_MAX = 0x00400000"
definition AGX_RTBUDDY_SHMEM_SLOTS :: nat where "AGX_RTBUDDY_SHMEM_SLOTS = 4"

text \<open>The kernel error numbers that have no \<^verbatim>\<open>AGX_\<close> counterpart and the handler results.\<close>

definition EEXIST :: int where "EEXIST = 17"

datatype irqreturn_t = IRQ_NONE | IRQ_HANDLED | IRQ_WAKE_THREAD

record agx_shmem =
  sh_cpu :: u64
  sh_iova :: u64
  sh_size :: u64

text \<open>\<open>rb_stuck\<close> is not a field of the C struct: it records that a callback did not return because a
  polling loop never ended (\<open>None\<close> in \<open>agx_mailbox_send\<close>), since the protocol core gives
  callbacks no way to say so.\<close>

record 'd rtbuddy =
  rb_k :: "'d kernel_ops"
  rb_dev :: 'd
  rb_base :: nat
  rb_irq :: int
  rb_irq_requested :: bool
  rb_cpu_running :: bool
  rb_firmware_up :: bool
  rb_doorbell_up :: bool
  rb_mbox :: agx_mailbox
  rb_display :: "'d agx_display_broker option"
  rb_power :: agx_power_state
  rb_drain_count :: u64
  rb_fw_events :: u64
  rb_app_unknown :: u64
  rb_debugfs_root :: u64
  rb_shmem :: "agx_shmem list"
  rb_stuck :: bool

type_synonym 'd agx_rtbuddy = "'d rtbuddy agx_rtkit"

definition upd_rb :: "('d rtbuddy \<Rightarrow> 'd rtbuddy) \<Rightarrow> 'd agx_rtbuddy \<Rightarrow> 'd agx_rtbuddy" where
  "upd_rb f rb = rb\<lparr>rtk_ctx := f (rtk_ctx rb)\<rparr>"

section \<open>Shared buffers\<close>

definition agx_rtbuddy_shmem_slot :: "u32 \<Rightarrow> int" where
  "agx_rtbuddy_shmem_slot endpoint =
     (if endpoint = AGX_RTKIT_EP_CRASHLOG then 0
      else if endpoint = AGX_RTKIT_EP_SYSLOG then 1
      else if endpoint = AGX_RTKIT_EP_IOREPORT then 2
      else if endpoint = AGX_RTKIT_EP_OSLOG then 3
      else -1)"

definition free_shmem_slot :: "nat \<Rightarrow> 'd rtbuddy \<Rightarrow> 'd rtbuddy" where
  "free_shmem_slot i c =
     (let shmem = rb_shmem c ! i
      in if sh_cpu shmem = 0 then c
         else c\<lparr>rb_dev := k_dma_free (rb_k c) (rb_dev c) (sh_size shmem) (sh_cpu shmem) (sh_iova shmem),
                rb_shmem := (rb_shmem c)[i := \<lparr>sh_cpu = 0, sh_iova = 0, sh_size = 0\<rparr>]\<rparr>)"

definition agx_rtbuddy_free_shmem :: "'d rtbuddy \<Rightarrow> 'd rtbuddy" where
  "agx_rtbuddy_free_shmem c = fold free_shmem_slot [0..<AGX_RTBUDDY_SHMEM_SLOTS] c"

section \<open>Power and CPU control\<close>

definition agx_rtbuddy_set_power :: "'d rtbuddy \<Rightarrow> agx_power_state \<Rightarrow> 'd rtbuddy option" where
  "agx_rtbuddy_set_power c state =
     (let old = rb_power c
      in if old = state then Some c
         else let c = c\<lparr>rb_power := state\<rparr>
              in case rb_display c of
                   None \<Rightarrow> Some c
                 | Some broker \<Rightarrow> do {
                     (broker, d) \<leftarrow> agx_display_notify broker old state (rb_dev c);
                     Some (c\<lparr>rb_display := Some broker, rb_dev := d\<rparr>)
                   })"

definition agx_rtbuddy_stop_cpu :: "'d rtbuddy \<Rightarrow> 'd rtbuddy" where
  "agx_rtbuddy_stop_cpu c =
     (if \<not> rb_cpu_running c then c
      else let (ctrl, d) = k_readl (rb_k c) (rb_dev c) (rb_base c + AGX_CPU_CTRL_OFFSET);
               d = k_writel (rb_k c) d (ctrl AND NOT AGX_CPU_CTRL_RUN) (rb_base c + AGX_CPU_CTRL_OFFSET)
           in c\<lparr>rb_dev := d, rb_cpu_running := False\<rparr>)"

section \<open>The callbacks of the protocol core\<close>

definition agx_rtbuddy_ops_send :: "'d rtbuddy \<Rightarrow> u32 \<Rightarrow> u64 \<Rightarrow> int \<times> 'd rtbuddy" where
  "agx_rtbuddy_ops_send c endpoint message =
     (case agx_mailbox_send (rb_k c) (rb_mbox c) endpoint message (rb_dev c) of
        None \<Rightarrow> (AGX_ETIMEDOUT, c\<lparr>rb_stuck := True\<rparr>)
      | Some (ret, mbox, d) \<Rightarrow> (ret, c\<lparr>rb_mbox := mbox, rb_dev := d\<rparr>))"

definition agx_rtbuddy_ops_buffer ::
  "'d rtbuddy \<Rightarrow> u32 \<Rightarrow> u64 \<Rightarrow> u64 \<Rightarrow> (int \<times> u64) \<times> 'd rtbuddy" where
  "agx_rtbuddy_ops_buffer c endpoint bytes requested_iova =
     (let slot = agx_rtbuddy_shmem_slot endpoint
      in if slot < 0 then ((AGX_EINVAL, requested_iova), c)
         else if requested_iova \<noteq> 0 then ((AGX_EINVAL, requested_iova), c)
         else if bytes > AGX_RTBUDDY_SHMEM_MAX then ((AGX_EINVAL, requested_iova), c)
         else let shmem = rb_shmem c ! nat slot
              in if sh_cpu shmem \<noteq> 0 then ((- EEXIST, requested_iova), c)
                 else let ((cpu, iova), d) = k_dma_alloc (rb_k c) (rb_dev c) bytes;
                          shmem = shmem\<lparr>sh_cpu := cpu, sh_iova := iova\<rparr>
                      in if cpu = 0
                         then ((AGX_ENOMEM, requested_iova),
                               c\<lparr>rb_dev := d, rb_shmem := (rb_shmem c)[nat slot := shmem]\<rparr>)
                         else ((0, iova), c\<lparr>rb_dev := d,
                               rb_shmem := (rb_shmem c)[nat slot := shmem\<lparr>sh_size := bytes\<rparr>]\<rparr>))"

definition agx_rtbuddy_ops_app :: "'d rtbuddy \<Rightarrow> u32 \<Rightarrow> u64 \<Rightarrow> 'd rtbuddy" where
  "agx_rtbuddy_ops_app c endpoint message =
     (if endpoint = AGX_RTKIT_EP_FIRMWARE \<and> agx_gpu_msg_is_event message
      then c\<lparr>rb_fw_events := rb_fw_events c + 1\<rparr>
      else c\<lparr>rb_app_unknown := rb_app_unknown c + 1\<rparr>)"

definition agx_rtbuddy_ops_crashed :: "'d rtbuddy \<Rightarrow> 'd rtbuddy" where
  "agx_rtbuddy_ops_crashed c = c"

definition agx_rtbuddy_rtkit_ops :: "'d rtbuddy agx_rtkit_ops" where
  "agx_rtbuddy_rtkit_ops =
     \<lparr>op_send = agx_rtbuddy_ops_send, op_buffer = Some agx_rtbuddy_ops_buffer,
      op_app = Some agx_rtbuddy_ops_app, op_crashed = Some agx_rtbuddy_ops_crashed\<rparr>"

section \<open>Interrupts\<close>

definition agx_rtbuddy_irq :: "'d agx_rtbuddy \<Rightarrow> irqreturn_t \<times> 'd agx_rtbuddy" where
  "agx_rtbuddy_irq rb =
     (let c = rtk_ctx rb; (empty, d) = agx_mailbox_outbox_empty (rb_k c) (rb_mbox c) (rb_dev c);
          rb = upd_rb (\<lambda>c. c\<lparr>rb_dev := d\<rparr>) rb
      in if empty then (IRQ_NONE, rb) else (IRQ_WAKE_THREAD, rb))"

text \<open>The drain loop; \<open>n\<close> is \<^verbatim>\<open>AGX_RTBUDDY_DRAIN_MAX - handled\<close>.\<close>

fun irq_drain :: "nat \<Rightarrow> nat \<Rightarrow> 'd agx_rtbuddy \<Rightarrow> nat \<times> 'd agx_rtbuddy" where
  "irq_drain 0 handled rb = (handled, rb)"
| "irq_drain (Suc n) handled rb =
     (let c = rtk_ctx rb; (ret, msg, d) = agx_mailbox_recv (rb_k c) (rb_mbox c) (rb_dev c);
          rb = upd_rb (\<lambda>c. c\<lparr>rb_dev := d\<rparr>) rb
      in if ret \<noteq> 0 then (handled, rb)
         else irq_drain n (handled + 1)
                (agx_rtkit_rx rb (msg_endpoint (the msg)) (msg_data (the msg))))"

definition agx_rtbuddy_irq_thread :: "'d agx_rtbuddy \<Rightarrow> irqreturn_t \<times> 'd agx_rtbuddy" where
  "agx_rtbuddy_irq_thread rb =
     (let (handled, rb) = irq_drain AGX_RTBUDDY_DRAIN_MAX 0 rb
      in (IRQ_HANDLED, upd_rb (\<lambda>c. c\<lparr>rb_drain_count := rb_drain_count c + of_nat handled\<rparr>) rb))"

text \<open>What the kernel does with the two handlers while the line is requested.\<close>

definition service_irq :: "'d agx_rtbuddy \<Rightarrow> 'd agx_rtbuddy" where
  "service_irq rb =
     (if \<not> rb_irq_requested (rtk_ctx rb) then rb
      else let (r, rb) = agx_rtbuddy_irq rb
           in if r = IRQ_WAKE_THREAD then snd (agx_rtbuddy_irq_thread rb) else rb)"

section \<open>Waiting\<close>

text \<open>\<^verbatim>\<open>wait_event_timeout\<close>: true if the condition came true before the deadline. While the caller sleeps, the machine goes on and
  the interrupt is served; inside the calls of the driver core these are the only points where it is.\<close>

partial_function (option) wait_event ::
  "('d agx_rtbuddy \<Rightarrow> bool) \<Rightarrow> nat \<Rightarrow> 'd agx_rtbuddy \<Rightarrow> (bool \<times> 'd agx_rtbuddy) option" where
  "wait_event cond deadline rb =
     (if cond rb then Some (True, rb)
      else if deadline \<le> k_now_us (rb_k (rtk_ctx rb)) (rb_dev (rtk_ctx rb)) then Some (False, rb)
      else wait_event cond deadline
             (service_irq (upd_rb (\<lambda>c. c\<lparr>rb_dev := k_idle (rb_k c) (rb_dev c)\<rparr>) rb)))"

definition agx_rtbuddy_wait ::
  "'d agx_rtbuddy \<Rightarrow> ('d agx_rtbuddy \<Rightarrow> bool) \<Rightarrow> (int \<times> 'd agx_rtbuddy) option" where
  "agx_rtbuddy_wait rb done = do {
     (left, rb) \<leftarrow> wait_event (\<lambda>rtk. done rtk \<or> agx_rtkit_error rtk \<noteq> 0)
        (k_now_us (rb_k (rtk_ctx rb)) (rb_dev (rtk_ctx rb)) + AGX_RTBUDDY_STAGE_TIMEOUT_MS * 1000) rb;
     let error = agx_rtkit_error rb in
     Some (if error \<noteq> 0 then error else if \<not> left then AGX_ETIMEDOUT else 0, rb)
   }"

section \<open>Probe and GPU messages\<close>

definition agx_rtbuddy_probe ::
  "'d kernel_ops \<Rightarrow> 'd \<Rightarrow> nat \<Rightarrow> int \<Rightarrow> 'd agx_display_broker option \<Rightarrow> int \<times> 'd agx_rtbuddy" where
  "agx_rtbuddy_probe k d base irq display =
     (0, agx_rtkit_init agx_rtbuddy_rtkit_ops
        \<lparr>rb_k = k, rb_dev = d, rb_base = base, rb_irq = irq, rb_irq_requested = False,
         rb_cpu_running = False, rb_firmware_up = False, rb_doorbell_up = False,
         rb_mbox = agx_mailbox_init base, rb_display = display, rb_power = AGX_POWER_OFF,
         rb_drain_count = 0, rb_fw_events = 0, rb_app_unknown = 0, rb_debugfs_root = 0,
         rb_shmem = replicate AGX_RTBUDDY_SHMEM_SLOTS \<lparr>sh_cpu = 0, sh_iova = 0, sh_size = 0\<rparr>,
         rb_stuck = False\<rparr>)"

definition agx_rtbuddy_started :: "'d agx_rtbuddy \<Rightarrow> bool" where
  "agx_rtbuddy_started rb \<longleftrightarrow>
     agx_rtkit_running rb \<and> rb_firmware_up (rtk_ctx rb) \<and> rb_doorbell_up (rtk_ctx rb)"

definition agx_rtbuddy_send_gpu ::
  "'d agx_rtbuddy \<Rightarrow> u32 \<Rightarrow> u64 \<Rightarrow> (int \<times> 'd agx_rtbuddy) option" where
  "agx_rtbuddy_send_gpu rb endpoint message =
     (if \<not> agx_rtbuddy_started rb then Some (AGX_ENODEV, rb)
      else do {
        let c = rtk_ctx rb;
        (ret, mbox, d) \<leftarrow> agx_mailbox_send (rb_k c) (rb_mbox c) endpoint message (rb_dev c);
        Some (ret, upd_rb (\<lambda>c. c\<lparr>rb_mbox := mbox, rb_dev := d\<rparr>) rb)
      })"

definition agx_rtbuddy_send_initdata :: "'d agx_rtbuddy \<Rightarrow> u64 \<Rightarrow> (int \<times> 'd agx_rtbuddy) option" where
  "agx_rtbuddy_send_initdata rb initdata_addr =
     agx_rtbuddy_send_gpu rb AGX_RTKIT_EP_FIRMWARE (agx_gpu_msg_init initdata_addr)"

definition agx_rtbuddy_doorbell :: "'d agx_rtbuddy \<Rightarrow> u32 \<Rightarrow> (int \<times> 'd agx_rtbuddy) option" where
  "agx_rtbuddy_doorbell rb channel =
     agx_rtbuddy_send_gpu rb AGX_RTKIT_EP_DOORBELL (agx_gpu_msg_doorbell channel)"

definition agx_rtbuddy_kick :: "'d agx_rtbuddy \<Rightarrow> u32 \<Rightarrow> bool \<Rightarrow> (int \<times> 'd agx_rtbuddy) option" where
  "agx_rtbuddy_kick rb index alt =
     agx_rtbuddy_send_gpu rb AGX_RTKIT_EP_DOORBELL (agx_gpu_msg_kick index alt)"

definition agx_rtbuddy_stop_firmware :: "'d agx_rtbuddy \<Rightarrow> u64 \<Rightarrow> (int \<times> 'd agx_rtbuddy) option" where
  "agx_rtbuddy_stop_firmware rb counter =
     agx_rtbuddy_send_gpu rb AGX_RTKIT_EP_DOORBELL (agx_gpu_msg_stop counter)"

definition agx_rtbuddy_fwctl_doorbell :: "'d agx_rtbuddy \<Rightarrow> (int \<times> 'd agx_rtbuddy) option" where
  "agx_rtbuddy_fwctl_doorbell rb =
     agx_rtbuddy_send_gpu rb AGX_RTKIT_EP_DOORBELL agx_gpu_msg_fwctl"

section \<open>Boot\<close>

text \<open>The label \<^verbatim>\<open>fail\<close>.\<close>

definition boot_fail :: "'d agx_rtbuddy \<Rightarrow> int \<Rightarrow> int \<times> 'd agx_rtbuddy" where
  "boot_fail rb ret =
     (ret, upd_rb (\<lambda>c. (agx_rtbuddy_stop_cpu c)\<lparr>rb_firmware_up := False, rb_doorbell_up := False\<rparr>) rb)"

definition boot_start_cpu :: "'d rtbuddy \<Rightarrow> 'd rtbuddy" where
  "boot_start_cpu c =
     (let d = agx_mailbox_set_outbox_enable (rb_k c) (rb_mbox c) True (rb_dev c);
          (ctrl, d) = k_readl (rb_k c) d (rb_base c + AGX_CPU_CTRL_OFFSET);
          d = k_writel (rb_k c) d (ctrl OR AGX_CPU_CTRL_RUN) (rb_base c + AGX_CPU_CTRL_OFFSET)
      in c\<lparr>rb_dev := d, rb_cpu_running := True\<rparr>)"

definition boot_request_irq :: "'d rtbuddy \<Rightarrow> int \<times> 'd rtbuddy" where
  "boot_request_irq c =
     (if rb_irq_requested c then (0, c)
      else let (ret, d) = k_request_irq (rb_k c) (rb_dev c) (rb_irq c); c = c\<lparr>rb_dev := d\<rparr>
           in if ret \<noteq> 0 then (ret, c) else (0, c\<lparr>rb_irq_requested := True\<rparr>))"

definition agx_rtbuddy_boot :: "'d agx_rtbuddy \<Rightarrow> (int \<times> 'd agx_rtbuddy) option" where
  "agx_rtbuddy_boot rb =
     (let rb = upd_rb boot_start_cpu rb;
          (ret, rb) = agx_rtkit_set_iop_power rb AGX_PWR_INIT
      in if ret \<noteq> 0 then Some (boot_fail rb ret) else
      let (ret, c) = boot_request_irq (rtk_ctx rb); rb = rb\<lparr>rtk_ctx := c\<rparr>
      in if ret \<noteq> 0 then Some (boot_fail rb ret) else do {
      (ret, rb) \<leftarrow> agx_rtbuddy_wait rb agx_rtkit_epmap_done;
      if ret \<noteq> 0 then Some (boot_fail rb ret) else do {
      (ret, rb) \<leftarrow> agx_rtbuddy_wait rb agx_rtkit_iop_acked;
      if ret \<noteq> 0 then Some (boot_fail rb ret)
      else if rtk_iop_power rb AND AGX_PWR_LEVEL_MASK \<noteq> AGX_PWR_ON then Some (boot_fail rb AGX_EIO) else
      let (ret, rb) = agx_rtkit_set_ap_power rb AGX_PWR_ON
      in if ret \<noteq> 0 then Some (boot_fail rb ret) else do {
      (ret, rb) \<leftarrow> agx_rtbuddy_wait rb agx_rtkit_ap_acked;
      if ret \<noteq> 0 then Some (boot_fail rb ret)
      else if \<not> agx_rtkit_running rb then Some (boot_fail rb AGX_EIO) else
      let (ret, rb) = agx_rtkit_start_endpoint rb AGX_RTKIT_EP_FIRMWARE
      in if ret \<noteq> 0 then Some (boot_fail rb ret) else
      let rb = upd_rb (\<lambda>c. c\<lparr>rb_firmware_up := True\<rparr>) rb;
          (ret, rb) = agx_rtkit_start_endpoint rb AGX_RTKIT_EP_DOORBELL
      in if ret \<noteq> 0 then Some (boot_fail rb ret) else do {
      c \<leftarrow> agx_rtbuddy_set_power ((rtk_ctx rb)\<lparr>rb_doorbell_up := True\<rparr>) AGX_POWER_ON;
      Some (0, rb\<lparr>rtk_ctx := c\<rparr>) }}}})"

section \<open>Removal\<close>

definition agx_rtbuddy_shutdown :: "'d agx_rtbuddy \<Rightarrow> 'd agx_rtbuddy option" where
  "agx_rtbuddy_shutdown rb =
     (if \<not> agx_rtkit_running rb then Some rb
      else do {
        let (ret, rb) = agx_rtkit_set_ap_power rb AGX_PWR_QUIESCED;
        rb \<leftarrow> (if ret = 0 then Option.bind (agx_rtbuddy_wait rb agx_rtkit_ap_acked) (\<lambda>(_, rb). Some rb) else Some rb);
        let (ret, rb) = agx_rtkit_set_iop_power rb AGX_PWR_SLEEP;
        (if ret = 0 then Option.bind (agx_rtbuddy_wait rb agx_rtkit_iop_acked) (\<lambda>(_, rb). Some rb) else Some rb)
      })"

definition agx_rtbuddy_remove :: "'d agx_rtbuddy \<Rightarrow> 'd agx_rtbuddy option" where
  "agx_rtbuddy_remove rb = do {
     rb \<leftarrow> agx_rtbuddy_shutdown rb;
     let rb = upd_rb (\<lambda>c. if rb_irq_requested c
                then c\<lparr>rb_dev := k_free_irq (rb_k c) (rb_dev c) (rb_irq c), rb_irq_requested := False\<rparr>
                else c) rb;
     let rb = upd_rb agx_rtbuddy_stop_cpu rb;
     let rb = upd_rb agx_rtbuddy_free_shmem rb;
     let rb = upd_rb (\<lambda>c. c\<lparr>rb_firmware_up := False, rb_doorbell_up := False\<rparr>) rb;
     c \<leftarrow> agx_rtbuddy_set_power (rtk_ctx rb) AGX_POWER_OFF;
     Some (rb\<lparr>rtk_ctx := c\<rparr>)
   }"

end
