(* ===== verification/Debugfs.thy ===== *)
theory Debugfs
  imports Rtbuddy
begin

text \<open>
  The debugfs files of \<^verbatim>\<open>src/debugfs.c\<close>. A show function is the text it prints with \<^verbatim>\<open>seq_printf\<close>; the directory and
  the files are made through \<open>'d debugfs_ops\<close>, the kernel's debugfs interface on the machine \<open>'d\<close>.
\<close>

section \<open>Numbers as printed\<close>

definition digit :: "nat \<Rightarrow> char" where
  "digit n = char_of (if n < 10 then 48 + n else 87 + n)"

function fmt_base :: "nat \<Rightarrow> nat \<Rightarrow> string" where
  "fmt_base b n = (if n < b \<or> b < 2 then [digit n] else fmt_base b (n div b) @ [digit (n mod b)])"
  by pat_completeness auto
termination by (relation "measure snd") auto

declare fmt_base.simps [simp del]

definition fmt_u :: "nat \<Rightarrow> string" where
  "fmt_u n = fmt_base 10 n"

definition fmt_x :: "nat \<Rightarrow> nat \<Rightarrow> string" where
  "fmt_x width n = (let s = fmt_base 16 n in replicate (width - length s) CHR ''0'' @ s)"

definition fmt_d :: "int \<Rightarrow> string" where
  "fmt_d i = (if i < 0 then CHR ''-'' # fmt_base 10 (nat (- i)) else fmt_base 10 (nat i))"

text \<open>Reading a number back.\<close>

definition undigit :: "char \<Rightarrow> nat" where
  "undigit c = (let n = of_char c in if n < 58 then n - 48 else n - 87)"

definition parse_base :: "nat \<Rightarrow> string \<Rightarrow> nat" where
  "parse_base b s = foldl (\<lambda>a c. a * b + undigit c) 0 s"

lemma of_char_digit: "n < 16 \<Longrightarrow> of_char (digit n) = (if n < 10 then 48 + n else 87 + n)"
  by (simp add: digit_def)

lemma undigit_digit: "n < 16 \<Longrightarrow> undigit (digit n) = n"
  by (simp add: undigit_def of_char_digit Let_def)

lemma mod_digit: "2 \<le> b \<Longrightarrow> b \<le> 16 \<Longrightarrow> n mod b < (16 :: nat)"
  using mod_less_divisor [of b n] by linarith

lemma parse_fmt: "2 \<le> b \<Longrightarrow> b \<le> 16 \<Longrightarrow> parse_base b (fmt_base b n) = n"
proof (induction b n rule: fmt_base.induct)
  case (1 b n)
  then show ?case by (subst fmt_base.simps) (auto simp: parse_base_def undigit_digit mod_digit)
qed

lemma fmt_chars: "2 \<le> b \<Longrightarrow> b \<le> 16 \<Longrightarrow> c \<in> set (fmt_base b n) \<Longrightarrow> \<exists>m < 16. c = digit m"
proof (induction b n rule: fmt_base.induct)
  case (1 b n)
  note p = "1.prems"
  show ?case
  proof (cases "n < b")
    case True
    with p have "c = digit n" "n < 16" by (auto simp: fmt_base.simps [of b n])
    then show ?thesis by blast
  next
    case False
    with p have "c \<in> set (fmt_base b (n div b)) \<or> c = digit (n mod b)" by (auto simp: fmt_base.simps [of b n])
    moreover have "n mod b < 16" using p by (simp add: mod_digit)
    ultimately show ?thesis using "1.IH" False p by auto
  qed
qed

lemma digit_plain:
  assumes "n < 16" shows "digit n \<noteq> CHR 0x0A \<and> digit n \<noteq> CHR ''-''"
proof -
  have "(of_char (digit n) :: nat) \<noteq> of_char (CHR 0x0A)" "(of_char (digit n) :: nat) \<noteq> of_char (CHR ''-'')"
    using assms by (simp_all add: of_char_digit)
  then show ?thesis by metis
qed

lemma fmt_base_plain:
  assumes "2 \<le> b" "b \<le> 16" shows "CHR 0x0A \<notin> set (fmt_base b n)" "CHR ''-'' \<notin> set (fmt_base b n)"
  using fmt_chars [OF assms] digit_plain by metis+

lemma fmt_plain [simp]:
  "CHR 0x0A \<notin> set (fmt_u n)" "CHR 0x0A \<notin> set (fmt_x w n)" "CHR 0x0A \<notin> set (fmt_d i)"
  by (simp_all add: fmt_u_def fmt_x_def fmt_d_def Let_def fmt_base_plain)

lemma parse_zeros: "parse_base 16 (replicate k CHR ''0'' @ s) = parse_base 16 s"
  by (induction k) (simp_all add: parse_base_def undigit_def)

lemma fmt_inject:
  "fmt_u m = fmt_u n \<longleftrightarrow> m = n" "fmt_x w m = fmt_x w n \<longleftrightarrow> m = n" "fmt_d i = fmt_d j \<longleftrightarrow> i = j"
proof -
  have p: "parse_base 16 (fmt_x w n) = n" for n by (simp add: fmt_x_def Let_def parse_zeros parse_fmt)
  have d: "parse_base 10 (fmt_base 10 n) = n" for n by (simp add: parse_fmt)
  show "fmt_u m = fmt_u n \<longleftrightarrow> m = n" unfolding fmt_u_def by (metis d)
  show "fmt_x w m = fmt_x w n \<longleftrightarrow> m = n" by (metis p)
  have e: "fmt_base 10 a = fmt_base 10 b \<longleftrightarrow> a = b" for a b by (metis d)
  have m: "CHR ''-'' # xs \<noteq> fmt_base 10 a" for xs a
  proof
    assume "CHR ''-'' # xs = fmt_base 10 a"
    then have "CHR ''-'' \<in> set (fmt_base 10 a)" by (metis list.set_intros(1))
    then show False by (simp add: fmt_base_plain)
  qed
  show "fmt_d i = fmt_d j \<longleftrightarrow> i = j" by (auto simp: fmt_d_def e m m [THEN not_sym])
qed

section \<open>The files\<close>

definition fmt_bool :: "bool \<Rightarrow> string" where
  "fmt_bool b = fmt_d (if b then 1 else 0)"

definition nl :: string where "nl = [CHR 0x0A]"

definition agx_debugfs_power_show :: "'d agx_rtbuddy \<Rightarrow> string" where
  "agx_debugfs_power_show rb = agx_power_state_name (rb_power (rtk_ctx rb)) @ nl"

definition agx_debugfs_endpoints_show :: "'d agx_rtbuddy \<Rightarrow> string" where
  "agx_debugfs_endpoints_show rb =
     ''firmware 0x'' @ fmt_x 2 (unat AGX_RTKIT_EP_FIRMWARE) @ '' up '' @ fmt_bool (rb_firmware_up (rtk_ctx rb)) @ nl @
     ''doorbell 0x'' @ fmt_x 2 (unat AGX_RTKIT_EP_DOORBELL) @ '' up '' @ fmt_bool (rb_doorbell_up (rtk_ctx rb)) @ nl @
     ''firmware events '' @ fmt_u (unat (rb_fw_events (rtk_ctx rb))) @ nl @
     ''other app messages '' @ fmt_u (unat (rb_app_unknown (rtk_ctx rb))) @ nl"

definition agx_debugfs_rtkit_show :: "'d agx_rtbuddy \<Rightarrow> string" where
  "agx_debugfs_rtkit_show rb =
     ''version '' @ fmt_u (unat (rtk_version rb)) @ nl @
     ''iop power 0x'' @ fmt_x 0 (unat (rtk_iop_power rb)) @ nl @
     ''ap power 0x'' @ fmt_x 0 (unat (rtk_ap_power rb)) @ nl @
     ''running '' @ fmt_bool (agx_rtkit_running rb) @ nl @
     ''crashed '' @ fmt_bool (agx_rtkit_crashed rb) @ nl @
     ''error '' @ fmt_d (agx_rtkit_error rb) @ nl @
     ''rx '' @ fmt_u (unat (rtk_rx_count rb)) @ nl @
     ''stray '' @ fmt_u (unat (rtk_stray_count rb)) @ nl @
     ''unknown '' @ fmt_u (unat (rtk_unknown_count rb)) @ nl @
     ''last unknown 0x'' @ fmt_x 16 (unat (rtk_last_unknown rb)) @ nl"

section \<open>What the files tell\<close>

lemma line_split: "CHR 0x0A \<notin> set a \<Longrightarrow> CHR 0x0A \<notin> set b \<Longrightarrow> a @ nl @ r = b @ nl @ r' \<longleftrightarrow> a = b \<and> r = r'"
  by (induction a arbitrary: b; case_tac b) (auto simp: nl_def)

lemma last_line: "CHR 0x0A \<notin> set a \<Longrightarrow> CHR 0x0A \<notin> set b \<Longrightarrow> a @ nl = b @ nl \<longleftrightarrow> a = b"
  by simp

lemma fmt_bool_plain [simp]: "CHR 0x0A \<notin> set (fmt_bool b)"
  by (simp add: fmt_bool_def)

lemma fmt_bool_inject: "fmt_bool a = fmt_bool b \<longleftrightarrow> a = b"
  by (simp add: fmt_bool_def fmt_inject)

lemma power_name_inject: "agx_power_state_name p = agx_power_state_name q \<longleftrightarrow> p = q"
  by (cases p; cases q) simp_all

text \<open>The debugfs files show the state. Two drivers print the same power file exactly when their power states agree, the same
  endpoints file exactly when their endpoint flags and event counters agree, and the same rtkit file exactly when all
  ten values shown agree: no two states are confused by the formatting.\<close>

lemma debugfs_shows_state:
  "(agx_debugfs_power_show rb = agx_debugfs_power_show rb' \<longleftrightarrow> rb_power (rtk_ctx rb) = rb_power (rtk_ctx rb')) \<and>
   (agx_debugfs_endpoints_show rb = agx_debugfs_endpoints_show rb' \<longleftrightarrow>
      rb_firmware_up (rtk_ctx rb) = rb_firmware_up (rtk_ctx rb') \<and> rb_doorbell_up (rtk_ctx rb) = rb_doorbell_up (rtk_ctx rb') \<and>
      rb_fw_events (rtk_ctx rb) = rb_fw_events (rtk_ctx rb') \<and> rb_app_unknown (rtk_ctx rb) = rb_app_unknown (rtk_ctx rb')) \<and>
   (agx_debugfs_rtkit_show rb = agx_debugfs_rtkit_show rb' \<longleftrightarrow>
      rtk_version rb = rtk_version rb' \<and> rtk_iop_power rb = rtk_iop_power rb' \<and> rtk_ap_power rb = rtk_ap_power rb' \<and>
      agx_rtkit_running rb = agx_rtkit_running rb' \<and> agx_rtkit_crashed rb = agx_rtkit_crashed rb' \<and>
      agx_rtkit_error rb = agx_rtkit_error rb' \<and> rtk_rx_count rb = rtk_rx_count rb' \<and>
      rtk_stray_count rb = rtk_stray_count rb' \<and> rtk_unknown_count rb = rtk_unknown_count rb' \<and>
      rtk_last_unknown rb = rtk_last_unknown rb')"
  by (simp add: agx_debugfs_power_show_def agx_debugfs_endpoints_show_def agx_debugfs_rtkit_show_def line_split
      fmt_inject fmt_bool_inject power_name_inject word_unat_eq_iff [symmetric])

section \<open>The directory\<close>

datatype debugfs_file = agx_debugfs_power_fops | agx_debugfs_endpoints_fops | agx_debugfs_rtkit_fops

record 'd debugfs_ops =
  d_create_dir :: "'d \<Rightarrow> string \<Rightarrow> u64 \<times> 'd"
  d_create_file :: "'d \<Rightarrow> string \<Rightarrow> nat \<Rightarrow> u64 \<Rightarrow> debugfs_file \<Rightarrow> 'd"
  d_create_u64 :: "'d \<Rightarrow> string \<Rightarrow> nat \<Rightarrow> u64 \<Rightarrow> 'd"
  d_remove_recursive :: "'d \<Rightarrow> u64 \<Rightarrow> 'd"

text \<open>The mode is the C literal 0444, octal.\<close>

definition agx_debugfs_init :: "'d debugfs_ops \<Rightarrow> 'd agx_rtbuddy \<Rightarrow> 'd agx_rtbuddy" where
  "agx_debugfs_init f rb = upd_rb (\<lambda>c.
     let (root, d) = d_create_dir f (rb_dev c) ''agxrtbuddy'';
         d = d_create_file f d ''power'' 292 root agx_debugfs_power_fops;
         d = d_create_file f d ''endpoints'' 292 root agx_debugfs_endpoints_fops;
         d = d_create_file f d ''rtkit'' 292 root agx_debugfs_rtkit_fops;
         d = d_create_u64 f d ''draincount'' 292 root
     in c\<lparr>rb_debugfs_root := root, rb_dev := d\<rparr>) rb"

definition agx_debugfs_remove :: "'d debugfs_ops \<Rightarrow> 'd agx_rtbuddy \<Rightarrow> 'd agx_rtbuddy" where
  "agx_debugfs_remove f rb = upd_rb (\<lambda>c.
     c\<lparr>rb_dev := d_remove_recursive f (rb_dev c) (rb_debugfs_root c), rb_debugfs_root := 0\<rparr>) rb"

end
