(* ===== verification/Fake_Asc.thy ===== *)
theory Fake_Asc
  imports Mailbox Rtkit
begin

text \<open>
  The machine the driver tests run on: the coprocessor \<^verbatim>\<open>FakeAsc\<close> of \<^verbatim>\<open>tests/driver_harness.cpp\<close>,
  the firmware \<^verbatim>\<open>FakeFirmware\<close> of \<^verbatim>\<open>tests/fakefw.hpp\<close> behind it and the kernel services the
  harness supplies. It is a complete instance of the kernel parameter: the contracts
  \<open>kernel_clock\<close> and \<open>mailbox_device\<close> are interpreted on it, so what is proved under them holds
  of the driver on this machine. The firmware thread takes one item whenever the caller
  sleeps or waits, one of the schedules of the concurrent thread of the harness; the clock advances by the time slept, by one
  microsecond per wait. The firmware's delay between two items is left out, as is its set \<^verbatim>\<open>known_eps\<close>, which nothing uses.
\<close>

section \<open>The firmware\<close>

type_synonym fw_msg = "u32 \<times> u64"

record fake_firmware =
  fw_min_ver :: u32
  fw_max_ver :: u32
  fw_to_ap :: "fw_msg list"
  fw_from_ap :: "fw_msg list"
  fw_hello_replies :: "u64 list"
  fw_epmap_replies :: "u64 list"
  fw_started :: "u32 list"
  fw_buffer_replies :: "fw_msg list"
  fw_gpu_msgs :: "fw_msg list"
  fw_pending_iop :: bool
  fw_iop_state_requested :: u32
  fw_epmap_finished :: bool

definition fw_mgmt :: "u32 \<Rightarrow> u64 \<Rightarrow> u64" where
  "fw_mgmt type payload = push_bit AGX_RTKIT_TYPE_SHIFT (ucast type) OR payload"

definition fw_mgmt_type :: "u64 \<Rightarrow> u32" where
  "fw_mgmt_type msg = ucast (drop_bit AGX_RTKIT_TYPE_SHIFT msg AND 0xff)"

definition fw_push :: "u32 \<Rightarrow> u64 \<Rightarrow> fake_firmware \<Rightarrow> fake_firmware" where
  "fw_push ep msg fw = fw\<lparr>fw_to_ap := fw_to_ap fw @ [(ep, msg)]\<rparr>"

definition fw_power_on :: "fake_firmware \<Rightarrow> fake_firmware" where
  "fw_power_on fw = fw_push 0 (fw_mgmt AGX_RTKIT_MGMT_HELLO (push_bit 16 (ucast (fw_max_ver fw)) OR ucast (fw_min_ver fw))) fw"

definition fw_push_epmap :: "u32 \<Rightarrow> u32 \<Rightarrow> bool \<Rightarrow> fake_firmware \<Rightarrow> fake_firmware" where
  "fw_push_epmap base bitmap is_last fw =
     (let m = fw_mgmt AGX_RTKIT_MGMT_EPMAP (push_bit 32 (ucast base) OR ucast bitmap)
      in fw_push 0 (if is_last then m OR AGX_RTKIT_EPMAP_LAST else m) fw)"

definition fw_handle_startep :: "u64 \<Rightarrow> fake_firmware \<Rightarrow> fake_firmware" where
  "fw_handle_startep msg fw =
     (let ep = ucast (drop_bit 32 msg AND 0xff); fw = fw\<lparr>fw_started := fw_started fw @ [ep]\<rparr>
      in if msg AND AGX_RTKIT_STARTEP_FLAG = 0 then fw
         else if ep = AGX_RTKIT_EP_CRASHLOG \<or> ep = AGX_RTKIT_EP_SYSLOG \<or> ep = AGX_RTKIT_EP_IOREPORT
         then fw_push ep (push_bit 52 1 OR push_bit 44 2) fw
         else if ep = AGX_RTKIT_EP_OSLOG then fw_push ep (push_bit 56 1 OR push_bit 36 0x2000) fw
         else fw)"

definition fw_handle_iop_pwr :: "u64 \<Rightarrow> fake_firmware \<Rightarrow> fake_firmware" where
  "fw_handle_iop_pwr msg fw =
     (let state = ucast (msg AND 0xffff); ack = (if state = AGX_PWR_INIT then AGX_PWR_ON else state);
          fw = fw\<lparr>fw_iop_state_requested := state\<rparr>
      in if state = AGX_PWR_INIT
         then let fw = fw\<lparr>fw_pending_iop := True\<rparr>
              in if fw_epmap_finished fw then fw_push 0 (fw_mgmt AGX_RTKIT_MGMT_IOP_PWR_ACK (ucast ack)) fw else fw
         else fw_push 0 (fw_mgmt AGX_RTKIT_MGMT_IOP_PWR_ACK (ucast ack)) fw)"

definition fw_handle_mgmt :: "u64 \<Rightarrow> fake_firmware \<Rightarrow> fake_firmware" where
  "fw_handle_mgmt msg fw =
     (let type = fw_mgmt_type msg
      in if type = AGX_RTKIT_MGMT_HELLO_REPLY
         then fw_push_epmap 0 0x11f False (fw\<lparr>fw_hello_replies := fw_hello_replies fw @ [msg]\<rparr>)
         else if type = AGX_RTKIT_MGMT_EPMAP_REPLY
         then let fw = fw\<lparr>fw_epmap_replies := fw_epmap_replies fw @ [msg]\<rparr>
              in if msg AND AGX_RTKIT_EPMAP_MORE \<noteq> 0 then fw_push_epmap 1 0x3 True fw
                 else if msg AND AGX_RTKIT_EPMAP_LAST \<noteq> 0
                 then let fw = fw\<lparr>fw_epmap_finished := True\<rparr>
                      in if fw_pending_iop fw then fw_push 0 (fw_mgmt AGX_RTKIT_MGMT_IOP_PWR_ACK 0x20) fw else fw
                 else fw
         else if type = AGX_RTKIT_MGMT_IOP_PWR then fw_handle_iop_pwr msg fw
         else if type = AGX_RTKIT_MGMT_AP_PWR
         then fw_push 0 (fw_mgmt AGX_RTKIT_MGMT_AP_PWR_ACK (msg AND 0xffff)) fw
         else if type = AGX_RTKIT_MGMT_STARTEP then fw_handle_startep msg fw
         else fw)"

definition fw_handle :: "u32 \<Rightarrow> u64 \<Rightarrow> fake_firmware \<Rightarrow> fake_firmware" where
  "fw_handle ep msg fw =
     (let fw = fw\<lparr>fw_from_ap := fw_from_ap fw @ [(ep, msg)]\<rparr>
      in if ep = 0 then fw_handle_mgmt msg fw
         else if AGX_RTKIT_EP_APP_START \<le> ep then fw\<lparr>fw_gpu_msgs := fw_gpu_msgs fw @ [(ep, msg)]\<rparr>
         else fw\<lparr>fw_buffer_replies := fw_buffer_replies fw @ [(ep, msg)]\<rparr>)"

section \<open>The coprocessor\<close>

text \<open>\<open>fa_dma\<close> is the harness's table of buffers, each with the size of its block; \<open>fa_next_cpu\<close> is where the
  C library takes the next block from. The last fields are the clock and the interrupt line.\<close>

record fake_asc =
  fa_a2i :: "fw_msg list"
  fa_i2a :: "fw_msg list"
  fa_a2i_capacity :: nat
  fa_cpu_ctrl :: u32
  fa_send0 :: u64
  fa_send0_written :: bool
  fa_recv0_read :: bool
  fa_outbox_enable :: bool
  fa_enable_order_violation :: nat
  fa_fw_running :: bool
  fa_fw_silent :: bool
  fa_fw_ignore :: bool
  fa_bad_access :: nat
  fa_overflow :: nat
  fa_order_violation :: nat
  fa_run_set_count :: nat
  fa_run_clear_count :: nat
  fa_fw :: fake_firmware
  fa_dma :: "(u64 \<times> u64 \<times> u64) list"
  fa_next_iova :: u64
  fa_next_cpu :: nat
  fa_now_us :: nat
  fa_irq_line :: bool

definition kBase :: nat where "kBase = 0x500000000"
definition kCpuCtrlOffset :: nat where "kCpuCtrlOffset = 0x44"
definition kCpuCtrlRun :: u32 where "kCpuCtrlRun = push_bit 4 1"

definition visible_locked :: "fake_asc \<Rightarrow> bool" where
  "visible_locked d \<longleftrightarrow> fa_outbox_enable d \<and> fa_i2a d \<noteq> []"

definition flush_locked :: "fake_asc \<Rightarrow> fake_asc" where
  "flush_locked d = d\<lparr>fa_i2a := fa_i2a d @ fw_to_ap (fa_fw d), fa_fw := (fa_fw d)\<lparr>fw_to_ap := []\<rparr>\<rparr>"

text \<open>One turn of the firmware loop.\<close>

definition fw_loop :: "fake_asc \<Rightarrow> fake_asc" where
  "fw_loop d = (case fa_a2i d of
       [] \<Rightarrow> d
     | (ep, data) # rest \<Rightarrow>
         if fa_fw_running d \<and> \<not> fa_fw_ignore d
         then flush_locked (d\<lparr>fa_a2i := rest, fa_fw := fw_handle ep data (fa_fw d)\<rparr>)
         else d)"

definition fake_readl :: "fake_asc \<Rightarrow> nat \<Rightarrow> u32 \<times> fake_asc" where
  "fake_readl d addr =
     (if addr = kBase + AGX_MBOX_A2I_CONTROL
      then ((if fa_a2i_capacity d \<le> length (fa_a2i d) then AGX_MBOX_CONTROL_FULL else 0) OR
            (if fa_a2i d = [] then AGX_MBOX_CONTROL_EMPTY else 0), d)
      else if addr = kBase + AGX_MBOX_I2A_CONTROL
      then ((if fa_outbox_enable d then AGX_MBOX_CONTROL_ENABLE else 0) OR
            (if visible_locked d then 0 else AGX_MBOX_CONTROL_EMPTY), d)
      else if addr = kBase + kCpuCtrlOffset then (fa_cpu_ctrl d, d)
      else (0, d\<lparr>fa_bad_access := fa_bad_access d + 1\<rparr>))"

definition fake_readq :: "fake_asc \<Rightarrow> nat \<Rightarrow> u64 \<times> fake_asc" where
  "fake_readq d addr =
     (if addr = kBase + AGX_MBOX_I2A_RECV0
      then if \<not> visible_locked d then (0, d\<lparr>fa_bad_access := fa_bad_access d + 1\<rparr>)
           else (snd (hd (fa_i2a d)), d\<lparr>fa_recv0_read := True\<rparr>)
      else if addr = kBase + AGX_MBOX_I2A_RECV1
      then if \<not> visible_locked d then (0, d\<lparr>fa_bad_access := fa_bad_access d + 1\<rparr>)
           else (ucast (fst (hd (fa_i2a d))),
                 d\<lparr>fa_order_violation := fa_order_violation d + (if fa_recv0_read d then 0 else 1),
                   fa_recv0_read := False, fa_i2a := tl (fa_i2a d)\<rparr>)
      else (0, d\<lparr>fa_bad_access := fa_bad_access d + 1\<rparr>))"

definition fake_writel :: "fake_asc \<Rightarrow> u32 \<Rightarrow> nat \<Rightarrow> fake_asc" where
  "fake_writel d value addr =
     (if addr = kBase + AGX_MBOX_I2A_CONTROL
      then d\<lparr>fa_outbox_enable := value AND AGX_MBOX_CONTROL_ENABLE \<noteq> 0\<rparr>
      else if addr \<noteq> kBase + kCpuCtrlOffset then d\<lparr>fa_bad_access := fa_bad_access d + 1\<rparr>
      else let was = fa_cpu_ctrl d AND kCpuCtrlRun \<noteq> 0; now = value AND kCpuCtrlRun \<noteq> 0;
               d = d\<lparr>fa_cpu_ctrl := value\<rparr>
           in if \<not> was \<and> now
              then flush_locked (d\<lparr>fa_run_set_count := fa_run_set_count d + 1,
                fa_enable_order_violation := fa_enable_order_violation d + (if fa_outbox_enable d then 0 else 1),
                fa_fw_running := True, fa_fw := (if fa_fw_silent d then fa_fw d else fw_power_on (fa_fw d))\<rparr>)
              else if was \<and> \<not> now
              then d\<lparr>fa_run_clear_count := fa_run_clear_count d + 1, fa_fw_running := False\<rparr>
              else d)"

definition fake_writeq :: "fake_asc \<Rightarrow> u64 \<Rightarrow> nat \<Rightarrow> fake_asc" where
  "fake_writeq d value addr =
     (if addr = kBase + AGX_MBOX_A2I_SEND0 then d\<lparr>fa_send0 := value, fa_send0_written := True\<rparr>
      else if addr = kBase + AGX_MBOX_A2I_SEND1
      then let d = d\<lparr>fa_order_violation := fa_order_violation d + (if fa_send0_written d then 0 else 1),
                     fa_send0_written := False\<rparr>
           in if fa_a2i_capacity d \<le> length (fa_a2i d) then d\<lparr>fa_overflow := fa_overflow d + 1\<rparr>
              else d\<lparr>fa_a2i := fa_a2i d @ [(ucast (value AND 0xff), fa_send0 d)]\<rparr>
      else d\<lparr>fa_bad_access := fa_bad_access d + 1\<rparr>)"

text \<open>Blocks come from a heap that is never reused and ends below 2^64: the C library returns NULL then.\<close>

definition fake_dma_alloc :: "fake_asc \<Rightarrow> u64 \<Rightarrow> (u64 \<times> u64) \<times> fake_asc" where
  "fake_dma_alloc d bytes =
     (let p = (if fa_next_cpu d < 2 ^ 64 then of_nat (fa_next_cpu d) else 0); handle = fa_next_iova d
      in ((p, handle),
          d\<lparr>fa_next_cpu := fa_next_cpu d + max 1 (unat bytes),
            fa_next_iova := fa_next_iova d + ((bytes + 0xfffff) AND NOT 0xfffff),
            fa_dma := (bytes, p, handle) # filter (\<lambda>(_, q, _). q \<noteq> p) (fa_dma d)\<rparr>))"

definition fake_dma_free :: "fake_asc \<Rightarrow> u64 \<Rightarrow> u64 \<Rightarrow> u64 \<Rightarrow> fake_asc" where
  "fake_dma_free d bytes cpu handle = d\<lparr>fa_dma := filter (\<lambda>(_, q, _). q \<noteq> cpu) (fa_dma d)\<rparr>"

definition fake_request_irq :: "fake_asc \<Rightarrow> int \<Rightarrow> int \<times> fake_asc" where
  "fake_request_irq d irq = (0, d\<lparr>fa_irq_line := True\<rparr>)"

definition fake_free_irq :: "fake_asc \<Rightarrow> int \<Rightarrow> fake_asc" where
  "fake_free_irq d irq = d\<lparr>fa_irq_line := False\<rparr>"

definition fake_run :: "fake_asc \<Rightarrow> nat \<Rightarrow> fake_asc" where
  "fake_run d us = fw_loop (d\<lparr>fa_now_us := fa_now_us d + us\<rparr>)"

definition fake_kernel :: "fake_asc kernel_ops" where
  "fake_kernel = \<lparr>k_readl = fake_readl, k_readq = fake_readq, k_writel = fake_writel, k_writeq = fake_writeq,
     k_now_us = fa_now_us, k_usleep = fake_run, k_idle = (\<lambda>d. fake_run d 1), k_dma_alloc = fake_dma_alloc,
     k_dma_free = fake_dma_free, k_request_irq = fake_request_irq, k_free_irq = fake_free_irq\<rparr>"

definition fake_firmware_init :: fake_firmware where
  "fake_firmware_init = \<lparr>fw_min_ver = 11, fw_max_ver = 12, fw_to_ap = [], fw_from_ap = [], fw_hello_replies = [],
     fw_epmap_replies = [], fw_started = [], fw_buffer_replies = [], fw_gpu_msgs = [], fw_pending_iop = False,
     fw_iop_state_requested = 0, fw_epmap_finished = False\<rparr>"

definition fake_asc_init :: fake_asc where
  "fake_asc_init = \<lparr>fa_a2i = [], fa_i2a = [], fa_a2i_capacity = 8, fa_cpu_ctrl = 0, fa_send0 = 0,
     fa_send0_written = False, fa_recv0_read = False, fa_outbox_enable = False, fa_enable_order_violation = 0,
     fa_fw_running = False, fa_fw_silent = False, fa_fw_ignore = False, fa_bad_access = 0, fa_overflow = 0,
     fa_order_violation = 0, fa_run_set_count = 0, fa_run_clear_count = 0, fa_fw = fake_firmware_init,
     fa_dma = [], fa_next_iova = 0x8000000, fa_next_cpu = 0x1000, fa_now_us = 0, fa_irq_line = False\<rparr>"

section \<open>The machine meets the contracts of the transport\<close>

text \<open>What the coprocessor accepted so far, in order: what the firmware took, then what waits in the inbox.\<close>

definition fake_sent :: "fake_asc \<Rightarrow> (u32 \<times> u64) list" where
  "fake_sent d = fw_from_ap (fa_fw d) @ fa_a2i d"

definition fake_outbox :: "fake_asc \<Rightarrow> (u64 \<times> u64) list" where
  "fake_outbox d = (if fa_outbox_enable d then map (\<lambda>(ep, data). (data, ucast ep)) (fa_i2a d) else [])"

definition fake_room :: "fake_asc \<Rightarrow> bool" where
  "fake_room d \<longleftrightarrow> length (fa_a2i d) < fa_a2i_capacity d"

lemma fake_kernel_sel [simp]:
  "k_readl fake_kernel = fake_readl" "k_readq fake_kernel = fake_readq" "k_writel fake_kernel = fake_writel"
  "k_writeq fake_kernel = fake_writeq" "k_now_us fake_kernel = fa_now_us" "k_usleep fake_kernel = fake_run"
  "k_idle fake_kernel d = fake_run d 1" "k_dma_alloc fake_kernel = fake_dma_alloc"
  "k_dma_free fake_kernel = fake_dma_free" "k_request_irq fake_kernel = fake_request_irq"
  "k_free_irq fake_kernel = fake_free_irq"
  by (simp_all add: fake_kernel_def)

lemma from_ap_handle: "fw_from_ap (fw_handle ep msg fw) = fw_from_ap fw @ [(ep, msg)]"
  by (simp add: fw_handle_def fw_handle_mgmt_def fw_handle_iop_pwr_def fw_handle_startep_def fw_push_def
      fw_push_epmap_def Let_def)

lemma run_sent: "fake_sent (fake_run d n) = fake_sent d"
  by (auto simp: fake_run_def fw_loop_def fake_sent_def flush_locked_def from_ap_handle split: list.split)

lemma run_now: "fa_now_us (fake_run d n) = fa_now_us d + n"
  by (auto simp: fake_run_def fw_loop_def flush_locked_def split: list.split)

lemma fake_register_offsets:
  "AGX_MBOX_A2I_CONTROL \<noteq> AGX_MBOX_I2A_CONTROL" "AGX_MBOX_A2I_SEND0 \<noteq> AGX_MBOX_A2I_SEND1"
  "AGX_MBOX_I2A_RECV0 \<noteq> AGX_MBOX_I2A_RECV1"
  by (simp_all add: AGX_MBOX_A2I_CONTROL_def AGX_MBOX_I2A_CONTROL_def AGX_MBOX_A2I_SEND0_def AGX_MBOX_A2I_SEND1_def
      AGX_MBOX_I2A_RECV0_def AGX_MBOX_I2A_RECV1_def)

lemma control_status_bits:
  "agx_mbox_control_full ((if a then AGX_MBOX_CONTROL_FULL else 0) OR (if b then AGX_MBOX_CONTROL_EMPTY else 0)) \<longleftrightarrow> a"
  "agx_mbox_control_empty ((if a then AGX_MBOX_CONTROL_ENABLE else 0) OR (if b then 0 else AGX_MBOX_CONTROL_EMPTY)) \<longleftrightarrow> \<not> b"
  by (simp_all add: agx_mbox_control_full_def agx_mbox_control_empty_def AGX_MBOX_CONTROL_FULL_def
      AGX_MBOX_CONTROL_EMPTY_def AGX_MBOX_CONTROL_ENABLE_def)

lemma pack_msg1_endpoint: "ucast (agx_mbox_pack_msg1 ep AND 0xff) = ep AND (0xff :: u32)"
  unfolding agx_mbox_pack_msg1_def AGX_MBOX_MSG1_ENDPOINT_MASK_def
  by (rule bit_word_eqI) (auto simp: bit_simps dest: bit_imp_le_length)

interpretation fake: mailbox_device fake_kernel kBase "\<lambda>_. True" fake_sent fake_outbox fake_room
proof unfold_locales
  show "k_now_us fake_kernel d \<le> k_now_us fake_kernel (snd (k_readl fake_kernel d a))" for d a
    by (simp add: fake_readl_def)
  show "k_now_us fake_kernel d \<le> k_now_us fake_kernel (snd (k_readq fake_kernel d a))" for d a
    by (simp add: fake_readq_def)
  show "k_now_us fake_kernel d \<le> k_now_us fake_kernel (k_writel fake_kernel d v a)" for d v a
    by (simp add: fake_writel_def flush_locked_def Let_def)
  show "k_now_us fake_kernel d \<le> k_now_us fake_kernel (k_writeq fake_kernel d w a)" for d w a
    by (simp add: fake_writeq_def Let_def)
  show "k_now_us fake_kernel d \<le> k_now_us fake_kernel (snd (k_dma_alloc fake_kernel d w))" for d w
    by (simp add: fake_dma_alloc_def Let_def)
  show "k_now_us fake_kernel d \<le> k_now_us fake_kernel (k_dma_free fake_kernel d w c i)" for d w c i
    by (simp add: fake_dma_free_def)
  show "k_now_us fake_kernel d \<le> k_now_us fake_kernel (snd (k_request_irq fake_kernel d n'))" for d n'
    by (simp add: fake_request_irq_def)
next
  fix d v d' assume "k_readl fake_kernel d (kBase + AGX_MBOX_A2I_CONTROL) = (v, d')"
  then show "True \<and> fake_sent d' = fake_sent d \<and> (\<not> agx_mbox_control_full v \<longrightarrow> fake_room d')"
    by (auto simp: fake_readl_def control_status_bits fake_room_def)
next
  fix d d' data ep
  assume room: "fake_room d" and d': "d' = k_writeq fake_kernel (k_writeq fake_kernel d data (kBase + AGX_MBOX_A2I_SEND0))
    (agx_mbox_pack_msg1 ep) (kBase + AGX_MBOX_A2I_SEND1)"
  then show "True \<and> fake_sent d' = fake_sent d @ [(ep AND 0xff, data)]"
    using fake_register_offsets
    by (simp add: fake_writeq_def fake_room_def fake_sent_def pack_msg1_endpoint Let_def)
next
  fix d v d' assume "k_readl fake_kernel d (kBase + AGX_MBOX_I2A_CONTROL) = (v, d')"
  then have "d' = d" and v: "v = (if fa_outbox_enable d then AGX_MBOX_CONTROL_ENABLE else 0) OR
      (if visible_locked d then 0 else AGX_MBOX_CONTROL_EMPTY)"
    using fake_register_offsets by (auto simp: fake_readl_def)
  moreover have "agx_mbox_control_empty v \<longleftrightarrow> \<not> visible_locked d"
    unfolding v by (rule control_status_bits)
  ultimately show "True \<and> fake_sent d' = fake_sent d \<and> fake_outbox d' = fake_outbox d \<and>
      (agx_mbox_control_empty v \<longleftrightarrow> fake_outbox d = [])"
    by (simp add: visible_locked_def fake_outbox_def)
next
  fix d m0 m1 rest assume "fake_outbox d = (m0, m1) # rest"
  then show "\<exists>d1 d2. k_readq fake_kernel d (kBase + AGX_MBOX_I2A_RECV0) = (m0, d1) \<and>
        k_readq fake_kernel d1 (kBase + AGX_MBOX_I2A_RECV1) = (m1, d2) \<and>
        True \<and> fake_sent d2 = fake_sent d \<and> fake_outbox d2 = rest"
    using fake_register_offsets
    by (auto simp: fake_readq_def visible_locked_def fake_outbox_def fake_sent_def split: if_splits)
next
  show "True \<and> fake_sent (snd (k_dma_alloc fake_kernel d w)) = fake_sent d" for d w
    by (simp add: fake_dma_alloc_def fake_sent_def Let_def)
qed (simp_all add: run_now run_sent)

end
