(* ===== verification/Rtkit_Inv.thy ===== *)
theory Rtkit_Inv
  imports Rtkit
begin

text \<open>
  The invariant of the protocol state and what only ever grows. \<open>rtk_ext r r'\<close> says that \<open>r'\<close> extends
  \<open>r\<close>: the invariant is kept, the first error sticks, no endpoint, buffer or milestone
  is forgotten. Every operation extends the state, whatever the firmware sends and
  whatever the transport answers. The locale \<open>rtkit_transport\<close> is the contract between
  the core and its callbacks.
\<close>

section \<open>Invariant\<close>

definition rtk_wf :: "'c agx_rtkit \<Rightarrow> bool" where
  "rtk_wf rtk \<longleftrightarrow>
     length (rtk_endpoints rtk) = 8 \<and> bit (rtk_endpoints rtk ! 0) 0 \<and>
     (\<forall>i. bit (rtk_buffers rtk) i \<longrightarrow> i < 4) \<and>
     rtk_iop_power rtk < 2 ^ 16 \<and> rtk_ap_power rtk < 2 ^ 16 \<and>
     rtk_version rtk \<in> {0, AGX_RTKIT_PROTO_MIN, AGX_RTKIT_PROTO_MAX} \<and>
     (rtk_hello_done rtk \<noteq> 0 \<longrightarrow> rtk_version rtk \<noteq> 0) \<and>
     (rtk_crashed rtk \<noteq> 0 \<longrightarrow> bit (rtk_buffers rtk) 0) \<and>
     {rtk_hello_done rtk, rtk_epmap_done rtk, rtk_iop_acked rtk, rtk_ap_acked rtk, rtk_crashed rtk} \<subseteq> {0, 1}"

definition rtk_ext :: "'c agx_rtkit \<Rightarrow> 'c agx_rtkit \<Rightarrow> bool" where
  "rtk_ext r r' \<longleftrightarrow>
     rtk_ops r' = rtk_ops r \<and> (rtk_wf r \<longrightarrow> rtk_wf r') \<and>
     (rtk_error r \<noteq> 0 \<longrightarrow> rtk_error r' = rtk_error r) \<and>
     length (rtk_endpoints r') = length (rtk_endpoints r) \<and>
     (\<forall>j i. bit (rtk_endpoints r ! j) i \<longrightarrow> bit (rtk_endpoints r' ! j) i) \<and>
     (\<forall>i. bit (rtk_buffers r) i \<longrightarrow> bit (rtk_buffers r') i) \<and>
     (rtk_hello_done r \<noteq> 0 \<longrightarrow> rtk_hello_done r' \<noteq> 0) \<and>
     (rtk_epmap_done r \<noteq> 0 \<longrightarrow> rtk_epmap_done r' \<noteq> 0) \<and>
     (rtk_crashed r \<noteq> 0 \<longrightarrow> rtk_crashed r' \<noteq> 0)"

lemma rtk_ext_refl [simp]: "rtk_ext r r"
  by (simp add: rtk_ext_def)

lemma rtk_ext_trans: "rtk_ext r s \<Longrightarrow> rtk_ext s t \<Longrightarrow> rtk_ext r t"
  by (simp add: rtk_ext_def)

lemma ep_words [simp]: "unat (AGX_RTKIT_EP_COUNT div 32) = 8"
  by code_simp

lemma rtk_init_wf: "rtk_wf (agx_rtkit_init ops c)"
  by (simp add: rtk_wf_def agx_rtkit_init_def pwr_defs)

lemma has_endpoint_bit:
  "agx_rtkit_has_endpoint r ep \<longleftrightarrow>
     ep < 256 \<and> bit (rtk_endpoints r ! unat (ep div 32)) (unat (ep mod 32))"
  by (simp add: agx_rtkit_has_endpoint_def AGX_RTKIT_EP_COUNT_def not_le and_one_eq bit_iff_odd_drop_bit
      odd_iff_mod_2_eq_one)

lemma rtk_ext_has_endpoint: "rtk_ext r r' \<Longrightarrow> agx_rtkit_has_endpoint r ep \<Longrightarrow> agx_rtkit_has_endpoint r' ep"
  by (simp add: rtk_ext_def has_endpoint_bit)

section \<open>Each step extends the state\<close>

lemma ext_fail: "rtk_ext r (agx_rtkit_fail r e)"
  by (simp add: agx_rtkit_fail_def rtk_ext_def rtk_wf_def)

lemma ext_ctx: "rtk_ext r (r\<lparr>rtk_ctx := c\<rparr>)"
  by (simp add: rtk_ext_def rtk_wf_def)

lemma ext_counters:
  "rtk_ext r (r\<lparr>rtk_rx_count := a\<rparr>)" "rtk_ext r (r\<lparr>rtk_stray_count := b\<rparr>)"
  "rtk_ext r (r\<lparr>rtk_unknown_count := d\<rparr>)" "rtk_ext r (agx_rtkit_note_unknown r m)"
  by (simp_all add: rtk_ext_def rtk_wf_def agx_rtkit_note_unknown_def)

lemma ext_acks:
  "rtk_ext r (r\<lparr>rtk_iop_acked := 0\<rparr>)" "rtk_ext r (r\<lparr>rtk_ap_acked := 0\<rparr>)"
  "p < 2 ^ 16 \<Longrightarrow> rtk_ext r (r\<lparr>rtk_iop_power := p, rtk_iop_acked := 1\<rparr>)"
  "p < 2 ^ 16 \<Longrightarrow> rtk_ext r (r\<lparr>rtk_ap_power := p, rtk_ap_acked := 1\<rparr>)"
  by (simp_all add: rtk_ext_def rtk_wf_def)

lemma ext_flags:
  "rtk_ext r (r\<lparr>rtk_epmap_done := 1\<rparr>)"
  "bit (rtk_buffers r) 0 \<Longrightarrow> rtk_ext r (r\<lparr>rtk_crashed := 1\<rparr>)"
  "rtk_version r \<noteq> 0 \<Longrightarrow> rtk_ext r (r\<lparr>rtk_hello_done := 1\<rparr>)"
  "v \<in> {AGX_RTKIT_PROTO_MIN, AGX_RTKIT_PROTO_MAX} \<Longrightarrow> rtk_ext r (r\<lparr>rtk_version := v\<rparr>)"
  by (auto simp: rtk_ext_def rtk_wf_def AGX_RTKIT_PROTO_MIN_def AGX_RTKIT_PROTO_MAX_def)

lemma ext_endpoints: "rtk_ext r (r\<lparr>rtk_endpoints := (rtk_endpoints r)[j := rtk_endpoints r ! j OR b]\<rparr>)"
  by (cases "j < length (rtk_endpoints r)")
    (auto simp: rtk_ext_def rtk_wf_def nth_list_update bit_or_iff list_update_beyond)

lemma buffer_bit_bound: "bit (agx_rtkit_buffer_bit ep) i \<Longrightarrow> i < 4"
  by (auto simp: agx_rtkit_buffer_bit_def AGX_RTKIT_BUFFER_CRASHLOG_def AGX_RTKIT_BUFFER_SYSLOG_def
      AGX_RTKIT_BUFFER_IOREPORT_def AGX_RTKIT_BUFFER_OSLOG_def bit_unsigned_iff split: if_splits)

lemma ext_buffers: "rtk_ext r (r\<lparr>rtk_buffers := rtk_buffers r OR agx_rtkit_buffer_bit ep\<rparr>)"
  by (auto simp: rtk_ext_def rtk_wf_def bit_or_iff dest: buffer_bit_bound)

lemma ext_send: "rtk_ext r (snd (agx_rtkit_send r ep m))" "rtk_ext r (snd (agx_rtkit_mgmt_send r t p))"
proof -
  show s: "rtk_ext r (snd (agx_rtkit_send r ep m))" for ep m
    by (auto simp: agx_rtkit_send_def Let_def split: prod.split intro: ext_ctx rtk_ext_trans [OF ext_ctx ext_fail])
  show "rtk_ext r (snd (agx_rtkit_mgmt_send r t p))" by (simp add: agx_rtkit_mgmt_send_def s)
qed

lemmas ext_steps = ext_fail ext_ctx ext_counters ext_acks ext_flags ext_endpoints ext_buffers ext_send

lemma ext_set_power:
  "rtk_ext r (snd (agx_rtkit_set_iop_power r s))" "rtk_ext r (snd (agx_rtkit_set_ap_power r s))"
  unfolding agx_rtkit_set_iop_power_def agx_rtkit_set_ap_power_def
  by (rule rtk_ext_trans [OF ext_acks(1) ext_send(2)] rtk_ext_trans [OF ext_acks(2) ext_send(2)])+

lemma ext_start_endpoint: "rtk_ext r (snd (agx_rtkit_start_endpoint r ep))"
  by (simp add: agx_rtkit_start_endpoint_def ext_send)

lemma send_version: "rtk_version (snd (agx_rtkit_send r ep m)) = rtk_version r"
  by (simp add: agx_rtkit_send_def agx_rtkit_fail_def Let_def split: prod.split)

lemma ext_hello: "rtk_ext r (agx_rtkit_rx_hello r m)"
proof -
  let ?min = "ucast (AGX_FIELD_GET m AGX_RTKIT_HELLO_MINVER_SHIFT AGX_RTKIT_HELLO_VER_MASK) :: u32"
  let ?max = "ucast (AGX_FIELD_GET m AGX_RTKIT_HELLO_MAXVER_SHIFT AGX_RTKIT_HELLO_VER_MASK) :: u32"
  let ?want = "if ?max < AGX_RTKIT_PROTO_MAX then ?max else AGX_RTKIT_PROTO_MAX"
  let ?reply = "AGX_FIELD_PUT (ucast ?want) AGX_RTKIT_HELLO_MINVER_SHIFT AGX_RTKIT_HELLO_VER_MASK OR
    AGX_FIELD_PUT (ucast ?want) AGX_RTKIT_HELLO_MAXVER_SHIFT AGX_RTKIT_HELLO_VER_MASK"
  show ?thesis
  proof (cases "?min > ?max \<or> ?min > AGX_RTKIT_PROTO_MAX \<or> ?max < AGX_RTKIT_PROTO_MIN")
    case True
    then show ?thesis by (simp add: agx_rtkit_rx_hello_def Let_def ext_fail)
  next
    case False
    then have w: "?want \<in> {AGX_RTKIT_PROTO_MIN, AGX_RTKIT_PROTO_MAX}"
      by (auto simp: AGX_RTKIT_PROTO_MIN_def AGX_RTKIT_PROTO_MAX_def word_less_nat_alt word_unat_eq_iff)
    let ?r1 = "r\<lparr>rtk_version := ?want\<rparr>"
    obtain ret r2 where r2: "agx_rtkit_mgmt_send ?r1 AGX_RTKIT_MGMT_HELLO_REPLY ?reply = (ret, r2)"
      by (rule prod.exhaust)
    have "rtk_ext ?r1 (snd (agx_rtkit_mgmt_send ?r1 AGX_RTKIT_MGMT_HELLO_REPLY ?reply))"
      by (rule ext_send(2))
    with ext_flags(4) [OF w] have e: "rtk_ext r r2" unfolding r2 snd_conv by (rule rtk_ext_trans)
    have "rtk_version (snd (agx_rtkit_mgmt_send ?r1 AGX_RTKIT_MGMT_HELLO_REPLY ?reply)) = rtk_version ?r1"
      unfolding agx_rtkit_mgmt_send_def by (rule send_version)
    then have "rtk_version r2 = ?want" unfolding r2 snd_conv by simp
    with w have "rtk_version r2 \<noteq> 0" by (auto simp: AGX_RTKIT_PROTO_MIN_def AGX_RTKIT_PROTO_MAX_def)
    with e have "rtk_ext r (r2\<lparr>rtk_hello_done := 1\<rparr>)" using rtk_ext_trans ext_flags(3) by blast
    with e False r2 show ?thesis by (simp add: agx_rtkit_rx_hello_def Let_def)
  qed
qed

lemma ext_epmap_loop: "rtk_ext r (epmap_start_loop eps r)"
proof (induction eps arbitrary: r)
  case Nil
  then show ?case by (simp add: ext_flags)
next
  case (Cons ep rest)
  obtain ret r' where s: "agx_rtkit_start_endpoint r ep = (ret, r')" by (metis prod.collapse)
  with ext_start_endpoint [of r ep] have "rtk_ext r r'" by simp
  with Cons.IH [of r'] have "rtk_ext r (epmap_start_loop rest r')" by (blast intro: rtk_ext_trans)
  moreover have "rtk_ext r (epmap_start_loop rest (r\<lparr>rtk_unknown_count := rtk_unknown_count r + 1\<rparr>))"
    using ext_counters(3) Cons.IH by (rule rtk_ext_trans)
  ultimately show ?case using s \<open>rtk_ext r r'\<close> Cons.IH [of r] by simp
qed

text \<open>The shape of \<^verbatim>\<open>agx_rtkit_rx_epmap\<close>, with the reply and the loop named.\<close>

definition epmap_base :: "u64 \<Rightarrow> u32" where
  "epmap_base m = ucast (AGX_FIELD_GET m AGX_RTKIT_EPMAP_BASE_SHIFT AGX_RTKIT_EPMAP_BASE_MASK)"

definition epmap_merge :: "'c agx_rtkit \<Rightarrow> u64 \<Rightarrow> 'c agx_rtkit" where
  "epmap_merge r m = r\<lparr>rtk_endpoints := (rtk_endpoints r)[unat (epmap_base m) :=
     rtk_endpoints r ! unat (epmap_base m) OR ucast (AGX_FIELD_GET m 0 AGX_RTKIT_EPMAP_BITMAP_MASK)]\<rparr>"

definition epmap_reply :: "u64 \<Rightarrow> u64" where
  "epmap_reply m = AGX_FIELD_PUT (ucast (epmap_base m)) AGX_RTKIT_EPMAP_BASE_SHIFT AGX_RTKIT_EPMAP_BASE_MASK OR
     (if bit m 51 then AGX_RTKIT_EPMAP_LAST else AGX_RTKIT_EPMAP_MORE)"

definition sys_endpoints :: "u32 list" where
  "sys_endpoints = map word_of_nat [1..<32]"

lemma epmap_last_bit: "m AND AGX_RTKIT_EPMAP_LAST = 0 \<longleftrightarrow> \<not> bit m 51"
  by (simp add: AGX_RTKIT_EPMAP_LAST_def and_bit64_zero_iff)

lemma rx_epmap_eq:
  "agx_rtkit_rx_epmap r m =
     (let (ret, r') = agx_rtkit_mgmt_send (epmap_merge r m) AGX_RTKIT_MGMT_EPMAP_REPLY (epmap_reply m)
      in if ret \<noteq> 0 \<or> \<not> bit m 51 then r' else epmap_start_loop sys_endpoints r')"
proof -
  have "unat AGX_RTKIT_EP_APP_START = 32" by code_simp
  then show ?thesis
    by (simp add: agx_rtkit_rx_epmap_def epmap_merge_def epmap_reply_def epmap_base_def Let_def
        epmap_last_bit sys_endpoints_def split: prod.split)
qed

lemma ext_epmap: "rtk_ext r (agx_rtkit_rx_epmap r m)"
proof -
  obtain ret r' where s: "agx_rtkit_mgmt_send (epmap_merge r m) AGX_RTKIT_MGMT_EPMAP_REPLY (epmap_reply m) = (ret, r')"
    by (metis prod.collapse)
  have "rtk_ext r (epmap_merge r m)" by (simp add: epmap_merge_def ext_endpoints)
  with ext_send(2) have "rtk_ext r r'" using s rtk_ext_trans by (metis snd_conv)
  with s ext_epmap_loop [of r'] show ?thesis
    by (auto simp: rx_epmap_eq intro: rtk_ext_trans)
qed

lemma ext_mgmt: "rtk_ext r (agx_rtkit_rx_mgmt r m)"
proof -
  let ?s = "ucast (AGX_FIELD_GET m 0 AGX_RTKIT_PWR_STATE_MASK) :: u32"
  have "?s < 2 ^ 16"
    unfolding rtkit_masks using word_less_exp_iff_bits [of 16 ?s]
    by (simp add: bit_unsigned_iff bit_AGX_FIELD_GET_mask rtkit_masks)
  then show ?thesis
    by (simp add: agx_rtkit_rx_mgmt_def Let_def ext_hello ext_epmap ext_acks ext_counters)
qed

text \<open>The fields of a buffer request and of the reply, with the OSLog layout apart.\<close>

definition buf_size :: "u32 \<Rightarrow> u64 \<Rightarrow> u64" where
  "buf_size ep m = (if ep = AGX_RTKIT_EP_OSLOG
     then AGX_FIELD_GET m AGX_RTKIT_OSLOG_SIZE_SHIFT AGX_RTKIT_OSLOG_SIZE_MASK
     else push_bit AGX_RTKIT_PAGE_SHIFT (AGX_FIELD_GET m AGX_RTKIT_BUFREQ_SIZE_SHIFT AGX_RTKIT_BUFREQ_SIZE_MASK))"

definition buf_iova :: "u32 \<Rightarrow> u64 \<Rightarrow> u64" where
  "buf_iova ep m = (if ep = AGX_RTKIT_EP_OSLOG
     then push_bit AGX_RTKIT_PAGE_SHIFT (AGX_FIELD_GET m 0 AGX_RTKIT_OSLOG_IOVA_MASK)
     else AGX_FIELD_GET m 0 AGX_RTKIT_BUFREQ_IOVA_MASK)"

definition buf_reply :: "u32 \<Rightarrow> u64 \<Rightarrow> u64 \<Rightarrow> u64" where
  "buf_reply ep sz iova = (if ep = AGX_RTKIT_EP_OSLOG
     then AGX_FIELD_PUT (ucast AGX_RTKIT_BUFFER_REQUEST) AGX_RTKIT_OSLOG_TYPE_SHIFT AGX_RTKIT_TYPE_MASK OR
          AGX_FIELD_PUT sz AGX_RTKIT_OSLOG_SIZE_SHIFT AGX_RTKIT_OSLOG_SIZE_MASK OR
          AGX_FIELD_PUT (drop_bit AGX_RTKIT_PAGE_SHIFT iova) 0 AGX_RTKIT_OSLOG_IOVA_MASK
     else AGX_FIELD_PUT (ucast AGX_RTKIT_BUFFER_REQUEST) AGX_RTKIT_TYPE_SHIFT AGX_RTKIT_TYPE_MASK OR
          AGX_FIELD_PUT (drop_bit AGX_RTKIT_PAGE_SHIFT sz) AGX_RTKIT_BUFREQ_SIZE_SHIFT AGX_RTKIT_BUFREQ_SIZE_MASK OR
          AGX_FIELD_PUT iova 0 AGX_RTKIT_BUFREQ_IOVA_MASK)"

lemma get_buffer_eq:
  "agx_rtkit_get_buffer r ep m =
     (if buf_size ep m = 0 then agx_rtkit_fail r AGX_EINVAL
      else case op_buffer (rtk_ops r) of
        None \<Rightarrow> agx_rtkit_fail r AGX_ENODEV
      | Some f \<Rightarrow>
          (case f (rtk_ctx r) ep (buf_size ep m) (buf_iova ep m) of ((ret, iova), c) \<Rightarrow>
             if ret \<noteq> 0 then agx_rtkit_fail (r\<lparr>rtk_ctx := c\<rparr>) ret
             else snd (agx_rtkit_send
               (r\<lparr>rtk_ctx := c, rtk_buffers := rtk_buffers r OR agx_rtkit_buffer_bit ep\<rparr>)
               ep (buf_reply ep (buf_size ep m) iova))))"
  by (cases "op_buffer (rtk_ops r)"; cases "ep = AGX_RTKIT_EP_OSLOG")
    (simp_all add: agx_rtkit_get_buffer_def buf_size_def buf_iova_def buf_reply_def Let_def split: prod.split)

lemma ext_get_buffer: "rtk_ext r (agx_rtkit_get_buffer r ep m)"
proof -
  have "rtk_ext r (agx_rtkit_fail (r\<lparr>rtk_ctx := c\<rparr>) e)" for c e
    using ext_ctx ext_fail by (rule rtk_ext_trans)
  moreover have "rtk_ext r (snd (agx_rtkit_send (r\<lparr>rtk_ctx := c, rtk_buffers := rtk_buffers r OR agx_rtkit_buffer_bit ep\<rparr>) ep w))" for c w
    using rtk_ext_trans [OF rtk_ext_trans [OF ext_ctx ext_buffers] ext_send(1), of r c] by simp
  ultimately show ?thesis
    by (auto simp: get_buffer_eq ext_fail split: prod.split option.split)
qed

lemma crash_bit: "b AND (ucast AGX_RTKIT_BUFFER_CRASHLOG :: u32) = 0 \<longleftrightarrow> \<not> bit b 0"
  by (simp add: AGX_RTKIT_BUFFER_CRASHLOG_def AGX_BIT64_def and_one_eq bit_0 odd_iff_mod_2_eq_one)

lemma ext_crashlog: "rtk_ext r (agx_rtkit_rx_crashlog r m)"
  using ext_flags(2) [of r] rtk_ext_trans [OF ext_flags(2) ext_ctx, of r]
  by (auto simp: agx_rtkit_rx_crashlog_def Let_def crash_bit ext_counters ext_get_buffer split: option.split)

lemma ext_system:
  "rtk_ext r (agx_rtkit_rx_syslog r m)" "rtk_ext r (agx_rtkit_rx_ioreport r m)"
  "rtk_ext r (agx_rtkit_rx_oslog r m)"
  by (simp_all add: agx_rtkit_rx_syslog_def agx_rtkit_rx_ioreport_def agx_rtkit_rx_oslog_def Let_def
      ext_get_buffer ext_send ext_counters)

lemma ext_rx: "rtk_ext r (agx_rtkit_rx r ep m)"
proof -
  let ?r1 = "r\<lparr>rtk_rx_count := rtk_rx_count r + 1\<rparr>"
  let ?r2 = "if \<not> agx_rtkit_has_endpoint ?r1 (ep AND 0xff)
    then ?r1\<lparr>rtk_stray_count := rtk_stray_count ?r1 + 1\<rparr> else ?r1"
  have "rtk_ext r ?r2"
    using ext_counters(1) [of r] rtk_ext_trans [OF ext_counters(1) ext_counters(2), of r] by simp
  moreover have "rtk_ext ?r2 (agx_rtkit_rx r ep m)"
    unfolding agx_rtkit_rx_def Let_def
    by (simp only: ext_mgmt ext_crashlog ext_system ext_counters ext_ctx split: if_split option.split) simp
  ultimately show ?thesis by (rule rtk_ext_trans)
qed

end
