(* ===== verification/Rtkit_Theorems.thy ===== *)
theory Rtkit_Theorems
  imports Rtkit_Inv
begin

text \<open>
  The theorems about the RTKit core: reachable states, the transport contract, version
  negotiation, the endpoint map, endpoint starts, buffer requests and crash reports.
\<close>

section \<open>Inputs and reachable states\<close>

datatype rtk_input =
    In_Rx u32 u64
  | In_Iop u32
  | In_Ap u32
  | In_Start u32

fun rtk_apply :: "rtk_input \<Rightarrow> 'c agx_rtkit \<Rightarrow> 'c agx_rtkit" where
  "rtk_apply (In_Rx ep m) r = agx_rtkit_rx r ep m"
| "rtk_apply (In_Iop s) r = snd (agx_rtkit_set_iop_power r s)"
| "rtk_apply (In_Ap s) r = snd (agx_rtkit_set_ap_power r s)"
| "rtk_apply (In_Start ep) r = snd (agx_rtkit_start_endpoint r ep)"

lemma ext_apply: "rtk_ext r (rtk_apply i r)"
  by (cases i) (simp_all add: ext_rx ext_set_power ext_start_endpoint)

lemma ext_fold: "rtk_ext r (fold rtk_apply is r)"
proof (induction "is" arbitrary: r)
  case (Cons i "is")
  show ?case using ext_apply [of r i] Cons.IH [of "rtk_apply i r"] by (auto intro: rtk_ext_trans)
qed simp

text \<open>The states of a protocol core: initialised, then driven by inputs in any order, while the
  transport state may change on its own in between. The transport starts in a state with \<open>C\<close> and its own
  changes end in one; with \<open>C\<close> always true they are arbitrary.\<close>

inductive rtk_reach :: "'c agx_rtkit_ops \<Rightarrow> ('c \<Rightarrow> bool) \<Rightarrow> 'c agx_rtkit \<Rightarrow> bool" for ops C where
  init: "C c \<Longrightarrow> rtk_reach ops C (agx_rtkit_init ops c)"
| input: "rtk_reach ops C r \<Longrightarrow> rtk_reach ops C (rtk_apply i r)"
| environment: "rtk_reach ops C r \<Longrightarrow> C c \<Longrightarrow> rtk_reach ops C (r\<lparr>rtk_ctx := c\<rparr>)"

inductive_cases rtk_reachE: "rtk_reach ops C r"

lemma reach_wf: "rtk_reach ops C r \<Longrightarrow> rtk_wf r \<and> rtk_ops r = ops"
proof (induction rule: rtk_reach.induct)
  case (init c)
  then show ?case by (simp add: rtk_init_wf) (simp add: agx_rtkit_init_def)
next
  case (input r i)
  then show ?case using ext_apply [of r i] by (simp add: rtk_ext_def)
next
  case (environment r c)
  then show ?case using ext_ctx [of r c] by (simp add: rtk_ext_def)
qed

section \<open>The transport contract\<close>

locale rtkit_transport =
  fixes cinv :: "'c \<Rightarrow> bool"
    and ops :: "'c agx_rtkit_ops"
  assumes send_keeps: "cinv c \<Longrightarrow> cinv (snd (op_send ops c ep m))"
    and buffer_keeps: "cinv c \<Longrightarrow> op_buffer ops = Some f \<Longrightarrow> cinv (snd (f c ep sz iova))"
    and app_keeps: "cinv c \<Longrightarrow> op_app ops = Some g \<Longrightarrow> cinv (g c ep m)"
    and crashed_keeps: "cinv c \<Longrightarrow> op_crashed ops = Some h \<Longrightarrow> cinv (h c)"
begin

definition keeps :: "'c agx_rtkit \<Rightarrow> bool" where
  "keeps r \<longleftrightarrow> rtk_ops r = ops \<and> cinv (rtk_ctx r)"

lemma keeps_simps [simp]:
  "keeps (agx_rtkit_fail r e) = keeps r" "keeps (agx_rtkit_note_unknown r m) = keeps r"
  "keeps (r\<lparr>rtk_rx_count := a\<rparr>) = keeps r" "keeps (r\<lparr>rtk_stray_count := a\<rparr>) = keeps r"
  "keeps (r\<lparr>rtk_unknown_count := a\<rparr>) = keeps r" "keeps (r\<lparr>rtk_version := v\<rparr>) = keeps r"
  "keeps (r\<lparr>rtk_iop_acked := b\<rparr>) = keeps r" "keeps (r\<lparr>rtk_ap_acked := b\<rparr>) = keeps r"
  "keeps (r\<lparr>rtk_iop_power := p\<rparr>) = keeps r" "keeps (r\<lparr>rtk_ap_power := p\<rparr>) = keeps r"
  "keeps (r\<lparr>rtk_hello_done := b\<rparr>) = keeps r" "keeps (r\<lparr>rtk_epmap_done := b\<rparr>) = keeps r"
  "keeps (r\<lparr>rtk_crashed := b\<rparr>) = keeps r" "keeps (r\<lparr>rtk_buffers := v\<rparr>) = keeps r"
  "keeps (epmap_merge r m) = keeps r"
  by (simp_all add: keeps_def agx_rtkit_fail_def agx_rtkit_note_unknown_def epmap_merge_def)

lemma keeps_send: "keeps r \<Longrightarrow> keeps (snd (agx_rtkit_send r ep m))"
  using send_keeps [of "rtk_ctx r" ep m]
  by (auto simp: agx_rtkit_send_def keeps_def agx_rtkit_fail_def Let_def split: prod.split)

lemma keeps_mgmt_send: "keeps r \<Longrightarrow> keeps (snd (agx_rtkit_mgmt_send r t p))"
  by (simp add: agx_rtkit_mgmt_send_def keeps_send)

lemma keeps_start: "keeps r \<Longrightarrow> keeps (snd (agx_rtkit_start_endpoint r ep))"
  by (simp add: agx_rtkit_start_endpoint_def keeps_mgmt_send)

lemma keeps_loop: "keeps r \<Longrightarrow> keeps (epmap_start_loop eps r)"
proof (induction eps arbitrary: r)
  case (Cons ep rest)
  obtain ret r' where s: "agx_rtkit_start_endpoint r ep = (ret, r')" by (rule prod.exhaust)
  with keeps_start [OF Cons.prems, of ep] have "keeps r'" by simp
  with s Cons show ?case by simp
qed simp

lemma keeps_hello: "keeps r \<Longrightarrow> keeps (agx_rtkit_rx_hello r m)"
  by (simp add: agx_rtkit_rx_hello_def Let_def case_prod_beta keeps_mgmt_send)

lemma keeps_epmap: "keeps r \<Longrightarrow> keeps (agx_rtkit_rx_epmap r m)"
  by (simp add: rx_epmap_eq Let_def case_prod_beta keeps_mgmt_send keeps_loop)

lemma keeps_get_buffer: "keeps r \<Longrightarrow> keeps (agx_rtkit_get_buffer r ep m)"
proof -
  assume r: "keeps r"
  have "keeps (r\<lparr>rtk_ctx := c\<rparr>)"
    if "op_buffer (rtk_ops r) = Some f" "f (rtk_ctx r) ep a b = ((ret, i), c)" for f a b c ret i
    using buffer_keeps [of "rtk_ctx r" f ep a b] that r by (simp add: keeps_def)
  then show ?thesis
    using r by (auto simp: get_buffer_eq keeps_send split: option.split prod.split)
qed

lemma keeps_rx: "keeps r \<Longrightarrow> keeps (agx_rtkit_rx r ep m)"
proof -
  have mgmt: "keeps r \<Longrightarrow> keeps (agx_rtkit_rx_mgmt r m)" for r
    by (simp add: agx_rtkit_rx_mgmt_def Let_def keeps_hello keeps_epmap)
  have crash: "keeps r \<Longrightarrow> keeps (agx_rtkit_rx_crashlog r m)" for r
    using crashed_keeps [of "rtk_ctx r"]
    by (auto simp: agx_rtkit_rx_crashlog_def Let_def keeps_get_buffer split: option.split)
      (simp add: keeps_def)
  have sys: "keeps r \<Longrightarrow> keeps (agx_rtkit_rx_syslog r m)" "keeps r \<Longrightarrow> keeps (agx_rtkit_rx_ioreport r m)"
    "keeps r \<Longrightarrow> keeps (agx_rtkit_rx_oslog r m)" for r
    by (simp_all add: agx_rtkit_rx_syslog_def agx_rtkit_rx_ioreport_def agx_rtkit_rx_oslog_def Let_def
        keeps_get_buffer keeps_send)
  assume "keeps r"
  then show ?thesis
    by (auto simp: agx_rtkit_rx_def Let_def mgmt crash sys split: option.split)
      (auto simp: keeps_def intro: app_keeps)
qed

lemma keeps_apply: "keeps r \<Longrightarrow> keeps (rtk_apply i r)"
  by (cases i) (simp_all add: keeps_rx keeps_start agx_rtkit_set_iop_power_def agx_rtkit_set_ap_power_def
      keeps_mgmt_send)

lemma reach_keeps: "rtk_reach ops cinv r \<Longrightarrow> cinv (rtk_ctx r)"
proof -
  assume "rtk_reach ops cinv r"
  then have "keeps r"
  proof induction
    case (input r i)
    show ?case using input.IH by (rule keeps_apply)
  qed (simp_all add: keeps_def agx_rtkit_init_def)
  then show ?thesis by (simp add: keeps_def)
qed

end

section \<open>Message fields\<close>

lemma bit_mgmt_msg:
  "bit (agx_rtkit_mgmt_msg t p) i \<longleftrightarrow>
     i < 64 \<and> (if 52 \<le> i \<and> i < 60 then bit t (i - 52) else bit p i)"
  unfolding agx_rtkit_mgmt_msg_def rtkit_masks AGX_RTKIT_TYPE_SHIFT_def
  by (auto simp: bit_or_iff bit_and_iff bit_not_iff bit_push_bit_iff bit_mask_iff bit_AGX_FIELD_PUT_mask
      bit_unsigned_iff dest: bit_imp_le_length)

lemma mgmt_msg_type:
  "t < 256 \<Longrightarrow> ucast (AGX_FIELD_GET (agx_rtkit_mgmt_msg t p) AGX_RTKIT_TYPE_SHIFT AGX_RTKIT_TYPE_MASK) = t"
  using word_less_exp_iff_bits [of 8 t]
  by (auto simp: word_eq_iff_bits rtkit_masks AGX_RTKIT_TYPE_SHIFT_def bit_unsigned_iff
      bit_AGX_FIELD_GET_mask bit_mgmt_msg)

lemma mgmt_msg_low:
  "s + k \<le> 52 \<Longrightarrow> AGX_FIELD_GET (agx_rtkit_mgmt_msg t p) s (mask k) = AGX_FIELD_GET p s (mask k)"
  by (auto simp: word_eq_iff_bits bit_AGX_FIELD_GET_mask bit_mgmt_msg)

lemma wf_mgmt_endpoint: "rtk_wf r \<Longrightarrow> agx_rtkit_has_endpoint r 0"
  by (simp add: has_endpoint_bit rtk_wf_def)

lemma rx_mgmt: "rtk_wf r \<Longrightarrow> agx_rtkit_rx r 0 m = agx_rtkit_rx_mgmt (r\<lparr>rtk_rx_count := rtk_rx_count r + 1\<rparr>) m"
  using wf_mgmt_endpoint [of "r\<lparr>rtk_rx_count := rtk_rx_count r + 1\<rparr>"]
  by (simp add: agx_rtkit_rx_def AGX_RTKIT_EP_MGMT_def Let_def) (simp add: rtk_wf_def)

definition mgmt_type :: "u64 \<Rightarrow> u32" where
  "mgmt_type m = ucast (AGX_FIELD_GET m AGX_RTKIT_TYPE_SHIFT AGX_RTKIT_TYPE_MASK)"

definition hello_min :: "u64 \<Rightarrow> u32" where
  "hello_min m = ucast (AGX_FIELD_GET m AGX_RTKIT_HELLO_MINVER_SHIFT AGX_RTKIT_HELLO_VER_MASK)"

definition hello_max :: "u64 \<Rightarrow> u32" where
  "hello_max m = ucast (AGX_FIELD_GET m AGX_RTKIT_HELLO_MAXVER_SHIFT AGX_RTKIT_HELLO_VER_MASK)"

definition hello_reply :: "u32 \<Rightarrow> u64" where
  "hello_reply v = agx_rtkit_mgmt_msg AGX_RTKIT_MGMT_HELLO_REPLY
     (AGX_FIELD_PUT (ucast v) AGX_RTKIT_HELLO_MINVER_SHIFT AGX_RTKIT_HELLO_VER_MASK OR
      AGX_FIELD_PUT (ucast v) AGX_RTKIT_HELLO_MAXVER_SHIFT AGX_RTKIT_HELLO_VER_MASK)"

definition startep_msg :: "u32 \<Rightarrow> u64" where
  "startep_msg ep = agx_rtkit_mgmt_msg AGX_RTKIT_MGMT_STARTEP
     (AGX_FIELD_PUT (ucast ep) AGX_RTKIT_STARTEP_EP_SHIFT AGX_RTKIT_STARTEP_EP_MASK OR AGX_RTKIT_STARTEP_FLAG)"

definition hello_want :: "u64 \<Rightarrow> u32" where
  "hello_want m = (if hello_max m < AGX_RTKIT_PROTO_MAX then hello_max m else AGX_RTKIT_PROTO_MAX)"

lemma rx_hello_eq:
  "agx_rtkit_rx_hello r m =
     (if hello_min m > hello_max m \<or> hello_min m > AGX_RTKIT_PROTO_MAX \<or> hello_max m < AGX_RTKIT_PROTO_MIN
      then agx_rtkit_fail r AGX_EINVAL
      else let (ret, r') = agx_rtkit_send (r\<lparr>rtk_version := hello_want m\<rparr>) AGX_RTKIT_EP_MGMT
                 (hello_reply (hello_want m))
           in if ret \<noteq> 0 then r' else r'\<lparr>rtk_hello_done := 1\<rparr>)"
  unfolding agx_rtkit_rx_hello_def agx_rtkit_mgmt_send_def hello_reply_def hello_want_def Let_def
    hello_min_def hello_max_def by (rule refl)

lemma field_of_ucast:
  "v < 2 ^ k \<Longrightarrow> k < 32 \<Longrightarrow> ucast (v :: u32) AND mask k = (ucast v :: u64)"
  using word_less_exp_iff_bits [of k v] by (auto simp: word_eq_iff_bits bit_simps)

lemma hello_reply_fields:
  assumes "v < 2 ^ 16"
  shows "hello_min (hello_reply v) = v" "hello_max (hello_reply v) = v"
    "mgmt_type (hello_reply v) = AGX_RTKIT_MGMT_HELLO_REPLY"
proof -
  have z: "ucast v AND mask 16 = (ucast v :: u64)" using assms field_of_ucast [of v 16] by simp
  show "hello_min (hello_reply v) = v" "hello_max (hello_reply v) = v"
    unfolding hello_min_def hello_max_def hello_reply_def rtkit_masks rtkit_field_defs
    by (simp_all add: mgmt_msg_low agx_field z)
  show "mgmt_type (hello_reply v) = AGX_RTKIT_MGMT_HELLO_REPLY"
    unfolding mgmt_type_def hello_reply_def by (rule mgmt_msg_type) (simp add: rtkit_mgmt_defs)
qed

lemma startep_msg_fields:
  assumes "ep < 256"
  shows "ucast (AGX_FIELD_GET (startep_msg ep) AGX_RTKIT_STARTEP_EP_SHIFT AGX_RTKIT_STARTEP_EP_MASK) = ep"
    "mgmt_type (startep_msg ep) = AGX_RTKIT_MGMT_STARTEP" "bit (startep_msg ep) 1"
proof -
  have z: "ucast ep AND mask 8 = (ucast ep :: u64)" using assms field_of_ucast [of ep 8] by simp
  have "AGX_FIELD_GET AGX_RTKIT_STARTEP_FLAG 32 (mask 8) = 0"
    by (auto simp: word_eq_iff_bits bit_AGX_FIELD_GET_mask AGX_RTKIT_STARTEP_FLAG_def)
  then show "ucast (AGX_FIELD_GET (startep_msg ep) AGX_RTKIT_STARTEP_EP_SHIFT AGX_RTKIT_STARTEP_EP_MASK) = ep"
    unfolding startep_msg_def rtkit_masks rtkit_field_defs
    by (simp add: mgmt_msg_low agx_field z)
  show "mgmt_type (startep_msg ep) = AGX_RTKIT_MGMT_STARTEP"
    unfolding mgmt_type_def startep_msg_def by (rule mgmt_msg_type) (simp add: rtkit_mgmt_defs)
  show "bit (startep_msg ep) 1"
    by (simp add: startep_msg_def bit_mgmt_msg bit_or_iff AGX_RTKIT_STARTEP_FLAG_def)
qed

section \<open>The endpoint map loop\<close>

lemma has_endpoint_cong: "rtk_endpoints r' = rtk_endpoints r \<Longrightarrow> agx_rtkit_has_endpoint r' = agx_rtkit_has_endpoint r"
  by (simp add: fun_eq_iff has_endpoint_bit)

lemma has_endpoint_upd [simp]:
  "agx_rtkit_has_endpoint (r\<lparr>rtk_ctx := c\<rparr>) = agx_rtkit_has_endpoint r"
  "agx_rtkit_has_endpoint (r\<lparr>rtk_unknown_count := n\<rparr>) = agx_rtkit_has_endpoint r"
  "agx_rtkit_has_endpoint (r\<lparr>rtk_rx_count := n\<rparr>) = agx_rtkit_has_endpoint r"
  "agx_rtkit_has_endpoint (r\<lparr>rtk_epmap_done := d\<rparr>) = agx_rtkit_has_endpoint r"
  by (rule has_endpoint_cong; simp)+

definition sys5 :: "u32 set" where "sys5 = {1, 2, 3, 4, 8}"

lemma sys5_eq: "{AGX_RTKIT_EP_CRASHLOG, AGX_RTKIT_EP_SYSLOG, AGX_RTKIT_EP_DEBUG, AGX_RTKIT_EP_IOREPORT,
    AGX_RTKIT_EP_OSLOG} = sys5"
  by (simp add: rtkit_ep_defs sys5_def)

lemma start_system:
  assumes "ep \<in> sys5" "agx_rtkit_has_endpoint r ep"
  shows "agx_rtkit_start_endpoint r ep = agx_rtkit_send r 0 (startep_msg ep)"
proof -
  have "\<not> AGX_RTKIT_EP_COUNT \<le> ep" "\<not> AGX_RTKIT_EP_APP_START \<le> ep"
    using assms(1) by (auto simp: sys5_def rtkit_ep_defs word_le_nat_alt)
  with assms(2) show ?thesis
    by (simp add: agx_rtkit_start_endpoint_def agx_rtkit_mgmt_send_def startep_msg_def AGX_RTKIT_EP_MGMT_def)
qed

text \<open>When every send is accepted: one start message per advertised system endpoint, in order, and the
  map is complete.\<close>

lemma epmap_loop_sends:
  assumes ok: "\<And>c e x. fst (op_send (rtk_ops r) c e x) = 0"
  shows "\<exists>n. epmap_start_loop eps r = r\<lparr>rtk_epmap_done := 1, rtk_unknown_count := n,
     rtk_ctx := fold (\<lambda>e c. snd (op_send (rtk_ops r) c 0 (startep_msg e)))
       (filter (\<lambda>e. e \<in> sys5 \<and> agx_rtkit_has_endpoint r e) eps) (rtk_ctx r)\<rparr>"
  using ok
proof (induction eps arbitrary: r)
  case Nil
  show ?case by (intro exI [of _ "rtk_unknown_count r"]) simp
next
  case (Cons ep eps)
  consider (absent) "\<not> agx_rtkit_has_endpoint r ep" | (sys) "agx_rtkit_has_endpoint r ep" "ep \<in> sys5"
    | (other) "agx_rtkit_has_endpoint r ep" "ep \<notin> sys5" by blast
  then show ?case
  proof cases
    case absent
    then show ?thesis using Cons by simp
  next
    case sys
    let ?r = "r\<lparr>rtk_ctx := snd (op_send (rtk_ops r) (rtk_ctx r) 0 (startep_msg ep))\<rparr>"
    have "agx_rtkit_start_endpoint r ep = (0, ?r)"
      using Cons.prems [of "rtk_ctx r" 0 "startep_msg ep"]
      by (simp add: start_system [OF sys(2,1)] agx_rtkit_send_def Let_def case_prod_beta)
    with sys Cons.IH [of ?r] Cons.prems show ?thesis
      by (auto simp: sys5_eq)
  next
    case other
    with Cons.IH [of "r\<lparr>rtk_unknown_count := rtk_unknown_count r + 1\<rparr>"] Cons.prems show ?thesis
      by (auto simp: sys5_eq)
  qed
qed

lemma send_status:
  "agx_rtkit_send r ep m = (ret, r') \<Longrightarrow>
     rtk_epmap_done r' = rtk_epmap_done r \<and> (ret = 0 \<longrightarrow> rtk_error r' = rtk_error r) \<and>
     (ret \<noteq> 0 \<longrightarrow> rtk_error r' \<noteq> 0) \<and> rtk_endpoints r' = rtk_endpoints r"
  by (auto simp: agx_rtkit_send_def agx_rtkit_fail_def Let_def split: prod.splits if_splits)

lemma epmap_loop_endpoints: "rtk_endpoints (epmap_start_loop eps r) = rtk_endpoints r"
proof (induction eps arbitrary: r)
  case (Cons ep eps)
  obtain ret r' where s: "agx_rtkit_start_endpoint r ep = (ret, r')" by (rule prod.exhaust)
  then have "rtk_endpoints r' = rtk_endpoints r"
    using send_status [of r 0 _ ret r']
    by (auto simp: agx_rtkit_start_endpoint_def agx_rtkit_mgmt_send_def AGX_RTKIT_EP_MGMT_def split: if_splits)
  with s Cons.IH show ?case by simp
qed simp

lemma sys5_filter: "filter (\<lambda>e. e \<in> sys5) sys_endpoints = [1, 2, 3, 4, 8]"
  by code_simp

lemma epmap_loop_clean:
  "rtk_epmap_done r = 0 \<Longrightarrow> rtk_epmap_done (epmap_start_loop eps r) \<noteq> 0 \<Longrightarrow>
     rtk_error (epmap_start_loop eps r) = rtk_error r"
proof (induction eps arbitrary: r)
  case (Cons ep eps)
  show ?case
  proof (cases "agx_rtkit_has_endpoint r ep \<and> ep \<in> sys5")
    case True
    obtain ret r' where s: "agx_rtkit_start_endpoint r ep = (ret, r')" by (rule prod.exhaust)
    with True send_status [of r 0 "startep_msg ep" ret r'] Cons show ?thesis
      by (auto simp: sys5_eq start_system split: if_splits)
  next
    case False
    with Cons.IH [of r] Cons.IH [of "r\<lparr>rtk_unknown_count := rtk_unknown_count r + 1\<rparr>"] Cons.prems
    show ?thesis by (auto simp: sys5_eq split: if_splits)
  qed
qed simp

section \<open>Properties\<close>

text \<open>C4. Invariant. Whatever the firmware sends, on whatever endpoint and in whatever order, and whatever the
  transport answers, the protocol state stays well formed: the endpoint bitmap keeps its
  eight words and the management endpoint, power words stay in 16 bits, the version is 0
  or one the driver speaks, HELLO is only complete with a version, and a crash is only
  recorded once the crash log buffer exists. A condition \<open>C\<close> of the transport that each of the four callbacks
  keeps holds in every such state, if the transport starts with it and does not break it on its own.\<close>

theorem rtkit_invariant:
  assumes "rtk_reach ops C r"
  shows "length (rtk_endpoints r) = 8 \<and> agx_rtkit_has_endpoint r AGX_RTKIT_EP_MGMT \<and>
     rtk_iop_power r < 2 ^ 16 \<and> rtk_ap_power r < 2 ^ 16 \<and>
     rtk_version r \<in> {0, AGX_RTKIT_PROTO_MIN, AGX_RTKIT_PROTO_MAX} \<and>
     (agx_rtkit_hello_done r \<longrightarrow> rtk_version r \<noteq> 0) \<and>
     (agx_rtkit_crashed r \<longrightarrow> bit (rtk_buffers r) 0) \<and> rtk_buffers r < 16 \<and>
     (rtkit_transport C ops \<longrightarrow> C (rtk_ctx r))"
proof -
  have wf: "rtk_wf r" using assms reach_wf by blast
  then have "rtk_buffers r < 16" using word_less_exp_iff_bits [of 4 "rtk_buffers r"] by (simp add: rtk_wf_def)
  moreover have "C (rtk_ctx r)" if "rtkit_transport C ops"
    using rtkit_transport.reach_keeps [OF that assms] .
  ultimately show ?thesis using wf wf_mgmt_endpoint [OF wf]
    by (simp add: AGX_RTKIT_EP_MGMT_def) (simp add: rtk_wf_def agx_rtkit_hello_done_def agx_rtkit_crashed_def)
qed

text \<open>A transport for the witnesses: it accepts every message and keeps a log.\<close>

definition log_ops :: "(u32 \<times> u64) list agx_rtkit_ops" where
  "log_ops = \<lparr>op_send = (\<lambda>c ep m. (0, c @ [(ep, m)])),
     op_buffer = Some (\<lambda>c ep sz iova. ((0, 0x10000), c)), op_app = None, op_crashed = None\<rparr>"

text \<open>Its log only grows at the end.\<close>

definition log_starts :: "(u32 \<times> u64) list \<Rightarrow> bool" where
  "log_starts c \<longleftrightarrow> (\<exists>rest. c = (0x20, 7) # rest)"

lemma log_transport: "rtkit_transport log_starts log_ops"
  by unfold_locales (auto simp: log_ops_def log_starts_def)

theorem rtkit_invariant_witness:
  "rtk_version (rtk_apply (In_Rx 0 0x00100000000c000b) (agx_rtkit_init log_ops [(0x20, 7)])) \<in>
     {0, AGX_RTKIT_PROTO_MIN, AGX_RTKIT_PROTO_MAX} \<and>
   log_starts (rtk_ctx (rtk_apply (In_Rx 0 0x00100000000c000b) (agx_rtkit_init log_ops [(0x20, 7)])))"
proof -
  have "log_starts [(0x20, 7)]" by (simp add: log_starts_def)
  then have "rtk_reach log_ops log_starts (rtk_apply (In_Rx 0 0x00100000000c000b) (agx_rtkit_init log_ops [(0x20, 7)]))"
    by (intro rtk_reach.input rtk_reach.init)
  from rtkit_invariant [OF this] log_transport show ?thesis by blast
qed

text \<open>C29. Nothing is forgotten. Over any sequence of inputs the first error sticks, an advertised endpoint stays
  advertised, a provided buffer stays provided, and HELLO, endpoint map and crash
  milestones are never taken back.\<close>

theorem rtkit_monotone:
  "(rtk_error r \<noteq> 0 \<longrightarrow> rtk_error (fold rtk_apply is r) = rtk_error r) \<and>
   (agx_rtkit_has_endpoint r ep \<longrightarrow> agx_rtkit_has_endpoint (fold rtk_apply is r) ep) \<and>
   (bit (rtk_buffers r) i \<longrightarrow> bit (rtk_buffers (fold rtk_apply is r)) i) \<and>
   (agx_rtkit_hello_done r \<longrightarrow> agx_rtkit_hello_done (fold rtk_apply is r)) \<and>
   (agx_rtkit_epmap_done r \<longrightarrow> agx_rtkit_epmap_done (fold rtk_apply is r)) \<and>
   (agx_rtkit_crashed r \<longrightarrow> agx_rtkit_crashed (fold rtk_apply is r))"
  using ext_fold [of r "is"] rtk_ext_has_endpoint [of r "fold rtk_apply is r" ep]
  by (simp add: rtk_ext_def agx_rtkit_hello_done_def agx_rtkit_epmap_done_def agx_rtkit_crashed_def)

theorem rtkit_monotone_witness:
  "agx_rtkit_has_endpoint (fold rtk_apply [In_Rx 0 0, In_Start 0] (agx_rtkit_init log_ops [])) 0"
proof -
  have "agx_rtkit_has_endpoint (agx_rtkit_init log_ops []) 0" by code_simp
  with rtkit_monotone [of "agx_rtkit_init log_ops []" "[In_Rx 0 0, In_Start 0]" 0 0] show ?thesis by blast
qed

text \<open>C24. Version negotiation. On a HELLO offering the versions \<open>lo\<close> to \<open>hi\<close>, if the offer is a proper
  range that meets the versions 11 to 12 the driver speaks, the driver picks the largest
  common version and answers with it in both fields of the reply; HELLO is complete
  exactly when that answer went out. Any other offer fails the protocol with
  \<^verbatim>\<open>AGX_EINVAL\<close> and sends nothing.\<close>

theorem hello_negotiation:
  assumes "rtk_wf r" "mgmt_type m = AGX_RTKIT_MGMT_HELLO" "lo = hello_min m" "hi = hello_max m"
  shows "if lo \<le> hi \<and> lo \<le> 12 \<and> 11 \<le> hi
     then \<exists>v ret c. (lo \<le> v \<and> v \<le> hi \<and> 11 \<le> v \<and> v \<le> 12) \<and>
        (\<forall>w. lo \<le> w \<and> w \<le> hi \<and> w \<le> 12 \<longrightarrow> w \<le> v) \<and>
        op_send (rtk_ops r) (rtk_ctx r) AGX_RTKIT_EP_MGMT (hello_reply v) = (ret, c) \<and>
        hello_min (hello_reply v) = v \<and> hello_max (hello_reply v) = v \<and>
        rtk_version (agx_rtkit_rx r 0 m) = v \<and> rtk_ctx (agx_rtkit_rx r 0 m) = c \<and>
        (if ret = 0 then agx_rtkit_hello_done (agx_rtkit_rx r 0 m) \<and> rtk_error (agx_rtkit_rx r 0 m) = rtk_error r
         else rtk_hello_done (agx_rtkit_rx r 0 m) = rtk_hello_done r \<and> agx_rtkit_error (agx_rtkit_rx r 0 m) \<noteq> 0)
     else agx_rtkit_rx r 0 m = agx_rtkit_fail (r\<lparr>rtk_rx_count := rtk_rx_count r + 1\<rparr>) AGX_EINVAL"
proof -
  let ?r = "r\<lparr>rtk_rx_count := rtk_rx_count r + 1\<rparr>"
  have rx: "agx_rtkit_rx r 0 m = agx_rtkit_rx_hello ?r m"
    using assms(1,2) by (simp add: rx_mgmt agx_rtkit_rx_mgmt_def Let_def mgmt_type_def)
  define v where "v = hello_want m"
  note pr = AGX_RTKIT_PROTO_MAX_def AGX_RTKIT_PROTO_MIN_def
  obtain ret c where s: "op_send (rtk_ops r) (rtk_ctx r) AGX_RTKIT_EP_MGMT (hello_reply v) = (ret, c)"
    by (rule prod.exhaust)
  show ?thesis
  proof (cases "lo \<le> hi \<and> lo \<le> 12 \<and> 11 \<le> hi")
    case True
    then have "\<not> (hello_min m > hello_max m \<or> hello_min m > AGX_RTKIT_PROTO_MAX \<or> hello_max m < AGX_RTKIT_PROTO_MIN)"
      by (simp add: assms(3,4) pr not_less)
    then have rx': "agx_rtkit_rx_hello ?r m =
        (let r' = ?r\<lparr>rtk_version := v, rtk_ctx := c\<rparr>
         in if ret \<noteq> 0 then agx_rtkit_fail r' ret else r'\<lparr>rtk_hello_done := 1\<rparr>)"
      using s unfolding rx_hello_eq v_def by (simp add: agx_rtkit_send_def Let_def)
    have v: "lo \<le> v \<and> v \<le> hi \<and> 11 \<le> v \<and> v \<le> 12" "\<forall>w. lo \<le> w \<and> w \<le> hi \<and> w \<le> 12 \<longrightarrow> w \<le> v"
      using True by (auto simp: v_def hello_want_def assms(3,4) pr)
    then have "v < 2 ^ 16" by (auto simp: word_less_nat_alt word_le_nat_alt)
    note f = hello_reply_fields(1,2) [OF this]
    have "rtk_version (agx_rtkit_rx r 0 m) = v \<and> rtk_ctx (agx_rtkit_rx r 0 m) = c \<and>
        (if ret = 0 then agx_rtkit_hello_done (agx_rtkit_rx r 0 m) \<and> rtk_error (agx_rtkit_rx r 0 m) = rtk_error r
         else rtk_hello_done (agx_rtkit_rx r 0 m) = rtk_hello_done r \<and> agx_rtkit_error (agx_rtkit_rx r 0 m) \<noteq> 0)"
      by (simp add: rx rx' agx_rtkit_hello_done_def agx_rtkit_error_def agx_rtkit_fail_def Let_def)
    with v s f show ?thesis
      unfolding if_P [OF True] by (intro exI [of _ v] exI [of _ ret] exI [of _ c]) blast
  next
    case False
    then have "hello_min m > hello_max m \<or> hello_min m > AGX_RTKIT_PROTO_MAX \<or> hello_max m < AGX_RTKIT_PROTO_MIN"
      by (auto simp: assms(3,4) pr not_less not_le)
    then show ?thesis unfolding if_not_P [OF False] by (simp add: rx rx_hello_eq)
  qed
qed

theorem hello_negotiation_witness:
  "\<exists>v ret c. op_send log_ops [] AGX_RTKIT_EP_MGMT (hello_reply v) = (ret, c) \<and>
     rtk_version (agx_rtkit_rx (agx_rtkit_init log_ops []) 0 0x00100000000c000b) = v \<and> v \<le> 12"
proof -
  have "mgmt_type 0x00100000000c000b = AGX_RTKIT_MGMT_HELLO" "hello_min 0x00100000000c000b = 0xb"
    "hello_max 0x00100000000c000b = 0xc"
    by code_simp+
  with hello_negotiation [OF rtk_init_wf [of log_ops "[]"], of "0x00100000000c000b" "0xb" "0xc"]
  have "\<exists>v ret c. (0xb \<le> v \<and> v \<le> 0xc \<and> 11 \<le> v \<and> v \<le> 12) \<and>
     op_send (rtk_ops (agx_rtkit_init log_ops [])) (rtk_ctx (agx_rtkit_init log_ops [])) AGX_RTKIT_EP_MGMT (hello_reply v) = (ret, c) \<and>
     rtk_version (agx_rtkit_rx (agx_rtkit_init log_ops []) 0 0x00100000000c000b) = v" by auto
  then show ?thesis by (auto simp: agx_rtkit_init_def)
qed

text \<open>C25. Endpoint map. A map message merges its bitmap into the word it names and is answered. On the last
  message, if the transport accepts everything, exactly the advertised system endpoints
  among 1, 2, 3, 4 and 8 are started, once each and in ascending order, and the map is
  complete with no error added. Conversely, whatever the transport does, the map only
  becomes complete in a step that adds no error.\<close>

theorem epmap_starts_system_endpoints:
  assumes "rtk_wf r" "mgmt_type m = AGX_RTKIT_MGMT_EPMAP"
  shows "rtk_endpoints (agx_rtkit_rx r 0 m) = rtk_endpoints (epmap_merge r m) \<and>
     (rtk_epmap_done r = 0 \<and> agx_rtkit_epmap_done (agx_rtkit_rx r 0 m) \<longrightarrow>
        bit m 51 \<and> rtk_error (agx_rtkit_rx r 0 m) = rtk_error r) \<and>
     ((\<forall>c e x. fst (op_send (rtk_ops r) c e x) = 0) \<longrightarrow>
        rtk_error (agx_rtkit_rx r 0 m) = rtk_error r \<and>
        (bit m 51 \<longrightarrow> agx_rtkit_epmap_done (agx_rtkit_rx r 0 m)) \<and>
        rtk_ctx (agx_rtkit_rx r 0 m) =
          fold (\<lambda>x c. snd (op_send (rtk_ops r) c AGX_RTKIT_EP_MGMT x))
            (agx_rtkit_mgmt_msg AGX_RTKIT_MGMT_EPMAP_REPLY (epmap_reply m) #
             (if bit m 51 then map startep_msg (filter (agx_rtkit_has_endpoint (epmap_merge r m)) [1, 2, 3, 4, 8])
              else [])) (rtk_ctx r))"
proof -
  let ?r = "r\<lparr>rtk_rx_count := rtk_rx_count r + 1\<rparr>"
  let ?x = "agx_rtkit_mgmt_msg AGX_RTKIT_MGMT_EPMAP_REPLY (epmap_reply m)"
  have rx: "agx_rtkit_rx r 0 m = agx_rtkit_rx_epmap ?r m"
    using assms by (simp add: rx_mgmt agx_rtkit_rx_mgmt_def Let_def mgmt_type_def rtkit_mgmt_defs)
  obtain ret r' where s: "agx_rtkit_send (epmap_merge ?r m) AGX_RTKIT_EP_MGMT ?x = (ret, r')"
    by (rule prod.exhaust)
  note st = send_status [OF s]
  have eq: "agx_rtkit_rx r 0 m = (if ret \<noteq> 0 \<or> \<not> bit m 51 then r' else epmap_start_loop sys_endpoints r')"
    by (simp add: rx rx_epmap_eq agx_rtkit_mgmt_send_def s)
  have e1: "rtk_endpoints (agx_rtkit_rx r 0 m) = rtk_endpoints (epmap_merge r m)"
    using st by (simp add: eq epmap_loop_endpoints) (simp add: epmap_merge_def)
  have m: "rtk_epmap_done (epmap_merge ?r m) = rtk_epmap_done r" "rtk_error (epmap_merge ?r m) = rtk_error r"
    by (simp_all add: epmap_merge_def)
  have e2: "bit m 51 \<and> rtk_error (agx_rtkit_rx r 0 m) = rtk_error r"
    if "rtk_epmap_done r = 0" "agx_rtkit_epmap_done (agx_rtkit_rx r 0 m)"
    using that st m epmap_loop_clean [of r' sys_endpoints]
    by (auto simp: eq agx_rtkit_epmap_done_def split: if_splits)
  have e3: "rtk_error (agx_rtkit_rx r 0 m) = rtk_error r \<and>
      (bit m 51 \<longrightarrow> agx_rtkit_epmap_done (agx_rtkit_rx r 0 m)) \<and>
      rtk_ctx (agx_rtkit_rx r 0 m) = fold (\<lambda>x c. snd (op_send (rtk_ops r) c AGX_RTKIT_EP_MGMT x))
        (?x # (if bit m 51 then map startep_msg (filter (agx_rtkit_has_endpoint (epmap_merge r m)) [1, 2, 3, 4, 8]) else []))
        (rtk_ctx r)"
    if ok: "\<forall>c e x. fst (op_send (rtk_ops r) c e x) = 0"
  proof -
    have r': "ret = 0" "r' = (epmap_merge ?r m)\<lparr>rtk_ctx := snd (op_send (rtk_ops r) (rtk_ctx r) AGX_RTKIT_EP_MGMT ?x)\<rparr>"
      using s ok by (auto simp: agx_rtkit_send_def Let_def case_prod_beta epmap_merge_def)
    have h: "agx_rtkit_has_endpoint r' = agx_rtkit_has_endpoint (epmap_merge r m)"
      by (rule has_endpoint_cong) (simp add: r' epmap_merge_def)
    obtain n where n: "epmap_start_loop sys_endpoints r' = r'\<lparr>rtk_epmap_done := 1, rtk_unknown_count := n,
       rtk_ctx := fold (\<lambda>e c. snd (op_send (rtk_ops r') c 0 (startep_msg e)))
         (filter (\<lambda>e. e \<in> sys5 \<and> agx_rtkit_has_endpoint r' e) sys_endpoints) (rtk_ctx r')\<rparr>"
      using epmap_loop_sends [of r' sys_endpoints] ok by (auto simp: r' epmap_merge_def)
    have "filter (\<lambda>e. e \<in> sys5 \<and> agx_rtkit_has_endpoint r' e) sys_endpoints =
        filter (agx_rtkit_has_endpoint (epmap_merge r m)) [1, 2, 3, 4, 8]"
      unfolding sys5_filter [symmetric] filter_filter h by (rule filter_cong) auto
    with n r' show ?thesis
      by (simp add: eq agx_rtkit_epmap_done_def epmap_merge_def AGX_RTKIT_EP_MGMT_def fold_map o_def)
  qed
  from e1 e2 e3 show ?thesis by blast
qed

theorem epmap_starts_system_endpoints_witness:
  "rtk_ctx (agx_rtkit_rx (agx_rtkit_init log_ops []) 0 0x008800000000011f) =
     [(0, agx_rtkit_mgmt_msg AGX_RTKIT_MGMT_EPMAP_REPLY (epmap_reply 0x008800000000011f)),
      (0, startep_msg 1), (0, startep_msg 2), (0, startep_msg 3), (0, startep_msg 4), (0, startep_msg 8)]"
proof -
  let ?m = "0x008800000000011f :: u64" and ?r = "agx_rtkit_init log_ops []"
  have t: "mgmt_type ?m = AGX_RTKIT_MGMT_EPMAP" "bit ?m 51" by code_simp+
  have f: "filter (agx_rtkit_has_endpoint (epmap_merge ?r ?m)) [1, 2, 3, 4, 8] = [1, 2, 3, 4, 8]"
    by code_simp
  have "\<forall>c e x. fst (op_send (rtk_ops ?r) c e x) = 0" by (simp add: agx_rtkit_init_def log_ops_def)
  with epmap_starts_system_endpoints [OF rtk_init_wf t(1), of log_ops "[]"] t(2) f
  have "rtk_ctx (agx_rtkit_rx ?r 0 ?m) = fold (\<lambda>x c. snd (op_send (rtk_ops ?r) c AGX_RTKIT_EP_MGMT x))
     (agx_rtkit_mgmt_msg AGX_RTKIT_MGMT_EPMAP_REPLY (epmap_reply ?m) # map startep_msg [1, 2, 3, 4, 8]) (rtk_ctx ?r)"
    by (simp only: if_True simp_thms)
  then show ?thesis by (simp add: agx_rtkit_init_def log_ops_def AGX_RTKIT_EP_MGMT_def)
qed

text \<open>C13. Starting endpoints. \<^verbatim>\<open>agx_rtkit_start_endpoint\<close> refuses, without sending anything, an endpoint that is
  out of range or was not advertised, and an application endpoint while either power
  state is not on. Otherwise it sends one start message, which carries the endpoint number
  and the start flag.\<close>

theorem start_endpoint_gated:
  "(if ep < 256 \<and> agx_rtkit_has_endpoint r ep \<and> (0x20 \<le> ep \<longrightarrow> agx_rtkit_running r)
    then agx_rtkit_start_endpoint r ep = agx_rtkit_send r AGX_RTKIT_EP_MGMT (startep_msg ep) \<and>
       mgmt_type (startep_msg ep) = AGX_RTKIT_MGMT_STARTEP \<and> bit (startep_msg ep) 1 \<and>
       ucast (AGX_FIELD_GET (startep_msg ep) AGX_RTKIT_STARTEP_EP_SHIFT AGX_RTKIT_STARTEP_EP_MASK) = ep
    else agx_rtkit_start_endpoint r ep = (AGX_EINVAL, r))"
  using startep_msg_fields [of ep]
  by (auto simp: agx_rtkit_start_endpoint_def agx_rtkit_mgmt_send_def startep_msg_def
      AGX_RTKIT_EP_COUNT_def AGX_RTKIT_EP_APP_START_def not_le)

theorem start_endpoint_gated_witness:
  "agx_rtkit_start_endpoint (agx_rtkit_init log_ops []) 0x20 = (AGX_EINVAL, agx_rtkit_init log_ops [])"
proof -
  have "\<not> agx_rtkit_has_endpoint (agx_rtkit_init log_ops []) 0x20" by code_simp
  then show ?thesis using start_endpoint_gated [of "0x20" "agx_rtkit_init log_ops []"] by simp
qed

lemma buf_fields:
  "ep = AGX_RTKIT_EP_OSLOG \<Longrightarrow> iova < 2 ^ 48 \<Longrightarrow> (\<forall>i<12. \<not> bit iova i) \<Longrightarrow>
     buf_iova ep (buf_reply ep (buf_size ep m) iova) = iova"
  "ep \<noteq> AGX_RTKIT_EP_OSLOG \<Longrightarrow> iova < 2 ^ 44 \<Longrightarrow> buf_iova ep (buf_reply ep (buf_size ep m) iova) = iova"
  "buf_size ep (buf_reply ep (buf_size ep m) iova) = buf_size ep m"
proof -
  note u = buf_iova_def buf_reply_def buf_size_def rtkit_masks rtkit_field_defs
  note b = bit_AGX_FIELD_GET_mask bit_AGX_FIELD_PUT_mask bit_or_iff bit_push_bit_iff bit_drop_bit_eq
    bit_unsigned_iff AGX_RTKIT_BUFFER_REQUEST_def
  show "buf_iova ep (buf_reply ep (buf_size ep m) iova) = iova"
    if ep: "ep = AGX_RTKIT_EP_OSLOG" and "iova < 2 ^ 48" and lo: "\<forall>i<12. \<not> bit iova i"
  proof (rule bit_word_eqI)
    fix i assume "i < LENGTH(64)"
    have "bit iova i \<Longrightarrow> i < 48" using \<open>iova < 2 ^ 48\<close> word_less_exp_iff_bits [of 48 iova] by simp
    moreover have "bit iova i \<Longrightarrow> 12 \<le> i" using lo by (meson not_le)
    ultimately show "bit (buf_iova ep (buf_reply ep (buf_size ep m) iova)) i = bit iova i"
      by (cases "12 \<le> i") (auto simp: ep u b)
  qed
  show "buf_iova ep (buf_reply ep (buf_size ep m) iova) = iova"
    if ep: "ep \<noteq> AGX_RTKIT_EP_OSLOG" and "iova < 2 ^ 44"
  proof (rule bit_word_eqI)
    fix i assume "i < LENGTH(64)"
    have "bit iova i \<Longrightarrow> i < 44" using \<open>iova < 2 ^ 44\<close> word_less_exp_iff_bits [of 44 iova] by simp
    then show "bit (buf_iova ep (buf_reply ep (buf_size ep m) iova)) i = bit iova i"
      using ep by (auto simp: u b)
  qed
  show "buf_size ep (buf_reply ep (buf_size ep m) iova) = buf_size ep m"
    by (cases "ep = AGX_RTKIT_EP_OSLOG") (auto simp: word_eq_iff_bits u b)
qed

text \<open>C26. Buffer requests. On each of the four log endpoints a request for a non-empty buffer is passed on with
  the size and address it encodes; if the driver provides one and the reply goes out, the
  endpoint's buffer is recorded and the reply, read the way a request is read, carries the
  same size and the address provided, as long as the address fits the field of that
  endpoint. A request for no bytes fails the protocol and calls nothing.\<close>

theorem buffer_request_reply:
  assumes "op_buffer (rtk_ops r) = Some f"
    and "f (rtk_ctx r) ep (buf_size ep m) (buf_iova ep m) = ((0, iova), c)"
    and "if ep = AGX_RTKIT_EP_OSLOG then iova < 2 ^ 48 \<and> (\<forall>i<12. \<not> bit iova i) else iova < 2 ^ 44"
  shows "if buf_size ep m = 0 then agx_rtkit_get_buffer r ep m = agx_rtkit_fail r AGX_EINVAL
     else agx_rtkit_get_buffer r ep m = snd (agx_rtkit_send
            (r\<lparr>rtk_ctx := c, rtk_buffers := rtk_buffers r OR agx_rtkit_buffer_bit ep\<rparr>) ep
            (buf_reply ep (buf_size ep m) iova)) \<and>
          buf_size ep (buf_reply ep (buf_size ep m) iova) = buf_size ep m \<and>
          buf_iova ep (buf_reply ep (buf_size ep m) iova) = iova"
proof -
  have "buf_iova ep (buf_reply ep (buf_size ep m) iova) = iova"
    using assms(3) buf_fields(1) [of ep iova m] buf_fields(2) [of ep iova m] by (auto split: if_splits)
  with assms(1,2) buf_fields(3) show ?thesis by (simp add: get_buffer_eq)
qed

theorem buffer_request_reply_witness:
  "buf_iova 2 (buf_reply 2 (buf_size 2 0x0010200000000000) 0x10000) = 0x10000"
proof -
  have "(2 :: u32) \<noteq> AGX_RTKIT_EP_OSLOG" "(0x10000 :: u64) < 2 ^ 44" "buf_size 2 0x0010200000000000 \<noteq> 0"
    by code_simp+
  with buffer_request_reply [of "agx_rtkit_init log_ops []" "\<lambda>c ep sz iova. ((0, 0x10000), c)" 2
      "0x0010200000000000" "0x10000" "[]"]
  show ?thesis by (simp add: agx_rtkit_init_def log_ops_def)
qed

lemma crashed_same [simp]:
  "rtk_crashed (agx_rtkit_fail r e) = rtk_crashed r"
  "rtk_crashed (agx_rtkit_note_unknown r m) = rtk_crashed r"
  "rtk_crashed (snd (agx_rtkit_send r ep m)) = rtk_crashed r"
  "rtk_crashed (snd (agx_rtkit_mgmt_send r t p)) = rtk_crashed r"
  "rtk_crashed (snd (agx_rtkit_start_endpoint r ep)) = rtk_crashed r"
  by (simp_all add: agx_rtkit_fail_def agx_rtkit_note_unknown_def agx_rtkit_start_endpoint_def
      agx_rtkit_mgmt_send_def agx_rtkit_send_def Let_def case_prod_beta)

lemma crashed_loop: "rtk_crashed (epmap_start_loop eps r) = rtk_crashed r"
proof (induction eps arbitrary: r)
  case (Cons ep eps)
  obtain ret r' where s: "agx_rtkit_start_endpoint r ep = (ret, r')" by (rule prod.exhaust)
  then have "rtk_crashed r' = rtk_crashed r" using crashed_same(5) [of r ep] by simp
  with s Cons.IH show ?case by simp
qed simp

lemma crashed_handlers:
  "rtk_crashed (agx_rtkit_get_buffer r ep m) = rtk_crashed r"
  "rtk_crashed (agx_rtkit_rx_mgmt r m) = rtk_crashed r"
  "rtk_crashed (agx_rtkit_rx_syslog r m) = rtk_crashed r"
  "rtk_crashed (agx_rtkit_rx_ioreport r m) = rtk_crashed r"
  "rtk_crashed (agx_rtkit_rx_oslog r m) = rtk_crashed r"
proof -
  show b: "rtk_crashed (agx_rtkit_get_buffer r ep m) = rtk_crashed r" for ep
    by (simp add: get_buffer_eq split: option.split prod.split)
  have "rtk_crashed (agx_rtkit_rx_hello r m) = rtk_crashed r"
    by (simp add: rx_hello_eq Let_def case_prod_beta)
  moreover have "rtk_crashed (epmap_merge r m) = rtk_crashed r" by (simp add: epmap_merge_def)
  then have "rtk_crashed (agx_rtkit_rx_epmap r m) = rtk_crashed r"
    by (simp add: rx_epmap_eq Let_def case_prod_beta crashed_loop)
  ultimately show "rtk_crashed (agx_rtkit_rx_mgmt r m) = rtk_crashed r"
    by (simp add: agx_rtkit_rx_mgmt_def Let_def)
  show "rtk_crashed (agx_rtkit_rx_syslog r m) = rtk_crashed r"
    "rtk_crashed (agx_rtkit_rx_ioreport r m) = rtk_crashed r"
    "rtk_crashed (agx_rtkit_rx_oslog r m) = rtk_crashed r"
    by (simp_all add: agx_rtkit_rx_syslog_def agx_rtkit_rx_ioreport_def agx_rtkit_rx_oslog_def Let_def b)
qed

text \<open>C27. Crash reports. A message on the crash log endpoint marks the coprocessor as crashed only when it is a
  crash report and the crash log buffer was already provided; the first report is taken as
  the buffer request. When the crash is recorded the crash callback runs once, and no
  other message sets the mark.\<close>

theorem crash_needs_buffer:
  assumes "\<not> agx_rtkit_crashed r"
  shows "agx_rtkit_crashed (agx_rtkit_rx r ep m) =
       (ep AND 0xff = AGX_RTKIT_EP_CRASHLOG \<and> mgmt_type m = AGX_RTKIT_CRASHLOG_CRASH \<and> bit (rtk_buffers r) 0) \<and>
     (agx_rtkit_crashed (agx_rtkit_rx r ep m) \<longrightarrow> rtk_ctx (agx_rtkit_rx r ep m) =
       (case op_crashed (rtk_ops r) of None \<Rightarrow> rtk_ctx r | Some h \<Rightarrow> h (rtk_ctx r)))"
proof -
  let ?r1 = "r\<lparr>rtk_rx_count := rtk_rx_count r + 1\<rparr>"
  define r2 where "r2 = (if \<not> agx_rtkit_has_endpoint ?r1 (ep AND 0xff)
    then ?r1\<lparr>rtk_stray_count := rtk_stray_count ?r1 + 1\<rparr> else ?r1)"
  have r2: "rtk_crashed r2 = 0" "rtk_buffers r2 = rtk_buffers r" "rtk_ops r2 = rtk_ops r" "rtk_ctx r2 = rtk_ctx r"
    using assms by (simp_all add: r2_def agx_rtkit_crashed_def)
  show ?thesis
  proof (cases "ep AND 0xff = AGX_RTKIT_EP_CRASHLOG")
    case True
    then have "agx_rtkit_rx r ep m = agx_rtkit_rx_crashlog r2 m"
      by (simp add: agx_rtkit_rx_def Let_def r2_def rtkit_ep_defs)
    then show ?thesis
      using True r2 by (auto simp: agx_rtkit_rx_crashlog_def Let_def crash_bit crashed_handlers mgmt_type_def
          agx_rtkit_crashed_def split: option.split)
  next
    case False
    have "rtk_crashed (agx_rtkit_rx r ep m) = rtk_crashed r2"
      unfolding agx_rtkit_rx_def Let_def r2_def [symmetric]
      using False by (simp add: crashed_handlers split: option.split)
    with False r2 show ?thesis by (simp add: agx_rtkit_crashed_def)
  qed
qed

theorem crash_needs_buffer_witness:
  "\<not> agx_rtkit_crashed (agx_rtkit_rx (agx_rtkit_init log_ops []) 1 0x0010200000000000)"
proof -
  have "\<not> agx_rtkit_crashed (agx_rtkit_init log_ops [])" "\<not> bit (rtk_buffers (agx_rtkit_init log_ops [])) 0"
    by code_simp+
  with crash_needs_buffer [of "agx_rtkit_init log_ops []" 1 "0x0010200000000000"] show ?thesis by blast
qed

text \<open>C28. Power. A power request clears the acknowledgement and carries its 16 bit state; an acknowledgement
  stores the state it carries. The core counts as running exactly when both stored words
  decode to the on state of \<^verbatim>\<open>agx_power_state_from_wire\<close>, and a freshly initialised core is
  not running.\<close>

theorem power_acks_and_running:
  assumes "rtk_wf r" "s < 2 ^ 16"
  shows "rtk_iop_power (agx_rtkit_rx r 0 (agx_rtkit_mgmt_msg AGX_RTKIT_MGMT_IOP_PWR_ACK (ucast s))) = s \<and>
     agx_rtkit_iop_acked (agx_rtkit_rx r 0 (agx_rtkit_mgmt_msg AGX_RTKIT_MGMT_IOP_PWR_ACK (ucast s))) \<and>
     rtk_ap_power (agx_rtkit_rx r 0 (agx_rtkit_mgmt_msg AGX_RTKIT_MGMT_AP_PWR_ACK (ucast s))) = s \<and>
     agx_rtkit_ap_acked (agx_rtkit_rx r 0 (agx_rtkit_mgmt_msg AGX_RTKIT_MGMT_AP_PWR_ACK (ucast s))) \<and>
     \<not> agx_rtkit_iop_acked (snd (agx_rtkit_set_iop_power r s)) \<and>
     \<not> agx_rtkit_ap_acked (snd (agx_rtkit_set_ap_power r s)) \<and>
     agx_rtkit_running r = (agx_power_state_from_wire (rtk_iop_power r) = Some AGX_POWER_ON \<and>
       agx_power_state_from_wire (rtk_ap_power r) = Some AGX_POWER_ON) \<and>
     \<not> agx_rtkit_running (agx_rtkit_init ops c)"
proof -
  have f: "ucast (AGX_FIELD_GET (agx_rtkit_mgmt_msg t (ucast s)) 0 (mask 16)) = s" for t
    using field_of_ucast [of s 16] mgmt_msg_low [of 0 16 t "ucast s"] assms(2) by (simp add: AGX_FIELD_GET_def)
  have a: "rtk_iop_acked (snd (agx_rtkit_mgmt_send r t p)) = rtk_iop_acked r"
    "rtk_ap_acked (snd (agx_rtkit_mgmt_send r t p)) = rtk_ap_acked r" for r :: "'a agx_rtkit" and t p
    by (simp_all add: agx_rtkit_mgmt_send_def agx_rtkit_send_def agx_rtkit_fail_def Let_def case_prod_beta)
  have "\<not> agx_rtkit_running (agx_rtkit_init ops c)"
    by (simp add: agx_rtkit_running_def agx_rtkit_init_def pwr_defs)
  with assms(1) f a show ?thesis
    by (simp add: rx_mgmt agx_rtkit_rx_mgmt_def mgmt_msg_type rtkit_mgmt_defs rtkit_masks(6)
        agx_rtkit_iop_acked_def agx_rtkit_ap_acked_def agx_rtkit_running_def from_wire_on
        agx_rtkit_set_iop_power_def agx_rtkit_set_ap_power_def)
qed

theorem power_acks_and_running_witness:
  "rtk_iop_power (agx_rtkit_rx (agx_rtkit_init log_ops []) 0
      (agx_rtkit_mgmt_msg AGX_RTKIT_MGMT_IOP_PWR_ACK (ucast (0x20 :: u32)))) = 0x20"
  using power_acks_and_running [where r = "agx_rtkit_init log_ops []" and s = "0x20" and ops = log_ops
      and c = "[]", OF rtk_init_wf] by simp

end
