(* ===== verification/Rtbuddy_Inv.thy ===== *)
theory Rtbuddy_Inv
  imports Rtbuddy Rtkit_Theorems
begin

text \<open>
  What every protocol step and every wait of the driver keeps. \<open>rb_good\<close> is the invariant of a driver,
  \<open>rb_frame\<close> the fields that only boot and removal write, and \<open>rb_step\<close> relates the driver
  before and after a stretch of protocol work: the callbacks of the driver meet the
  transport contract of the core, so nothing the firmware sends can break either.
\<close>

section \<open>Invariant and frame\<close>

definition sizes_ok :: "agx_shmem list \<Rightarrow> bool" where
  "sizes_ok sh \<longleftrightarrow> (\<forall>s \<in> set sh. sh_size s \<le> AGX_RTBUDDY_SHMEM_MAX)"

lemma sizes_ok_update [simp]: "sizes_ok sh \<Longrightarrow> sh_size s \<le> AGX_RTBUDDY_SHMEM_MAX \<Longrightarrow> sizes_ok (sh[i := s])"
  unfolding sizes_ok_def using set_update_subset_insert [of sh i s] by auto

lemma sizes_ok_nth: "sizes_ok sh \<Longrightarrow> i < length sh \<Longrightarrow> sh_size (sh ! i) \<le> AGX_RTBUDDY_SHMEM_MAX"
  by (simp add: sizes_ok_def)

definition rb_ctx_ok :: "'d kernel_ops \<Rightarrow> 'd rtbuddy \<Rightarrow> bool" where
  "rb_ctx_ok k c \<longleftrightarrow> rb_k c = k \<and> \<not> mb_lock (rb_mbox c) \<and> mb_base (rb_mbox c) = rb_base c \<and>
     length (rb_shmem c) = AGX_RTBUDDY_SHMEM_SLOTS \<and> sizes_ok (rb_shmem c) \<and> \<not> rb_stuck c \<and>
     (\<forall>b. rb_display c = Some b \<longrightarrow> broker_ok b)"

definition rb_frame :: "'d rtbuddy \<Rightarrow> 'd rtbuddy \<Rightarrow> bool" where
  "rb_frame c c' \<longleftrightarrow> rb_k c' = rb_k c \<and> rb_base c' = rb_base c \<and> rb_irq c' = rb_irq c \<and>
     rb_irq_requested c' = rb_irq_requested c \<and> rb_cpu_running c' = rb_cpu_running c \<and>
     rb_firmware_up c' = rb_firmware_up c \<and> rb_doorbell_up c' = rb_doorbell_up c \<and>
     rb_mbox c' = rb_mbox c \<and> rb_display c' = rb_display c \<and> rb_power c' = rb_power c \<and>
     rb_debugfs_root c' = rb_debugfs_root c"

lemma rb_frame_refl [simp]: "rb_frame c c"
  by (simp add: rb_frame_def)

lemma rb_frame_trans: "rb_frame a b \<Longrightarrow> rb_frame b c \<Longrightarrow> rb_frame a c"
  by (simp add: rb_frame_def)

definition rb_good :: "'d kernel_ops \<Rightarrow> 'd agx_rtbuddy \<Rightarrow> bool" where
  "rb_good k rb \<longleftrightarrow> rtk_ops rb = agx_rtbuddy_rtkit_ops \<and> rtk_wf rb \<and> rb_ctx_ok k (rtk_ctx rb)"

definition rb_now :: "'d agx_rtbuddy \<Rightarrow> nat" where
  "rb_now rb = k_now_us (rb_k (rtk_ctx rb)) (rb_dev (rtk_ctx rb))"

definition rb_step :: "'d kernel_ops \<Rightarrow> 'd agx_rtbuddy \<Rightarrow> 'd agx_rtbuddy \<Rightarrow> bool" where
  "rb_step k rb rb' \<longleftrightarrow> rb_good k rb' \<and> rb_frame (rtk_ctx rb) (rtk_ctx rb') \<and> rb_now rb \<le> rb_now rb' \<and>
     rtk_ext rb rb'"

lemma rb_step_trans: "rb_step k a b \<Longrightarrow> rb_step k b c \<Longrightarrow> rb_step k a c"
  by (auto simp: rb_step_def intro: rb_frame_trans rtk_ext_trans)

lemma rb_step_refl: "rb_good k rb \<Longrightarrow> rb_step k rb rb"
  by (simp add: rb_step_def)

section \<open>The callbacks meet the transport contract\<close>

definition rb_cinv :: "'d kernel_ops \<Rightarrow> nat \<Rightarrow> 'd rtbuddy \<Rightarrow> 'd rtbuddy \<Rightarrow> bool" where
  "rb_cinv k t c0 c \<longleftrightarrow> rb_ctx_ok k c \<and> rb_frame c0 c \<and> t \<le> k_now_us k (rb_dev c)"

lemma shmem_slot_range: "agx_rtbuddy_shmem_slot ep < 4" "agx_rtbuddy_shmem_slot ep < 0 \<or> 0 \<le> agx_rtbuddy_shmem_slot ep"
  by (auto simp: agx_rtbuddy_shmem_slot_def)

lemma buffer_ctx_ok:
  assumes c: "rb_ctx_ok k c"
  shows "rb_ctx_ok k (snd (agx_rtbuddy_ops_buffer c ep sz iova))"
proof -
  let ?i = "nat (agx_rtbuddy_shmem_slot ep)"
  have "?i < length (rb_shmem c)" "sizes_ok (rb_shmem c)"
    using c shmem_slot_range(1) [of ep] by (simp_all add: rb_ctx_ok_def AGX_RTBUDDY_SHMEM_SLOTS_def)
  with c show ?thesis
    by (simp add: agx_rtbuddy_ops_buffer_def Let_def case_prod_beta rb_ctx_ok_def sizes_ok_nth linorder_not_less)
qed

lemma buffer_frame:
  "rb_frame c (snd (agx_rtbuddy_ops_buffer c ep sz iova))"
  "rb_dev (snd (agx_rtbuddy_ops_buffer c ep sz iova)) \<in> {rb_dev c, snd (k_dma_alloc (rb_k c) (rb_dev c) sz)}"
  by (simp_all add: agx_rtbuddy_ops_buffer_def Let_def case_prod_beta rb_frame_def)

sublocale kernel_clock \<subseteq> transport: rtkit_transport "rb_cinv k t c0" agx_rtbuddy_rtkit_ops for t c0
proof
  fix c :: "'d rtbuddy" and ep m
  assume c: "rb_cinv k t c0 c"
  then obtain ret d where "agx_mailbox_send k (rb_mbox c) ep m (rb_dev c) = Some (ret, rb_mbox c, d)"
    "k_now_us k (rb_dev c) \<le> k_now_us k d"
    using send_ends [of "rb_mbox c" ep m "rb_dev c"] by (auto simp: rb_cinv_def rb_ctx_ok_def)
  with c show "rb_cinv k t c0 (snd (op_send agx_rtbuddy_rtkit_ops c ep m))"
    by (auto simp: agx_rtbuddy_rtkit_ops_def agx_rtbuddy_ops_send_def rb_cinv_def rb_ctx_ok_def rb_frame_def)
next
  fix c :: "'d rtbuddy" and f ep sz iova
  assume c: "rb_cinv k t c0 c" and "op_buffer (agx_rtbuddy_rtkit_ops :: 'd rtbuddy agx_rtkit_ops) = Some f"
  then have f: "f = agx_rtbuddy_ops_buffer" by (simp add: agx_rtbuddy_rtkit_ops_def)
  let ?c = "snd (agx_rtbuddy_ops_buffer c ep sz iova)"
  have "k_now_us k (rb_dev c) \<le> k_now_us k (snd (k_dma_alloc k (rb_dev c) sz))" by (rule dma_alloc_time)
  with c buffer_frame(2) [of c ep sz iova] have "k_now_us k (rb_dev c) \<le> k_now_us k (rb_dev ?c)"
    by (auto simp: rb_cinv_def rb_ctx_ok_def)
  moreover have "rb_frame c0 ?c" using c by (simp add: rb_cinv_def rb_frame_trans [OF _ buffer_frame(1)])
  moreover have "rb_ctx_ok k ?c" using c by (simp add: rb_cinv_def buffer_ctx_ok)
  ultimately show "rb_cinv k t c0 (snd (f c ep sz iova))" using c unfolding f by (simp add: rb_cinv_def)
qed (auto simp: agx_rtbuddy_rtkit_ops_def agx_rtbuddy_ops_app_def agx_rtbuddy_ops_crashed_def rb_cinv_def
    rb_ctx_ok_def rb_frame_def)

context kernel_clock
begin

lemma step_from_keeps:
  assumes "rb_good k rb" and "\<And>t c0. transport.keeps t c0 rb \<Longrightarrow> transport.keeps t c0 rb'" and "rtk_ext rb rb'"
  shows "rb_step k rb rb'"
proof -
  have "transport.keeps (rb_now rb) (rtk_ctx rb) rb"
    using assms(1) by (simp add: transport.keeps_def rb_good_def rb_cinv_def rb_now_def rb_ctx_ok_def)
  then have "transport.keeps (rb_now rb) (rtk_ctx rb) rb'" by (rule assms(2))
  with assms(1,3) show ?thesis
    by (auto simp: transport.keeps_def rb_step_def rb_good_def rb_cinv_def rb_now_def rtk_ext_def rb_ctx_ok_def)
qed

lemma step_apply: "rb_good k rb \<Longrightarrow> rb_step k rb (rtk_apply i rb)"
  using step_from_keeps [OF _ transport.keeps_apply ext_apply] .

lemma step_rx: "rb_good k rb \<Longrightarrow> rb_step k rb (agx_rtkit_rx rb ep m)"
  using step_apply [of rb "In_Rx ep m"] by simp

lemma step_set_power:
  "rb_good k rb \<Longrightarrow> agx_rtkit_set_iop_power rb s = (ret, rb') \<Longrightarrow> rb_step k rb rb'"
  "rb_good k rb \<Longrightarrow> agx_rtkit_set_ap_power rb s = (ret, rb') \<Longrightarrow> rb_step k rb rb'"
  using step_apply [of rb "In_Iop s"] step_apply [of rb "In_Ap s"] by simp_all

lemma step_start: "rb_good k rb \<Longrightarrow> agx_rtkit_start_endpoint rb ep = (ret, rb') \<Longrightarrow> rb_step k rb rb'"
  using step_apply [of rb "In_Start ep"] by simp

lemma step_dev:
  assumes "rb_good k rb" "k_now_us k (rb_dev (rtk_ctx rb)) \<le> k_now_us k d"
  shows "rb_step k rb (upd_rb (\<lambda>c. c\<lparr>rb_dev := d\<rparr>) rb)"
  using assms ext_ctx [of rb] rb_frame_refl
  by (auto simp: rb_step_def rb_good_def rb_now_def upd_rb_def rb_ctx_ok_def rb_frame_def rtk_wf_def)

lemma step_count: "rb_good k rb \<Longrightarrow> rb_step k rb (upd_rb (\<lambda>c. c\<lparr>rb_drain_count := f c\<rparr>) rb)"
  using ext_ctx [of rb]
  by (auto simp: rb_step_def rb_good_def rb_now_def upd_rb_def rb_ctx_ok_def rb_frame_def rtk_wf_def)

section \<open>Interrupts and waiting\<close>

lemma step_drain: "rb_good k rb \<Longrightarrow> rb_step k rb (snd (irq_drain n h rb))"
proof (induction n arbitrary: h rb)
  case 0
  then show ?case by (simp add: rb_step_refl)
next
  case (Suc n)
  let ?c = "rtk_ctx rb"
  obtain ret msg d where r: "agx_mailbox_recv (rb_k ?c) (rb_mbox ?c) (rb_dev ?c) = (ret, msg, d)" by (rule prod_cases3)
  have k: "rb_k ?c = k" using Suc.prems by (simp add: rb_good_def rb_ctx_ok_def)
  let ?rb = "upd_rb (\<lambda>c. c\<lparr>rb_dev := d\<rparr>) rb"
  have s1: "rb_step k rb ?rb"
    using recv_time [of "rb_dev ?c" "rb_mbox ?c"] r k by (intro step_dev [OF Suc.prems]) simp
  then have g1: "rb_good k ?rb" by (simp add: rb_step_def)
  let ?rb2 = "agx_rtkit_rx ?rb (msg_endpoint (the msg)) (msg_data (the msg))"
  have s2: "rb_step k ?rb ?rb2" using g1 by (rule step_rx)
  then have "rb_step k ?rb2 (snd (irq_drain n (h + 1) ?rb2))" by (intro Suc.IH) (simp add: rb_step_def)
  with s1 s2 have "rb_step k rb (snd (irq_drain n (h + 1) ?rb2))" by (blast intro: rb_step_trans)
  with s1 r show ?case by (simp add: Let_def)
qed

lemma step_service: "rb_good k rb \<Longrightarrow> rb_step k rb (service_irq rb)"
proof -
  assume g: "rb_good k rb"
  let ?c = "rtk_ctx rb"
  obtain e d where r: "agx_mailbox_outbox_empty (rb_k ?c) (rb_mbox ?c) (rb_dev ?c) = (e, d)" by (rule prod.exhaust)
  have k: "rb_k ?c = k" using g by (simp add: rb_good_def rb_ctx_ok_def)
  let ?rb = "upd_rb (\<lambda>c. c\<lparr>rb_dev := d\<rparr>) rb"
  have "k_now_us k (rb_dev ?c) \<le> k_now_us k d"
    using readl_time [of "rb_dev ?c" "mb_base (rb_mbox ?c) + AGX_MBOX_I2A_CONTROL"] r k
    by (simp add: agx_mailbox_outbox_empty_def case_prod_beta)
  then have s1: "rb_step k rb ?rb" by (rule step_dev [OF g])
  obtain h rb2 where dr: "irq_drain AGX_RTBUDDY_DRAIN_MAX 0 ?rb = (h, rb2)" by (rule prod.exhaust)
  have s2: "rb_step k ?rb rb2" using step_drain [of ?rb AGX_RTBUDDY_DRAIN_MAX 0] s1 dr by (simp add: rb_step_def)
  let ?rb3 = "upd_rb (\<lambda>c. c\<lparr>rb_drain_count := rb_drain_count c + of_nat h\<rparr>) rb2"
  have "rb_step k rb2 ?rb3" using s2 by (intro step_count) (simp add: rb_step_def)
  with s1 s2 have "rb_step k rb ?rb3" by (blast intro: rb_step_trans)
  with g s1 r dr show ?thesis
    by (simp add: service_irq_def agx_rtbuddy_irq_def agx_rtbuddy_irq_thread_def Let_def rb_step_refl)
qed

lemma wait_event_ends:
  "rb_good k rb \<Longrightarrow> \<exists>b rb'. wait_event cond dl rb = Some (b, rb') \<and> rb_step k rb rb' \<and>
     b = cond rb' \<and> (b \<or> dl \<le> rb_now rb')"
proof (induction "dl - rb_now rb" arbitrary: rb rule: less_induct)
  case less
  note g = less.prems
  have k: "rb_k (rtk_ctx rb) = k" using g by (simp add: rb_good_def rb_ctx_ok_def)
  show ?case
  proof (cases "cond rb \<or> dl \<le> rb_now rb")
    case True
    then show ?thesis using g by (subst wait_event.simps) (auto simp: rb_now_def rb_step_refl)
  next
    case False
    let ?rb1 = "upd_rb (\<lambda>c. c\<lparr>rb_dev := k_idle (rb_k c) (rb_dev c)\<rparr>) rb"
    have id: "k_now_us k (rb_dev (rtk_ctx rb)) < k_now_us k (k_idle k (rb_dev (rtk_ctx rb)))" by (rule idle_time)
    have s1: "rb_step k rb ?rb1"
      using step_dev [OF g, of "k_idle k (rb_dev (rtk_ctx rb))"] id k by (simp add: upd_rb_def)
    then have s2: "rb_step k ?rb1 (service_irq ?rb1)" by (intro step_service) (simp add: rb_step_def)
    have "rb_now rb < rb_now ?rb1" using id k by (simp add: rb_now_def upd_rb_def)
    also have "\<dots> \<le> rb_now (service_irq ?rb1)" using s2 by (simp add: rb_step_def)
    finally have lt: "dl - rb_now (service_irq ?rb1) < dl - rb_now rb" using False by linarith
    have g2: "rb_good k (service_irq ?rb1)" using s2 by (simp add: rb_step_def)
    obtain b rb' where w: "wait_event cond dl (service_irq ?rb1) = Some (b, rb')" "rb_step k (service_irq ?rb1) rb'"
      "b = cond rb'" "b \<or> dl \<le> rb_now rb'" using less.hyps [OF lt g2] by blast
    have "rb_step k rb rb'" using s1 s2 w(2) by (blast intro: rb_step_trans)
    moreover have "wait_event cond dl rb = Some (b, rb')"
      using False w(1) by (subst wait_event.simps) (simp add: rb_now_def)
    ultimately show ?thesis using w(3,4) by blast
  qed
qed

lemma wait_ends:
  assumes "rb_good k rb"
  shows "\<exists>ret rb'. agx_rtbuddy_wait rb done = Some (ret, rb') \<and> rb_step k rb rb' \<and>
     (ret = 0 \<longrightarrow> done rb' \<and> rtk_error rb' = 0) \<and> (rtk_error rb' \<noteq> 0 \<longrightarrow> ret = rtk_error rb') \<and>
     (ret \<noteq> 0 \<longrightarrow> rtk_error rb' \<noteq> 0 \<or>
        ret = AGX_ETIMEDOUT \<and> rb_now rb + AGX_RTBUDDY_STAGE_TIMEOUT_MS * 1000 \<le> rb_now rb')"
proof -
  obtain b rb' where w: "wait_event (\<lambda>rtk. done rtk \<or> agx_rtkit_error rtk \<noteq> 0)
      (rb_now rb + AGX_RTBUDDY_STAGE_TIMEOUT_MS * 1000) rb = Some (b, rb')" "rb_step k rb rb'"
    "b = (done rb' \<or> agx_rtkit_error rb' \<noteq> 0)" "b \<or> rb_now rb + AGX_RTBUDDY_STAGE_TIMEOUT_MS * 1000 \<le> rb_now rb'"
    using wait_event_ends [OF assms] by blast
  then show ?thesis
    by (intro exI [of _ "if rtk_error rb' \<noteq> 0 then rtk_error rb' else if \<not> b then AGX_ETIMEDOUT else 0"] exI [of _ rb'])
      (auto simp: agx_rtbuddy_wait_def rb_now_def agx_rtkit_error_def AGX_ETIMEDOUT_def Let_def)
qed

end

end
