(* ===== verification/Rtbuddy_Boot.thy ===== *)
theory Rtbuddy_Boot
  imports Rtbuddy_Inv
begin

text \<open>
  Bring-up and removal of the driver. The boot sequence is split where its stages end; each stage has the
  same outcome: the driver is up, or it has failed with the coprocessor stopped and no
  endpoint marked as up.
\<close>

section \<open>Stages\<close>

definition boot_endpoints :: "'d agx_rtbuddy \<Rightarrow> (int \<times> 'd agx_rtbuddy) option" where
  "boot_endpoints rb =
     (let (ret, rb) = agx_rtkit_start_endpoint rb AGX_RTKIT_EP_FIRMWARE
      in if ret \<noteq> 0 then Some (boot_fail rb ret) else
      let rb = upd_rb (\<lambda>c. c\<lparr>rb_firmware_up := True\<rparr>) rb;
          (ret, rb) = agx_rtkit_start_endpoint rb AGX_RTKIT_EP_DOORBELL
      in if ret \<noteq> 0 then Some (boot_fail rb ret) else do {
      c \<leftarrow> agx_rtbuddy_set_power ((rtk_ctx rb)\<lparr>rb_doorbell_up := True\<rparr>) AGX_POWER_ON;
      Some (0, rb\<lparr>rtk_ctx := c\<rparr>) })"

definition boot_ap_power :: "'d agx_rtbuddy \<Rightarrow> (int \<times> 'd agx_rtbuddy) option" where
  "boot_ap_power rb =
     (let (ret, rb) = agx_rtkit_set_ap_power rb AGX_PWR_ON
      in if ret \<noteq> 0 then Some (boot_fail rb ret) else do {
      (ret, rb) \<leftarrow> agx_rtbuddy_wait rb agx_rtkit_ap_acked;
      if ret \<noteq> 0 then Some (boot_fail rb ret)
      else if \<not> agx_rtkit_running rb then Some (boot_fail rb AGX_EIO) else boot_endpoints rb })"

definition boot_handshake :: "'d agx_rtbuddy \<Rightarrow> (int \<times> 'd agx_rtbuddy) option" where
  "boot_handshake rb = do {
      (ret, rb) \<leftarrow> agx_rtbuddy_wait rb agx_rtkit_epmap_done;
      if ret \<noteq> 0 then Some (boot_fail rb ret) else do {
      (ret, rb) \<leftarrow> agx_rtbuddy_wait rb agx_rtkit_iop_acked;
      if ret \<noteq> 0 then Some (boot_fail rb ret)
      else if rtk_iop_power rb AND AGX_PWR_LEVEL_MASK \<noteq> AGX_PWR_ON then Some (boot_fail rb AGX_EIO)
      else boot_ap_power rb }}"

lemma boot_stages:
  "agx_rtbuddy_boot rb =
     (let rb = upd_rb boot_start_cpu rb;
          (ret, rb) = agx_rtkit_set_iop_power rb AGX_PWR_INIT
      in if ret \<noteq> 0 then Some (boot_fail rb ret) else
      let (ret, c) = boot_request_irq (rtk_ctx rb); rb = rb\<lparr>rtk_ctx := c\<rparr>
      in if ret \<noteq> 0 then Some (boot_fail rb ret) else boot_handshake rb)"
  unfolding agx_rtbuddy_boot_def boot_handshake_def boot_ap_power_def boot_endpoints_def by (rule refl)

section \<open>Outcome\<close>

definition boot_post :: "'d kernel_ops \<Rightarrow> 'd agx_rtbuddy \<Rightarrow> int \<times> 'd agx_rtbuddy \<Rightarrow> bool" where
  "boot_post k rb0 r \<longleftrightarrow> (case r of (ret, rb) \<Rightarrow>
     rb_good k rb \<and> rtk_ext rb0 rb \<and> rb_display (rtk_ctx rb) = rb_display (rtk_ctx rb0) \<and>
     (if ret = 0
      then agx_rtbuddy_started rb \<and> rb_power (rtk_ctx rb) = AGX_POWER_ON \<and> rb_cpu_running (rtk_ctx rb) \<and>
           rb_irq_requested (rtk_ctx rb) \<and> agx_rtkit_epmap_done rb \<and>
           agx_rtkit_has_endpoint rb AGX_RTKIT_EP_FIRMWARE \<and> agx_rtkit_has_endpoint rb AGX_RTKIT_EP_DOORBELL
      else \<not> rb_cpu_running (rtk_ctx rb) \<and> \<not> rb_firmware_up (rtk_ctx rb) \<and> \<not> rb_doorbell_up (rtk_ctx rb) \<and>
           rb_power (rtk_ctx rb) = rb_power (rtk_ctx rb0)))"

definition boots :: "'d kernel_ops \<Rightarrow> 'd agx_rtbuddy \<Rightarrow> (int \<times> 'd agx_rtbuddy) option \<Rightarrow> bool" where
  "boots k rb0 m \<longleftrightarrow> (case m of None \<Rightarrow> False | Some r \<Rightarrow> boot_post k rb0 r)"

lemma boots_Some [simp]: "boots k rb0 (Some r) = boot_post k rb0 r"
  by (simp add: boots_def)

definition rb_going :: "'d kernel_ops \<Rightarrow> 'd agx_rtbuddy \<Rightarrow> 'd agx_rtbuddy \<Rightarrow> bool" where
  "rb_going k rb0 rb \<longleftrightarrow> rb_good k rb \<and> rtk_ext rb0 rb \<and> rb_cpu_running (rtk_ctx rb) \<and>
     rb_irq_requested (rtk_ctx rb) \<and> rb_power (rtk_ctx rb) = rb_power (rtk_ctx rb0) \<and>
     rb_display (rtk_ctx rb) = rb_display (rtk_ctx rb0)"

lemma going_step: "rb_going k rb0 rb \<Longrightarrow> rb_step k rb rb' \<Longrightarrow> rb_going k rb0 rb'"
  by (auto simp: rb_going_def rb_step_def rb_frame_def intro: rtk_ext_trans)

lemma good_upd:
  assumes "rb_good k rb" "rb_ctx_ok k c"
  shows "rb_good k (rb\<lparr>rtk_ctx := c\<rparr>)"
  using assms by (simp add: rb_good_def rtk_wf_def)

lemma ext_upd: "rtk_ext a b \<Longrightarrow> rtk_ext a (b\<lparr>rtk_ctx := c\<rparr>)"
  by (rule rtk_ext_trans [OF _ ext_ctx])

lemma going_upd:
  assumes "rb_going k rb0 rb" "rb_ctx_ok k c" "rb_cpu_running c" "rb_irq_requested c"
    "rb_power c = rb_power (rtk_ctx rb)" "rb_display c = rb_display (rtk_ctx rb)"
  shows "rb_going k rb0 (rb\<lparr>rtk_ctx := c\<rparr>)"
  using assms by (simp add: rb_going_def good_upd ext_upd)

lemma stop_cpu_fields:
  "\<not> rb_cpu_running (agx_rtbuddy_stop_cpu c)" "rb_power (agx_rtbuddy_stop_cpu c) = rb_power c"
  "rb_ctx_ok k c \<Longrightarrow> rb_ctx_ok k (agx_rtbuddy_stop_cpu c)" "rb_shmem (agx_rtbuddy_stop_cpu c) = rb_shmem c"
  "rb_display (agx_rtbuddy_stop_cpu c) = rb_display c" "rb_irq_requested (agx_rtbuddy_stop_cpu c) = rb_irq_requested c"
  "rb_k (agx_rtbuddy_stop_cpu c) = rb_k c"
  by (simp_all add: agx_rtbuddy_stop_cpu_def rb_ctx_ok_def Let_def case_prod_beta)

lemma boot_fail_post:
  assumes "rb_good k rb" "rtk_ext rb0 rb" "rb_power (rtk_ctx rb) = rb_power (rtk_ctx rb0)"
    "rb_display (rtk_ctx rb) = rb_display (rtk_ctx rb0)" "ret \<noteq> 0"
  shows "boot_post k rb0 (boot_fail rb ret)"
proof -
  have "rb_ctx_ok k (rtk_ctx rb)" using assms(1) by (simp add: rb_good_def)
  then have "rb_ctx_ok k ((agx_rtbuddy_stop_cpu (rtk_ctx rb))\<lparr>rb_firmware_up := False, rb_doorbell_up := False\<rparr>)"
    using stop_cpu_fields(3) [of k "rtk_ctx rb"] by (simp add: rb_ctx_ok_def)
  with assms rtk_ext_trans [OF assms(2) ext_ctx] show ?thesis
    by (simp add: boot_post_def boot_fail_def upd_rb_def good_upd stop_cpu_fields)
qed

lemma going_fail: "rb_going k rb0 rb \<Longrightarrow> ret \<noteq> 0 \<Longrightarrow> boot_post k rb0 (boot_fail rb ret)"
  by (rule boot_fail_post) (simp_all add: rb_going_def)

lemma set_power_ok:
  assumes "rb_ctx_ok k c"
  shows "\<exists>d. agx_rtbuddy_set_power c s = Some (c\<lparr>rb_power := s, rb_dev := d\<rparr>)"
proof (cases "rb_power c = s")
  case True
  then show ?thesis by (intro exI [of _ "rb_dev c"]) (simp add: agx_rtbuddy_set_power_def)
next
  case False
  show ?thesis
  proof (cases "rb_display c")
    case None
    with False show ?thesis
      by (intro exI [of _ "rb_dev c"]) (simp add: agx_rtbuddy_set_power_def Let_def)
  next
    case (Some b)
    with assms have "broker_ok b" by (simp add: rb_ctx_ok_def)
    from notify_ok [OF this, of "rb_power c" s "rb_dev c"] False Some show ?thesis
      by (cases c) (auto simp: agx_rtbuddy_set_power_def Let_def)
  qed
qed

lemma start_endpoint_powers:
  "agx_rtkit_start_endpoint rb ep = (ret, rb') \<Longrightarrow>
     agx_rtkit_running rb' = agx_rtkit_running rb \<and> rtk_epmap_done rb' = rtk_epmap_done rb \<and>
     (ret = 0 \<longrightarrow> agx_rtkit_has_endpoint rb ep)"
  by (auto simp: agx_rtkit_start_endpoint_def agx_rtkit_mgmt_send_def agx_rtkit_send_def agx_rtkit_fail_def
      agx_rtkit_running_def Let_def AGX_EINVAL_def split: prod.splits if_splits)

section \<open>Releasing the shared buffers\<close>

lemma free_slot_fields:
  "rb_k (free_shmem_slot i c) = rb_k c" "rb_irq_requested (free_shmem_slot i c) = rb_irq_requested c"
  "rb_cpu_running (free_shmem_slot i c) = rb_cpu_running c" "rb_display (free_shmem_slot i c) = rb_display c"
  "rb_ctx_ok k c \<Longrightarrow> rb_ctx_ok k (free_shmem_slot i c)"
  "rb_shmem (free_shmem_slot i c) = (if sh_cpu (rb_shmem c ! i) = 0 then rb_shmem c
     else (rb_shmem c)[i := \<lparr>sh_cpu = 0, sh_iova = 0, sh_size = 0\<rparr>])"
  by (simp_all add: free_shmem_slot_def rb_ctx_ok_def Let_def)

lemma free_shmem_fold:
  "rb_ctx_ok k c \<Longrightarrow> set is \<subseteq> {..<AGX_RTBUDDY_SHMEM_SLOTS} \<Longrightarrow>
   rb_ctx_ok k (fold free_shmem_slot is c) \<and>
   rb_irq_requested (fold free_shmem_slot is c) = rb_irq_requested c \<and>
   rb_cpu_running (fold free_shmem_slot is c) = rb_cpu_running c \<and>
   (\<forall>i < AGX_RTBUDDY_SHMEM_SLOTS. i \<in> set is \<or> sh_cpu (rb_shmem c ! i) = 0 \<longrightarrow>
      sh_cpu (rb_shmem (fold free_shmem_slot is c) ! i) = 0)"
proof (induction "is" arbitrary: c)
  case (Cons i rest)
  let ?c = "free_shmem_slot i c"
  have len: "length (rb_shmem c) = AGX_RTBUDDY_SHMEM_SLOTS" using Cons.prems by (simp add: rb_ctx_ok_def)
  have "sh_cpu (rb_shmem ?c ! j) = 0"
    if "j < AGX_RTBUDDY_SHMEM_SLOTS" "j = i \<or> sh_cpu (rb_shmem c ! j) = 0" for j
    using that len by (cases "j = i") (auto simp: free_slot_fields)
  with Cons.IH [of ?c] Cons.prems show ?case by (auto simp: free_slot_fields)
qed simp

lemma free_shmem_clears:
  assumes "rb_ctx_ok k c"
  shows "rb_ctx_ok k (agx_rtbuddy_free_shmem c)"
    "rb_irq_requested (agx_rtbuddy_free_shmem c) = rb_irq_requested c"
    "rb_cpu_running (agx_rtbuddy_free_shmem c) = rb_cpu_running c"
    "\<forall>s \<in> set (rb_shmem (agx_rtbuddy_free_shmem c)). sh_cpu s = 0"
proof -
  have "set [0..<AGX_RTBUDDY_SHMEM_SLOTS] \<subseteq> {..<AGX_RTBUDDY_SHMEM_SLOTS}" by auto
  note f = free_shmem_fold [OF assms this]
  show ok: "rb_ctx_ok k (agx_rtbuddy_free_shmem c)"
    and "rb_irq_requested (agx_rtbuddy_free_shmem c) = rb_irq_requested c"
    and "rb_cpu_running (agx_rtbuddy_free_shmem c) = rb_cpu_running c"
    using f by (auto simp: agx_rtbuddy_free_shmem_def)
  show "\<forall>s \<in> set (rb_shmem (agx_rtbuddy_free_shmem c)). sh_cpu s = 0"
    using f ok by (auto simp: agx_rtbuddy_free_shmem_def rb_ctx_ok_def in_set_conv_nth)
qed

definition remove_post :: "'d kernel_ops \<Rightarrow> 'd agx_rtbuddy \<Rightarrow> 'd agx_rtbuddy \<Rightarrow> bool" where
  "remove_post k rb0 rb \<longleftrightarrow> rb_good k rb \<and> rtk_ext rb0 rb \<and> \<not> agx_rtbuddy_started rb \<and>
     \<not> rb_irq_requested (rtk_ctx rb) \<and> \<not> rb_cpu_running (rtk_ctx rb) \<and> rb_power (rtk_ctx rb) = AGX_POWER_OFF \<and>
     (\<forall>s \<in> set (rb_shmem (rtk_ctx rb)). sh_cpu s = 0)"

section \<open>The stages end\<close>

context kernel_clock
begin

lemma boot_endpoints_post:
  assumes g: "rb_going k rb0 rb" and run: "agx_rtkit_running rb" and em: "agx_rtkit_epmap_done rb"
  shows "boots k rb0 (boot_endpoints rb)"
proof -
  obtain ret1 rb1 where s1: "agx_rtkit_start_endpoint rb AGX_RTKIT_EP_FIRMWARE = (ret1, rb1)" by (rule prod.exhaust)
  have st1: "rb_step k rb rb1" using step_start [OF _ s1] g by (simp add: rb_going_def)
  note g1 = going_step [OF g st1] and p1 = start_endpoint_powers [OF s1]
  let ?rb1 = "upd_rb (\<lambda>c. c\<lparr>rb_firmware_up := True\<rparr>) rb1"
  have g1': "rb_going k rb0 ?rb1"
    unfolding upd_rb_def using g1 by (intro going_upd) (simp_all add: rb_going_def rb_good_def rb_ctx_ok_def)
  obtain ret2 rb2 where s2: "agx_rtkit_start_endpoint ?rb1 AGX_RTKIT_EP_DOORBELL = (ret2, rb2)" by (rule prod.exhaust)
  have st2: "rb_step k ?rb1 rb2" using step_start [OF _ s2] g1' by (simp add: rb_going_def)
  note g2 = going_step [OF g1' st2] and p2 = start_endpoint_powers [OF s2]
  let ?c = "(rtk_ctx rb2)\<lparr>rb_doorbell_up := True\<rparr>"
  have c: "rb_ctx_ok k ?c" using g2 by (simp add: rb_going_def rb_good_def rb_ctx_ok_def)
  obtain d where d: "agx_rtbuddy_set_power ?c AGX_POWER_ON = Some (?c\<lparr>rb_power := AGX_POWER_ON, rb_dev := d\<rparr>)"
    using set_power_ok [OF c] by blast
  let ?rb3 = "rb2\<lparr>rtk_ctx := ?c\<lparr>rb_power := AGX_POWER_ON, rb_dev := d\<rparr>\<rparr>"
  have fw: "rb_firmware_up (rtk_ctx rb2)" using st2 by (simp add: rb_step_def rb_frame_def upd_rb_def)
  have run3: "agx_rtkit_running ?rb3" "rtk_epmap_done ?rb3 = rtk_epmap_done rb"
    using p1 p2 run by (simp_all add: upd_rb_def agx_rtkit_running_def)
  have has: "agx_rtkit_has_endpoint ?rb3 AGX_RTKIT_EP_FIRMWARE" "agx_rtkit_has_endpoint ?rb3 AGX_RTKIT_EP_DOORBELL"
    if "ret1 = 0" "ret2 = 0"
  proof -
    have "rtk_ext rb ?rb1" "rtk_ext ?rb1 rb2"
      using st1 st2 by (simp_all add: rb_step_def upd_rb_def ext_upd)
    then have "rtk_ext rb rb2" by (rule rtk_ext_trans)
    with p1 p2 that \<open>rtk_ext ?rb1 rb2\<close> rtk_ext_has_endpoint
    show "agx_rtkit_has_endpoint ?rb3 AGX_RTKIT_EP_FIRMWARE" "agx_rtkit_has_endpoint ?rb3 AGX_RTKIT_EP_DOORBELL"
      by (metis has_endpoint_upd(1))+
  qed
  have "boot_post k rb0 (0, ?rb3)" if "ret1 = 0" "ret2 = 0"
  proof -
    have "rb_ctx_ok k (?c\<lparr>rb_power := AGX_POWER_ON, rb_dev := d\<rparr>)" using c by (simp add: rb_ctx_ok_def)
    then have "rb_good k ?rb3" using g2 by (simp add: rb_going_def good_upd)
    moreover have "rtk_ext rb0 ?rb3" using g2 by (simp add: rb_going_def ext_upd)
    ultimately show ?thesis
      using g2 fw run3 has [OF that] em
      by (simp add: boot_post_def rb_going_def agx_rtbuddy_started_def agx_rtkit_epmap_done_def)
  qed
  with s1 s2 d g1 g2 show ?thesis by (simp add: boot_endpoints_def Let_def going_fail)
qed

lemma boot_ap_power_post:
  assumes g: "rb_going k rb0 rb" and em: "agx_rtkit_epmap_done rb"
  shows "boots k rb0 (boot_ap_power rb)"
proof -
  obtain ret1 rb1 where s1: "agx_rtkit_set_ap_power rb AGX_PWR_ON = (ret1, rb1)" by (rule prod.exhaust)
  have st1: "rb_step k rb rb1" using step_set_power(2) [OF _ s1] g by (simp add: rb_going_def)
  note g1 = going_step [OF g st1]
  obtain ret2 rb2 where s2: "agx_rtbuddy_wait rb1 agx_rtkit_ap_acked = Some (ret2, rb2)" and st2: "rb_step k rb1 rb2"
    using wait_ends [of rb1 agx_rtkit_ap_acked] g1 by (auto simp: rb_going_def)
  note g2 = going_step [OF g1 st2]
  have em2: "agx_rtkit_epmap_done rb2" using em st1 st2 by (simp add: rb_step_def rtk_ext_def agx_rtkit_epmap_done_def)
  show ?thesis
    using s1 s2 g1 g2 boot_endpoints_post [OF g2 _ em2]
    by (simp add: boot_ap_power_def AGX_EIO_def going_fail)
qed

lemma boot_handshake_post:
  assumes g: "rb_going k rb0 rb"
  shows "boots k rb0 (boot_handshake rb)"
proof -
  obtain ret1 rb1 where s1: "agx_rtbuddy_wait rb agx_rtkit_epmap_done = Some (ret1, rb1)" and st1: "rb_step k rb rb1"
    and em: "ret1 = 0 \<longrightarrow> agx_rtkit_epmap_done rb1"
    using wait_ends [of rb agx_rtkit_epmap_done] g by (auto simp: rb_going_def)
  note g1 = going_step [OF g st1]
  obtain ret2 rb2 where s2: "agx_rtbuddy_wait rb1 agx_rtkit_iop_acked = Some (ret2, rb2)" and st2: "rb_step k rb1 rb2"
    using wait_ends [of rb1 agx_rtkit_iop_acked] g1 by (auto simp: rb_going_def)
  note g2 = going_step [OF g1 st2]
  have em2: "ret1 = 0 \<longrightarrow> agx_rtkit_epmap_done rb2"
    using em st2 by (simp add: rb_step_def rtk_ext_def agx_rtkit_epmap_done_def)
  show ?thesis
    using s1 s2 g1 g2 boot_ap_power_post [OF g2] em2
    by (simp add: boot_handshake_def AGX_EIO_def going_fail)
qed

lemma boot_outcome:
  assumes g: "rb_good k rb"
  shows "boots k rb (agx_rtbuddy_boot rb)"
proof -
  let ?rb1 = "upd_rb boot_start_cpu rb"
  have c1: "rb_ctx_ok k (boot_start_cpu (rtk_ctx rb))" "rb_cpu_running (boot_start_cpu (rtk_ctx rb))"
    "rb_power (boot_start_cpu (rtk_ctx rb)) = rb_power (rtk_ctx rb)"
    "rb_display (boot_start_cpu (rtk_ctx rb)) = rb_display (rtk_ctx rb)"
    using g by (simp_all add: rb_good_def boot_start_cpu_def rb_ctx_ok_def Let_def case_prod_beta)
  then have g1: "rb_good k ?rb1" "rtk_ext rb ?rb1" using g by (simp_all add: upd_rb_def good_upd ext_ctx)
  obtain ret2 rb2 where s2: "agx_rtkit_set_iop_power ?rb1 AGX_PWR_INIT = (ret2, rb2)" by (rule prod.exhaust)
  have st2: "rb_step k ?rb1 rb2" using step_set_power(1) [OF g1(1) s2] .
  have g2: "rb_good k rb2" "rtk_ext rb rb2" "rb_cpu_running (rtk_ctx rb2)" "rb_power (rtk_ctx rb2) = rb_power (rtk_ctx rb)"
    "rb_display (rtk_ctx rb2) = rb_display (rtk_ctx rb)"
    using st2 g1 c1 by (auto simp: rb_step_def rb_frame_def upd_rb_def intro: rtk_ext_trans)
  obtain ret3 c3 where s3: "boot_request_irq (rtk_ctx rb2) = (ret3, c3)" by (rule prod.exhaust)
  let ?rb3 = "rb2\<lparr>rtk_ctx := c3\<rparr>"
  have c3: "rb_ctx_ok k c3" "rb_power c3 = rb_power (rtk_ctx rb)" "rb_display c3 = rb_display (rtk_ctx rb)"
    "ret3 = 0 \<longrightarrow> rb_cpu_running c3 \<and> rb_irq_requested c3"
    using s3 g2 by (auto simp: boot_request_irq_def rb_ctx_ok_def rb_good_def Let_def split: if_splits prod.splits)
  have g3: "rb_good k ?rb3" "rtk_ext rb ?rb3" using g2 c3 by (simp_all add: good_upd ext_upd)
  have "rb_going k rb ?rb3" if "ret3 = 0" using g3 c3 that by (simp add: rb_going_def)
  then have "ret3 = 0 \<longrightarrow> boots k rb (boot_handshake ?rb3)" by (simp add: boot_handshake_post)
  with s2 s3 g2 g3 c3 show ?thesis
    by (simp add: boot_stages Let_def boot_fail_post)
qed

lemma shutdown_ends:
  assumes g: "rb_good k rb"
  shows "\<exists>rb'. agx_rtbuddy_shutdown rb = Some rb' \<and> rb_step k rb rb'"
proof (cases "agx_rtkit_running rb")
  case False
  with g show ?thesis by (simp add: agx_rtbuddy_shutdown_def rb_step_refl)
next
  case True
  obtain ret1 rb1 where s1: "agx_rtkit_set_ap_power rb AGX_PWR_QUIESCED = (ret1, rb1)" by (rule prod.exhaust)
  have st1: "rb_step k rb rb1" using step_set_power(2) [OF g s1] .
  then have g1: "rb_good k rb1" by (simp add: rb_step_def)
  obtain ret2 rb2 where s2: "agx_rtbuddy_wait rb1 agx_rtkit_ap_acked = Some (ret2, rb2)" and st2: "rb_step k rb1 rb2"
    using wait_ends [OF g1, of agx_rtkit_ap_acked] by auto
  define rb3 where "rb3 = (if ret1 = 0 then rb2 else rb1)"
  have st3: "rb_step k rb rb3" using st1 st2 rb_step_trans by (auto simp: rb3_def)
  obtain ret4 rb4 where s4: "agx_rtkit_set_iop_power rb3 AGX_PWR_SLEEP = (ret4, rb4)" by (rule prod.exhaust)
  have "rb_step k rb3 rb4" using st3 step_set_power(1) [OF _ s4] by (simp add: rb_step_def)
  with st3 have st4: "rb_step k rb rb4" by (blast intro: rb_step_trans)
  obtain ret5 rb5 where s5: "agx_rtbuddy_wait rb4 agx_rtkit_iop_acked = Some (ret5, rb5)" and st5: "rb_step k rb4 rb5"
    using wait_ends [of rb4 agx_rtkit_iop_acked] st4 by (auto simp: rb_step_def)
  have "agx_rtbuddy_shutdown rb = Some (if ret4 = 0 then rb5 else rb4)"
    using True s1 s2 s4 s5 by (simp add: agx_rtbuddy_shutdown_def rb3_def split: if_splits)
  moreover have "rb_step k rb (if ret4 = 0 then rb5 else rb4)" using st4 st5 rb_step_trans by auto
  ultimately show ?thesis by blast
qed

lemma remove_outcome:
  assumes g: "rb_good k rb"
  shows "\<exists>rb'. agx_rtbuddy_remove rb = Some rb' \<and> remove_post k rb rb'"
proof -
  obtain rb1 where s: "agx_rtbuddy_shutdown rb = Some rb1" and st: "rb_step k rb rb1" using shutdown_ends [OF g] by blast
  let ?c = "rtk_ctx rb1"
  define c2 where "c2 = (if rb_irq_requested ?c
      then ?c\<lparr>rb_dev := k_free_irq (rb_k ?c) (rb_dev ?c) (rb_irq ?c), rb_irq_requested := False\<rparr> else ?c)"
  have c2: "rb_ctx_ok k c2" "\<not> rb_irq_requested c2"
    using st by (auto simp: c2_def rb_step_def rb_good_def rb_ctx_ok_def)
  let ?c3 = "agx_rtbuddy_stop_cpu c2"
  note c3 = stop_cpu_fields(3) [OF c2(1)]
  note c4 = free_shmem_clears [OF c3]
  let ?c5 = "(agx_rtbuddy_free_shmem ?c3)\<lparr>rb_firmware_up := False, rb_doorbell_up := False\<rparr>"
  have c5: "rb_ctx_ok k ?c5" using c4(1) by (simp add: rb_ctx_ok_def)
  obtain d where d: "agx_rtbuddy_set_power ?c5 AGX_POWER_OFF = Some (?c5\<lparr>rb_power := AGX_POWER_OFF, rb_dev := d\<rparr>)"
    using set_power_ok [OF c5] by blast
  let ?rb = "rb1\<lparr>rtk_ctx := ?c5\<lparr>rb_power := AGX_POWER_OFF, rb_dev := d\<rparr>\<rparr>"
  have "rb_ctx_ok k (?c5\<lparr>rb_power := AGX_POWER_OFF, rb_dev := d\<rparr>)" using c5 by (simp add: rb_ctx_ok_def)
  then have "rb_good k ?rb" "rtk_ext rb ?rb" using st by (simp_all add: rb_step_def good_upd ext_upd)
  then have "remove_post k rb ?rb"
    using c4 c2 by (simp add: remove_post_def agx_rtbuddy_started_def stop_cpu_fields)
  moreover have "agx_rtbuddy_remove rb = Some ?rb"
    using s d by (simp add: agx_rtbuddy_remove_def upd_rb_def c2_def Let_def)
  ultimately show ?thesis by blast
qed

end

end
