(* ===== verification/Rtbuddy_Dma.thy ===== *)
theory Rtbuddy_Dma
  imports Rtbuddy_Boot "HOL-Library.Multiset"
begin

text \<open>
  Ownership of the shared buffers. The contract \<open>dma_device\<close> adds to the clock laws the multiset of DMA
  buffers that are allocated, as size, CPU pointer and device address. The driver's slots
  account for every buffer it has: that is kept by each message, wait and stage, so removal
  gives back exactly what the driver took.
\<close>

section \<open>The contract\<close>

locale dma_device = kernel_clock +
  fixes dinv :: "'a \<Rightarrow> bool"
    and live :: "'a \<Rightarrow> (u64 \<times> u64 \<times> u64) multiset"
  assumes readl_live: "dinv d \<Longrightarrow> dinv (snd (k_readl k d a)) \<and> live (snd (k_readl k d a)) = live d"
    and readq_live: "dinv d \<Longrightarrow> dinv (snd (k_readq k d a)) \<and> live (snd (k_readq k d a)) = live d"
    and writel_live: "dinv d \<Longrightarrow> dinv (k_writel k d v a) \<and> live (k_writel k d v a) = live d"
    and writeq_live: "dinv d \<Longrightarrow> dinv (k_writeq k d w a) \<and> live (k_writeq k d w a) = live d"
    and usleep_live: "dinv d \<Longrightarrow> dinv (k_usleep k d n) \<and> live (k_usleep k d n) = live d"
    and idle_live: "dinv d \<Longrightarrow> dinv (k_idle k d) \<and> live (k_idle k d) = live d"
    and request_irq_live: "dinv d \<Longrightarrow> dinv (snd (k_request_irq k d i)) \<and> live (snd (k_request_irq k d i)) = live d"
    and free_irq_live: "dinv d \<Longrightarrow> dinv (k_free_irq k d i) \<and> live (k_free_irq k d i) = live d"
    and alloc_live: "dinv d \<Longrightarrow> k_dma_alloc k d w = ((cpu, iova), d') \<Longrightarrow>
      dinv d' \<and> live d' = (if cpu = 0 then live d else add_mset (w, cpu, iova) (live d))"
    and free_live: "dinv d \<Longrightarrow> (w, cpu, iova) \<in># live d \<Longrightarrow>
      dinv (k_dma_free k d w cpu iova) \<and> live (k_dma_free k d w cpu iova) = live d - {#(w, cpu, iova)#}"

definition slot_bufs :: "agx_shmem list \<Rightarrow> (u64 \<times> u64 \<times> u64) multiset" where
  "slot_bufs sh = image_mset (\<lambda>s. (sh_size s, sh_cpu s, sh_iova s)) (filter_mset (\<lambda>s. sh_cpu s \<noteq> 0) (mset sh))"

lemma slot_bufs_fill:
  assumes "i < length sh" "sh_cpu (sh ! i) = 0"
  shows "slot_bufs (sh[i := s]) =
    (if sh_cpu s = 0 then slot_bufs sh else add_mset (sh_size s, sh_cpu s, sh_iova s) (slot_bufs sh))"
proof -
  obtain M where "mset sh = add_mset (sh ! i) M" using assms(1) by (metis multi_member_split nth_mem_mset)
  then show ?thesis using assms by (simp add: slot_bufs_def mset_update)
qed

lemma slot_bufs_free:
  assumes "i < length sh" "sh_cpu (sh ! i) \<noteq> 0" "sh_cpu s = 0"
  shows "(sh_size (sh ! i), sh_cpu (sh ! i), sh_iova (sh ! i)) \<in># slot_bufs sh"
    "slot_bufs (sh[i := s]) = slot_bufs sh - {#(sh_size (sh ! i), sh_cpu (sh ! i), sh_iova (sh ! i))#}"
proof -
  obtain M where "mset sh = add_mset (sh ! i) M" using assms(1) by (metis multi_member_split nth_mem_mset)
  then show "(sh_size (sh ! i), sh_cpu (sh ! i), sh_iova (sh ! i)) \<in># slot_bufs sh"
    "slot_bufs (sh[i := s]) = slot_bufs sh - {#(sh_size (sh ! i), sh_cpu (sh ! i), sh_iova (sh ! i))#}"
    using assms by (simp_all add: slot_bufs_def mset_update)
qed

lemma slot_bufs_empty: "\<forall>s \<in> set sh. sh_cpu s = 0 \<Longrightarrow> slot_bufs sh = {#}"
  by (induction sh) (simp_all add: slot_bufs_def)

section \<open>The slots account for every buffer\<close>

definition listeners_keep :: "('d \<Rightarrow> bool) \<Rightarrow> ('d \<Rightarrow> 'b) \<Rightarrow> 'd agx_display_broker \<Rightarrow> bool" where
  "listeners_keep dinv live b \<longleftrightarrow> (\<forall>(q, l) \<in> set (db_listeners b). \<forall>cookie old new d. dinv d \<longrightarrow>
     dinv (dl_callback l cookie old new d) \<and> live (dl_callback l cookie old new d) = live d)"

definition dma_ok :: "'d kernel_ops \<Rightarrow> ('d \<Rightarrow> bool) \<Rightarrow> ('d \<Rightarrow> (u64 \<times> u64 \<times> u64) multiset) \<Rightarrow>
    (u64 \<times> u64 \<times> u64) multiset \<Rightarrow> 'd rtbuddy \<Rightarrow> bool" where
  "dma_ok k dinv live L c \<longleftrightarrow> rb_ctx_ok k c \<and> dinv (rb_dev c) \<and> live (rb_dev c) = L + slot_bufs (rb_shmem c) \<and>
     (\<forall>b. rb_display c = Some b \<longrightarrow> listeners_keep dinv live b)"

lemma listeners_fold:
  "\<forall>(q, l) \<in> set ls. \<forall>cookie old new d. dinv d \<longrightarrow>
     dinv (dl_callback l cookie old new d) \<and> live (dl_callback l cookie old new d) = live d \<Longrightarrow> dinv d \<Longrightarrow>
   dinv (fold (\<lambda>(q, l) w. dl_callback l (dl_cookie l) old new w) ls d) \<and>
   live (fold (\<lambda>(q, l) w. dl_callback l (dl_cookie l) old new w) ls d) = live d"
  by (induction ls arbitrary: d) auto

lemma dma_ok_upd:
  assumes "dma_ok k dinv live L c" "dinv d" "live d = live (rb_dev c)"
  shows "dma_ok k dinv live L (c\<lparr>rb_dev := d\<rparr>)"
  using assms by (simp add: dma_ok_def rb_ctx_ok_def)

lemma dma_ok_flags [simp]:
  "dma_ok k dinv live L (c\<lparr>rb_cpu_running := a\<rparr>) = dma_ok k dinv live L c"
  "dma_ok k dinv live L (c\<lparr>rb_firmware_up := a\<rparr>) = dma_ok k dinv live L c"
  "dma_ok k dinv live L (c\<lparr>rb_doorbell_up := a\<rparr>) = dma_ok k dinv live L c"
  "dma_ok k dinv live L (c\<lparr>rb_irq_requested := a\<rparr>) = dma_ok k dinv live L c"
  "dma_ok k dinv live L (c\<lparr>rb_drain_count := e\<rparr>) = dma_ok k dinv live L c"
  "dma_ok k dinv live L (c\<lparr>rb_fw_events := e\<rparr>) = dma_ok k dinv live L c"
  "dma_ok k dinv live L (c\<lparr>rb_app_unknown := e\<rparr>) = dma_ok k dinv live L c"
  "dma_ok k dinv live L (c\<lparr>rb_power := p\<rparr>) = dma_ok k dinv live L c"
  by (simp_all add: dma_ok_def rb_ctx_ok_def)

lemma dma_ok_k: "dma_ok k dinv live L c \<Longrightarrow> rb_k c = k"
  by (simp add: dma_ok_def rb_ctx_ok_def)

context dma_device
begin

abbreviation ok :: "(u64 \<times> u64 \<times> u64) multiset \<Rightarrow> 'a rtbuddy \<Rightarrow> bool" where
  "ok \<equiv> dma_ok k dinv live"

lemma ok_send: "ok L c \<Longrightarrow> ok L (snd (agx_rtbuddy_ops_send c ep m))"
proof -
  assume c: "ok L c"
  let ?P = "\<lambda>d. dinv d \<and> live d = live (rb_dev c)"
  have "\<exists>ret d1 d'. agx_mailbox_send k (rb_mbox c) ep m (rb_dev c) = Some (ret, rb_mbox c, d') \<and> ?P d1 \<and>
     k_now_us k (rb_dev c) \<le> k_now_us k d' \<and>
     (ret = 0 \<and> True \<and> d' = k_writeq k (k_writeq k d1 m (mb_base (rb_mbox c) + AGX_MBOX_A2I_SEND0))
        (agx_mbox_pack_msg1 ep) (mb_base (rb_mbox c) + AGX_MBOX_A2I_SEND1) \<or>
      ret = AGX_ETIMEDOUT \<and> d' = d1)"
  proof (rule send_rule [where P = ?P and Q = "\<lambda>_. True"])
    show "\<not> mb_lock (rb_mbox c)" "?P (rb_dev c)" using c by (simp_all add: dma_ok_def rb_ctx_ok_def)
    show "?P d' \<and> (\<not> agx_mbox_control_full v \<longrightarrow> True)"
      if "?P d" "k_readl k d (mb_base (rb_mbox c) + AGX_MBOX_A2I_CONTROL) = (v, d')" for d v d'
      using that readl_live [of d "mb_base (rb_mbox c) + AGX_MBOX_A2I_CONTROL"] by simp
    show "?P (k_usleep k d AGX_MBOX_SEND_POLL_US)" if "?P d" for d using that usleep_live by simp
  qed
  then obtain ret d' where s: "agx_mailbox_send k (rb_mbox c) ep m (rb_dev c) = Some (ret, rb_mbox c, d')" "?P d'"
    using writeq_live by (metis (no_types, lifting))
  then show ?thesis
    using dma_ok_upd [OF c, of d'] dma_ok_k [OF c] by (simp add: agx_rtbuddy_ops_send_def)
qed

lemma ok_buffer: "ok L c \<Longrightarrow> ok L (snd (agx_rtbuddy_ops_buffer c ep sz iova))"
proof -
  assume c: "ok L c"
  let ?i = "nat (agx_rtbuddy_shmem_slot ep)"
  obtain cpu io d where a: "k_dma_alloc k (rb_dev c) sz = ((cpu, io), d)" by (metis prod.exhaust)
  have d: "dinv d" "live d = (if cpu = 0 then live (rb_dev c) else add_mset (sz, cpu, io) (live (rb_dev c)))"
    using alloc_live [OF _ a] c by (simp_all add: dma_ok_def)
  have i: "?i < length (rb_shmem c)"
    using c shmem_slot_range(1) [of ep] by (simp add: dma_ok_def rb_ctx_ok_def AGX_RTBUDDY_SHMEM_SLOTS_def)
  have "rb_ctx_ok k (snd (agx_rtbuddy_ops_buffer c ep sz iova))" using c by (simp add: dma_ok_def buffer_ctx_ok)
  with c a d dma_ok_k [OF c] show ?thesis
    by (simp add: dma_ok_def agx_rtbuddy_ops_buffer_def Let_def slot_bufs_fill [OF i])
qed

end

sublocale dma_device \<subseteq> own: rtkit_transport "dma_ok k dinv live L" agx_rtbuddy_rtkit_ops for L
  by unfold_locales (auto simp: agx_rtbuddy_rtkit_ops_def agx_rtbuddy_ops_app_def agx_rtbuddy_ops_crashed_def
      ok_send ok_buffer)

section \<open>Every operation keeps the account\<close>

lemma pred_option_bind: "pred_option P (Option.bind m f) \<longleftrightarrow> pred_option (\<lambda>x. pred_option P (f x)) m"
  by (cases m) simp_all

context dma_device
begin

abbreviation owns :: "(u64 \<times> u64 \<times> u64) multiset \<Rightarrow> 'a agx_rtbuddy \<Rightarrow> bool" where
  "owns \<equiv> own.keeps"

lemma owns_upd: "owns L rb \<Longrightarrow> (ok L (rtk_ctx rb) \<Longrightarrow> ok L (f (rtk_ctx rb))) \<Longrightarrow> owns L (upd_rb f rb)"
  by (simp add: own.keeps_def upd_rb_def)

lemma owns_ctx: "owns L rb \<Longrightarrow> ok L (rtk_ctx rb)" "owns L rb \<Longrightarrow> rb_k (rtk_ctx rb) = k"
  "owns L rb \<Longrightarrow> ok L c \<Longrightarrow> owns L (rb\<lparr>rtk_ctx := c\<rparr>)"
  by (auto simp: own.keeps_def dma_ok_k)

lemma owns_dev: "owns L rb \<Longrightarrow> dinv d \<Longrightarrow> live d = live (rb_dev (rtk_ctx rb)) \<Longrightarrow> owns L (upd_rb (\<lambda>c. c\<lparr>rb_dev := d\<rparr>) rb)"
  by (rule owns_upd) (simp_all add: dma_ok_upd)

lemma empty_live:
  assumes "dinv d" shows "dinv (snd (agx_mailbox_outbox_empty k mbox d)) \<and> live (snd (agx_mailbox_outbox_empty k mbox d)) = live d"
  using readl_live [OF assms] by (simp add: agx_mailbox_outbox_empty_def case_prod_beta)

lemma recv_live:
  assumes "dinv d" shows "dinv (snd (snd (agx_mailbox_recv k mbox d))) \<and> live (snd (snd (agx_mailbox_recv k mbox d))) = live d"
  using empty_live [OF assms, of mbox]
  by (simp add: agx_mailbox_recv_def Let_def case_prod_beta readq_live)

lemma owns_drain: "owns L rb \<Longrightarrow> owns L (snd (irq_drain n h rb))"
proof (induction n arbitrary: h rb)
  case (Suc n)
  let ?c = "rtk_ctx rb"
  obtain ret msg d where r: "agx_mailbox_recv (rb_k ?c) (rb_mbox ?c) (rb_dev ?c) = (ret, msg, d)" by (rule prod_cases3)
  have "dinv (rb_dev ?c)" using owns_ctx(1) [OF Suc.prems] by (simp add: dma_ok_def)
  with r have "owns L (upd_rb (\<lambda>c. c\<lparr>rb_dev := d\<rparr>) rb)"
    using recv_live [of "rb_dev ?c" "rb_mbox ?c"] owns_ctx(2) [OF Suc.prems] by (intro owns_dev [OF Suc.prems]) simp_all
  with r Suc.IH own.keeps_rx show ?case by (simp add: Let_def)
qed simp

lemma owns_service: "owns L rb \<Longrightarrow> owns L (service_irq rb)"
proof -
  assume o: "owns L rb"
  let ?c = "rtk_ctx rb"
  let ?rb = "upd_rb (\<lambda>c. c\<lparr>rb_dev := snd (agx_mailbox_outbox_empty k (rb_mbox ?c) (rb_dev ?c))\<rparr>) rb"
  have "dinv (rb_dev ?c)" using owns_ctx(1) [OF o] by (simp add: dma_ok_def)
  then have o1: "owns L ?rb" using empty_live by (intro owns_dev [OF o]) simp_all
  have "owns L (snd (agx_rtbuddy_irq_thread ?rb))"
    using owns_drain [OF o1] by (auto simp: agx_rtbuddy_irq_thread_def case_prod_beta intro!: owns_upd)
  with o o1 owns_ctx(2) [OF o] show ?thesis
    by (auto simp: service_irq_def agx_rtbuddy_irq_def Let_def case_prod_beta)
qed

lemma owns_idle: "owns L rb \<Longrightarrow> owns L (service_irq (upd_rb (\<lambda>c. c\<lparr>rb_dev := k_idle (rb_k c) (rb_dev c)\<rparr>) rb))"
proof -
  assume o: "owns L rb"
  then have "dinv (rb_dev (rtk_ctx rb))" using owns_ctx(1) by (simp add: dma_ok_def)
  then show ?thesis
    using idle_live owns_ctx(2) [OF o] owns_dev [OF o, of "k_idle k (rb_dev (rtk_ctx rb))"]
    by (intro owns_service) (simp add: upd_rb_def)
qed

lemma owns_wait_event:
  assumes "wait_event cond dl rb = Some (b, rb')"
  shows "owns L rb \<longrightarrow> owns L rb'"
proof -
  have "owns L rb \<longrightarrow> owns L (snd (b, rb'))"
    using assms
  proof (rule wait_event.raw_induct [where P = "\<lambda>cond dl rb r. owns L rb \<longrightarrow> owns L (snd r)", rotated])
    fix wait cond dl rb r
    assume IH: "\<And>cond dl rb r. wait cond dl rb = Some r \<Longrightarrow> owns L rb \<longrightarrow> owns L (snd r)"
      and body: "(if cond rb then Some (True, rb)
        else if dl \<le> k_now_us (rb_k (rtk_ctx rb)) (rb_dev (rtk_ctx rb)) then Some (False, rb)
        else wait cond dl (service_irq (upd_rb (\<lambda>c. c\<lparr>rb_dev := k_idle (rb_k c) (rb_dev c)\<rparr>) rb))) = Some r"
    then show "owns L rb \<longrightarrow> owns L (snd r)"
      using owns_idle [of L rb] by (auto split: if_splits)
  qed
  then show ?thesis by simp
qed

lemma wait_bind:
  assumes "owns L rb" "\<And>ret rb. owns L rb \<Longrightarrow> pred_option Q (f (ret, rb))"
  shows "pred_option Q (Option.bind (agx_rtbuddy_wait rb done) f)"
  using assms unfolding agx_rtbuddy_wait_def
  by (auto simp: pred_option_bind Let_def option.pred_set dest: owns_wait_event)

lemma owns_set_power:
  assumes "ok L c" shows "pred_option (ok L) (agx_rtbuddy_set_power c s)"
proof (cases "rb_display c")
  case (Some b)
  with assms have b: "broker_ok b" "listeners_keep dinv live b" "dinv (rb_dev c)"
    by (simp_all add: dma_ok_def rb_ctx_ok_def)
  have "rb_display (c\<lparr>rb_power := s\<rparr>) = Some b" using Some by simp
  moreover have "dinv (fold (\<lambda>(q, l) w. dl_callback l (dl_cookie l) (rb_power c) s w) (db_listeners b) (rb_dev c)) \<and>
      live (fold (\<lambda>(q, l) w. dl_callback l (dl_cookie l) (rb_power c) s w) (db_listeners b) (rb_dev c)) = live (rb_dev c)"
    using b by (intro listeners_fold) (auto simp: listeners_keep_def)
  ultimately show ?thesis
    using assms Some by (simp add: agx_rtbuddy_set_power_def Let_def notify_ok [OF b(1)] dma_ok_def rb_ctx_ok_def)
qed (use assms in \<open>simp add: agx_rtbuddy_set_power_def Let_def\<close>)

lemma ok_cpu: "ok L c \<Longrightarrow> ok L (boot_start_cpu c)" "ok L c \<Longrightarrow> ok L (agx_rtbuddy_stop_cpu c)"
proof -
  assume c: "ok L c"
  then have d: "dinv (rb_dev c)" "rb_k c = k" by (simp_all add: dma_ok_def rb_ctx_ok_def)
  show "ok L (boot_start_cpu c)"
    using d by (simp add: boot_start_cpu_def agx_mailbox_set_outbox_enable_def Let_def case_prod_beta dma_ok_upd [OF c]
        readl_live writel_live)
  show "ok L (agx_rtbuddy_stop_cpu c)"
    using c d by (simp add: agx_rtbuddy_stop_cpu_def Let_def case_prod_beta dma_ok_upd [OF c] readl_live writel_live)
qed

lemma ok_irq: "ok L c \<Longrightarrow> ok L (snd (boot_request_irq c))"
  using request_irq_live [of "rb_dev c" "rb_irq c"]
  by (auto simp: boot_request_irq_def Let_def case_prod_beta dma_ok_k intro!: dma_ok_upd) (simp_all add: dma_ok_def)

lemma ok_free_slot:
  assumes c: "ok L c" and i: "i < AGX_RTBUDDY_SHMEM_SLOTS" shows "ok L (free_shmem_slot i c)"
proof (cases "sh_cpu (rb_shmem c ! i) = 0")
  case False
  let ?s = "rb_shmem c ! i"
  have len: "i < length (rb_shmem c)" and d: "dinv (rb_dev c)" "live (rb_dev c) = L + slot_bufs (rb_shmem c)"
    using c i by (simp_all add: dma_ok_def rb_ctx_ok_def)
  note f = slot_bufs_free [OF len False, of "\<lparr>sh_cpu = 0, sh_iova = 0, sh_size = 0\<rparr>", simplified]
  have "(sh_size ?s, sh_cpu ?s, sh_iova ?s) \<in># live (rb_dev c)" using d f by simp
  from free_live [OF d(1) this] f d c False dma_ok_k [OF c] show ?thesis
    by (simp add: free_shmem_slot_def Let_def dma_ok_def rb_ctx_ok_def)
qed (use c in \<open>simp add: free_shmem_slot_def\<close>)

lemma ok_free_shmem: "ok L c \<Longrightarrow> ok L (agx_rtbuddy_free_shmem c)"
proof -
  have "ok L c \<Longrightarrow> set is \<subseteq> {..<AGX_RTBUDDY_SHMEM_SLOTS} \<Longrightarrow> ok L (fold free_shmem_slot is c)" for "is"
    by (induction "is" arbitrary: c) (simp_all add: ok_free_slot)
  then show "ok L c \<Longrightarrow> ok L (agx_rtbuddy_free_shmem c)" by (simp add: agx_rtbuddy_free_shmem_def atLeast0LessThan)
qed

lemma owns_power:
  "owns L rb \<Longrightarrow> owns L (snd (agx_rtkit_set_iop_power rb s))" "owns L rb \<Longrightarrow> owns L (snd (agx_rtkit_set_ap_power rb s))"
  using own.keeps_apply [of L rb "In_Iop s"] own.keeps_apply [of L rb "In_Ap s"] by simp_all

lemma owns_fail: "owns L rb \<Longrightarrow> owns L (snd (boot_fail rb ret))"
  by (auto simp: boot_fail_def intro!: owns_upd ok_cpu)

lemma owns_endpoints: "owns L rb \<Longrightarrow> pred_option (\<lambda>x. owns L (snd x)) (boot_endpoints rb)"
proof -
  assume o: "owns L rb"
  obtain ret1 rb1 where s1: "agx_rtkit_start_endpoint rb AGX_RTKIT_EP_FIRMWARE = (ret1, rb1)" by (rule prod.exhaust)
  have o1: "owns L rb1" using own.keeps_start [OF o, of AGX_RTKIT_EP_FIRMWARE] s1 by simp
  let ?rb1 = "upd_rb (\<lambda>c. c\<lparr>rb_firmware_up := True\<rparr>) rb1"
  have o1': "owns L ?rb1" by (rule owns_upd [OF o1]) simp
  obtain ret2 rb2 where s2: "agx_rtkit_start_endpoint ?rb1 AGX_RTKIT_EP_DOORBELL = (ret2, rb2)" by (rule prod.exhaust)
  have o2: "owns L rb2" using own.keeps_start [OF o1', of AGX_RTKIT_EP_DOORBELL] s2 by simp
  then have "pred_option (ok L) (agx_rtbuddy_set_power ((rtk_ctx rb2)\<lparr>rb_doorbell_up := True\<rparr>) AGX_POWER_ON)"
    by (intro owns_set_power) (simp add: owns_ctx)
  then show ?thesis
    using s1 s2 owns_fail [OF o1, of ret1] owns_fail [OF o2, of ret2] owns_ctx(3) [OF o2]
    by (auto simp: boot_endpoints_def Let_def pred_option_bind option.pred_set case_prod_beta)
qed

lemma owns_ap_power: "owns L rb \<Longrightarrow> pred_option (\<lambda>x. owns L (snd x)) (boot_ap_power rb)"
proof -
  assume o: "owns L rb"
  obtain ret1 rb1 where s1: "agx_rtkit_set_ap_power rb AGX_PWR_ON = (ret1, rb1)" by (rule prod.exhaust)
  have o1: "owns L rb1" using owns_power(2) [OF o, of AGX_PWR_ON] s1 by simp
  show ?thesis
    unfolding boot_ap_power_def s1 prod.case Let_def
    by (auto intro!: wait_bind o1 owns_fail owns_endpoints)
qed

lemma owns_handshake: "owns L rb \<Longrightarrow> pred_option (\<lambda>x. owns L (snd x)) (boot_handshake rb)"
  unfolding boot_handshake_def by (auto intro!: wait_bind owns_fail owns_ap_power)

lemma owns_boot: "owns L rb \<Longrightarrow> pred_option (\<lambda>x. owns L (snd x)) (agx_rtbuddy_boot rb)"
proof -
  assume o: "owns L rb"
  have o1: "owns L (upd_rb boot_start_cpu rb)" using o ok_cpu(1) by (rule owns_upd)
  obtain ret2 rb2 where s2: "agx_rtkit_set_iop_power (upd_rb boot_start_cpu rb) AGX_PWR_INIT = (ret2, rb2)"
    by (rule prod.exhaust)
  have o2: "owns L rb2" using owns_power(1) [OF o1, of AGX_PWR_INIT] s2 by simp
  obtain ret3 c3 where s3: "boot_request_irq (rtk_ctx rb2) = (ret3, c3)" by (rule prod.exhaust)
  have o3: "owns L (rb2\<lparr>rtk_ctx := c3\<rparr>)" using ok_irq [OF owns_ctx(1) [OF o2]] s3 by (intro owns_ctx(3) [OF o2]) simp
  from s2 s3 owns_fail [OF o2, of ret2] owns_fail [OF o3, of ret3] owns_handshake [OF o3] show ?thesis
    by (simp add: boot_stages Let_def case_prod_beta)
qed

lemma owns_shutdown: "owns L rb \<Longrightarrow> pred_option (owns L) (agx_rtbuddy_shutdown rb)"
proof -
  have w: "pred_option (owns L) (Option.bind (agx_rtbuddy_wait rb f) (\<lambda>(_, rb). Some rb))" if "owns L rb" for rb f
    using that by (auto intro: wait_bind)
  let ?tail = "\<lambda>rb. let (ret, rb) = agx_rtkit_set_iop_power rb AGX_PWR_SLEEP in
      if ret = 0 then Option.bind (agx_rtbuddy_wait rb agx_rtkit_iop_acked) (\<lambda>(_, rb). Some rb) else Some rb"
  have 2: "pred_option (owns L) (?tail rb)" if "owns L rb" for rb
    using w owns_power(1) [OF that, of AGX_PWR_SLEEP] by (simp add: case_prod_beta)
  assume o: "owns L rb"
  let ?rb = "snd (agx_rtkit_set_ap_power rb AGX_PWR_QUIESCED)"
  have o1: "owns L ?rb" using owns_power(2) [OF o] .
  have "pred_option (\<lambda>rb. pred_option (owns L) (?tail rb))
      (Option.bind (agx_rtbuddy_wait ?rb agx_rtkit_ap_acked) (\<lambda>(_, rb). Some rb))"
    using w [OF o1] by (rule option.pred_mono_strong) (use 2 in blast)
  with o 2 [OF o1] show ?thesis
    by (simp add: agx_rtbuddy_shutdown_def pred_option_bind case_prod_beta Let_def)
qed

lemma owns_remove: "owns L rb \<Longrightarrow> pred_option (owns L) (agx_rtbuddy_remove rb)"
proof -
  assume o: "owns L rb"
  define tail where "tail c = agx_rtbuddy_set_power ((agx_rtbuddy_free_shmem (agx_rtbuddy_stop_cpu
      (if rb_irq_requested c
       then c\<lparr>rb_dev := k_free_irq (rb_k c) (rb_dev c) (rb_irq c), rb_irq_requested := False\<rparr>
       else c)))\<lparr>rb_firmware_up := False, rb_doorbell_up := False\<rparr>) AGX_POWER_OFF" for c :: "'a rtbuddy"
  have t: "pred_option (ok L) (tail c)" if "ok L c" for c
  proof -
    have "ok L (c\<lparr>rb_dev := k_free_irq k (rb_dev c) (rb_irq c)\<rparr>)"
      using free_irq_live that by (intro dma_ok_upd) (simp_all add: dma_ok_def)
    with that show ?thesis unfolding tail_def
      by (intro owns_set_power) (simp add: ok_free_shmem ok_cpu dma_ok_k)
  qed
  have "agx_rtbuddy_remove rb = Option.bind (agx_rtbuddy_shutdown rb)
      (\<lambda>rb. Option.bind (tail (rtk_ctx rb)) (\<lambda>c. Some (rb\<lparr>rtk_ctx := c\<rparr>)))"
    by (simp add: agx_rtbuddy_remove_def tail_def upd_rb_def Let_def)
  moreover have "pred_option (\<lambda>rb. pred_option (owns L) (Option.bind (tail (rtk_ctx rb)) (\<lambda>c. Some (rb\<lparr>rtk_ctx := c\<rparr>))))
      (agx_rtbuddy_shutdown rb)"
    using owns_shutdown [OF o]
  proof (rule option.pred_mono_strong)
    fix rb assume "owns L rb"
    then show "pred_option (owns L) (Option.bind (tail (rtk_ctx rb)) (\<lambda>c. Some (rb\<lparr>rtk_ctx := c\<rparr>)))"
      using t [OF owns_ctx(1)] owns_ctx(3) by (auto simp: pred_option_bind option.pred_set)
  qed
  ultimately show ?thesis by (simp add: pred_option_bind)
qed

end

end
