(* ===== verification/Harness.thy ===== *)
theory Harness
  imports Fake_Asc Rtbuddy_Dma
begin

text \<open>
  The driver on the machine of the tests: the buffer contract is interpreted on the harness's table of buffers,
  and one session of the driver (probe, boot, removal) is evaluated on it. The definitions
  are rewritten by the simplifier down to the final state, so the whole boot protocol runs inside the
  logic: driver, protocol core, mailbox, device and firmware together.
\<close>

section \<open>Buffers of the harness\<close>

definition fake_dma_inv :: "fake_asc \<Rightarrow> bool" where
  "fake_dma_inv d \<longleftrightarrow> 0 < fa_next_cpu d \<and> distinct (map (fst \<circ> snd) (fa_dma d)) \<and>
     (\<forall>(_, p, _) \<in> set (fa_dma d). unat p < fa_next_cpu d)"

definition fake_live :: "fake_asc \<Rightarrow> (u64 \<times> u64 \<times> u64) multiset" where
  "fake_live d = mset (filter (\<lambda>(_, p, _). p \<noteq> 0) (fa_dma d))"

lemma fake_dma_frame:
  assumes "fake_dma_inv d" "fa_dma d' = fa_dma d" "fa_next_cpu d' = fa_next_cpu d"
  shows "fake_dma_inv d' \<and> fake_live d' = fake_live d"
  using assms by (simp add: fake_dma_inv_def fake_live_def)

lemma run_dma: "fa_dma (fake_run d n) = fa_dma d" "fa_next_cpu (fake_run d n) = fa_next_cpu d"
  by (auto simp: fake_run_def fw_loop_def flush_locked_def split: list.split)

lemma filter_distinct_key:
  assumes "distinct (map f xs)" "x \<in> set xs"
  shows "mset (filter (\<lambda>y. f y \<noteq> f x) xs) = mset xs - {#x#}"
  using assms
proof (induction xs)
  case (Cons y xs)
  show ?case
  proof (cases "x = y")
    case True
    with Cons.prems have "\<forall>z \<in> set xs. f z \<noteq> f x" by (auto simp: image_iff)
    then have "filter (\<lambda>y. f y \<noteq> f x) xs = xs" by (rule filter_True)
    with True show ?thesis by simp
  next
    case False
    with Cons have "f y \<noteq> f x" "x \<in> set xs" by (auto simp: image_iff)
    with Cons False show ?thesis by simp
  qed
qed simp

lemma fake_alloc_live:
  assumes i: "fake_dma_inv d" and a: "fake_dma_alloc d w = ((cpu, iova), d')"
  shows "fake_dma_inv d' \<and> fake_live d' = (if cpu = 0 then fake_live d else add_mset (w, cpu, iova) (fake_live d))"
proof -
  let ?n = "fa_next_cpu d"
  have cpu: "cpu = (if ?n < 2 ^ 64 then of_nat ?n else 0)" "iova = fa_next_iova d"
    and d': "fa_dma d' = (w, cpu, iova) # filter (\<lambda>(_, q, _). q \<noteq> cpu) (fa_dma d)"
      "fa_next_cpu d' = ?n + max 1 (unat w)"
    using a by (auto simp: fake_dma_alloc_def Let_def)
  have un: "unat cpu < ?n + max 1 (unat w)" using cpu i by (auto simp: fake_dma_inv_def unat_of_nat less_max_iff_disj)
  have fresh: "filter (\<lambda>(_, q, _). q \<noteq> cpu) (fa_dma d) = fa_dma d" if "cpu \<noteq> 0"
  proof -
    have "unat cpu = ?n" using cpu that by (simp add: unat_of_nat take_bit_eq_mod split: if_splits)
    then show ?thesis using i by (auto simp: filter_id_conv fake_dma_inv_def)
  qed
  have "fake_dma_inv d'"
    using i d' un by (auto simp: fake_dma_inv_def distinct_map_filter intro!: trans_less_add1)
  moreover have "fake_live d' = (if cpu = 0 then fake_live d else add_mset (w, cpu, iova) (fake_live d))"
    using d' fresh by (auto simp: fake_live_def case_prod_beta' intro!: arg_cong [where f = mset] filter_cong)
  ultimately show ?thesis by simp
qed

lemma fake_free_live:
  assumes i: "fake_dma_inv d" and m: "(w, cpu, iova) \<in># fake_live d"
  shows "fake_dma_inv (fake_dma_free d w cpu iova) \<and>
     fake_live (fake_dma_free d w cpu iova) = fake_live d - {#(w, cpu, iova)#}"
proof -
  let ?xs = "filter (\<lambda>(_, p, _). p \<noteq> 0) (fa_dma d)"
  have "distinct (map (fst \<circ> snd) ?xs)" using i by (simp add: fake_dma_inv_def distinct_map_filter)
  moreover have x: "(w, cpu, iova) \<in> set ?xs" using m by (simp add: fake_live_def)
  ultimately have "mset (filter (\<lambda>y. (fst \<circ> snd) y \<noteq> (fst \<circ> snd) (w, cpu, iova)) ?xs) = mset ?xs - {#(w, cpu, iova)#}"
    by (rule filter_distinct_key)
  then have "fake_live (fake_dma_free d w cpu iova) = fake_live d - {#(w, cpu, iova)#}"
    by (simp add: fake_live_def fake_dma_free_def case_prod_beta' conj_commute)
  with i show ?thesis by (auto simp: fake_dma_inv_def fake_dma_free_def distinct_map_filter)
qed

interpretation fake_dma: dma_device fake_kernel fake_dma_inv fake_live
proof unfold_locales
  show "fake_dma_inv d \<Longrightarrow> fake_dma_inv (snd (k_readl fake_kernel d a)) \<and> fake_live (snd (k_readl fake_kernel d a)) = fake_live d"
    for d a by (rule fake_dma_frame) (simp_all add: fake_readl_def)
  show "fake_dma_inv d \<Longrightarrow> fake_dma_inv (snd (k_readq fake_kernel d a)) \<and> fake_live (snd (k_readq fake_kernel d a)) = fake_live d"
    for d a by (rule fake_dma_frame) (simp_all add: fake_readq_def)
  show "fake_dma_inv d \<Longrightarrow> fake_dma_inv (k_writel fake_kernel d v a) \<and> fake_live (k_writel fake_kernel d v a) = fake_live d"
    for d v a by (rule fake_dma_frame) (simp_all add: fake_writel_def flush_locked_def Let_def)
  show "fake_dma_inv d \<Longrightarrow> fake_dma_inv (k_writeq fake_kernel d w a) \<and> fake_live (k_writeq fake_kernel d w a) = fake_live d"
    for d w a by (rule fake_dma_frame) (simp_all add: fake_writeq_def Let_def)
  show "fake_dma_inv d \<Longrightarrow> fake_dma_inv (k_usleep fake_kernel d n) \<and> fake_live (k_usleep fake_kernel d n) = fake_live d"
    for d n by (rule fake_dma_frame) (simp_all add: run_dma)
  show "fake_dma_inv d \<Longrightarrow> fake_dma_inv (k_idle fake_kernel d) \<and> fake_live (k_idle fake_kernel d) = fake_live d"
    for d by (rule fake_dma_frame) (simp_all add: run_dma)
  show "fake_dma_inv d \<Longrightarrow> fake_dma_inv (snd (k_request_irq fake_kernel d i)) \<and>
      fake_live (snd (k_request_irq fake_kernel d i)) = fake_live d" for d i
    by (rule fake_dma_frame) (simp_all add: fake_request_irq_def)
  show "fake_dma_inv d \<Longrightarrow> fake_dma_inv (k_free_irq fake_kernel d i) \<and> fake_live (k_free_irq fake_kernel d i) = fake_live d"
    for d i by (rule fake_dma_frame) (simp_all add: fake_free_irq_def)
qed (simp_all add: fake_alloc_live fake_free_live)

section \<open>A session\<close>

definition harness_rb :: "fake_asc agx_rtbuddy" where
  "harness_rb = snd (agx_rtbuddy_probe fake_kernel fake_asc_init kBase 994 (Some agx_display_broker_init))"

definition machine :: "'d agx_rtbuddy \<Rightarrow> 'd" where
  "machine rb = rb_dev (rtk_ctx rb)"

definition violations :: "fake_asc \<Rightarrow> nat" where
  "violations d = fa_bad_access d + fa_overflow d + fa_order_violation d + fa_enable_order_violation d"

text \<open>The definitions the simplifier unfolds to run the driver, and the evaluation of the loops.\<close>

lemmas agx_prelude_run =
  AGX_BIT64_def AGX_FIELD_GET_def AGX_FIELD_PUT_def AGX_OK_def AGX_EIO_def AGX_ENOMEM_def AGX_ENODEV_def
  AGX_EINVAL_def AGX_ENODATA_def AGX_ETIMEDOUT_def

lemmas wire_run =
  AGX_MBOX_A2I_CONTROL_def AGX_MBOX_I2A_CONTROL_def AGX_MBOX_A2I_SEND0_def AGX_MBOX_A2I_SEND1_def
  AGX_MBOX_I2A_RECV0_def AGX_MBOX_I2A_RECV1_def AGX_MBOX_REGION_SIZE_def AGX_MBOX_CONTROL_ENABLE_def
  AGX_MBOX_CONTROL_FULL_def AGX_MBOX_CONTROL_EMPTY_def AGX_MBOX_MSG1_ENDPOINT_MASK_def agx_mbox_control_full_def
  agx_mbox_control_empty_def agx_mbox_control_with_enable_def agx_mbox_pack_msg1_def agx_mbox_unpack_def
  agx_gpu_msg_type_def agx_gpu_msg_is_event_def AGX_PWR_OFF_def AGX_PWR_SLEEP_def AGX_PWR_QUIESCED_def
  AGX_PWR_ON_def AGX_PWR_IDLE_def AGX_PWR_UNKNOWN_202_def AGX_PWR_INIT_def AGX_PWR_LEVEL_MASK_def

lemmas rtkit_run =
  AGX_RTKIT_EP_MGMT_def AGX_RTKIT_EP_CRASHLOG_def AGX_RTKIT_EP_SYSLOG_def AGX_RTKIT_EP_DEBUG_def
  AGX_RTKIT_EP_IOREPORT_def AGX_RTKIT_EP_OSLOG_def AGX_RTKIT_EP_APP_START_def AGX_RTKIT_EP_FIRMWARE_def
  AGX_RTKIT_EP_DOORBELL_def AGX_RTKIT_EP_COUNT_def AGX_RTKIT_MGMT_HELLO_def AGX_RTKIT_MGMT_HELLO_REPLY_def
  AGX_RTKIT_MGMT_STARTEP_def AGX_RTKIT_MGMT_IOP_PWR_def AGX_RTKIT_MGMT_IOP_PWR_ACK_def AGX_RTKIT_MGMT_EPMAP_def
  AGX_RTKIT_MGMT_EPMAP_REPLY_def AGX_RTKIT_MGMT_AP_PWR_def AGX_RTKIT_MGMT_AP_PWR_ACK_def
  AGX_RTKIT_TYPE_SHIFT_def AGX_RTKIT_TYPE_MASK_def AGX_RTKIT_OSLOG_TYPE_SHIFT_def
  AGX_RTKIT_HELLO_MINVER_SHIFT_def AGX_RTKIT_HELLO_MAXVER_SHIFT_def AGX_RTKIT_HELLO_VER_MASK_def
  AGX_RTKIT_EPMAP_LAST_def AGX_RTKIT_EPMAP_MORE_def AGX_RTKIT_EPMAP_BASE_SHIFT_def AGX_RTKIT_EPMAP_BASE_MASK_def
  AGX_RTKIT_EPMAP_BITMAP_MASK_def AGX_RTKIT_STARTEP_EP_SHIFT_def AGX_RTKIT_STARTEP_EP_MASK_def
  AGX_RTKIT_STARTEP_FLAG_def AGX_RTKIT_PWR_STATE_MASK_def AGX_RTKIT_PROTO_MIN_def AGX_RTKIT_PROTO_MAX_def
  AGX_RTKIT_BUFFER_REQUEST_def AGX_RTKIT_SYSLOG_LOG_def AGX_RTKIT_SYSLOG_INIT_def AGX_RTKIT_IOREPORT_ACK_A_def
  AGX_RTKIT_IOREPORT_ACK_B_def AGX_RTKIT_CRASHLOG_CRASH_def AGX_RTKIT_BUFREQ_SIZE_SHIFT_def
  AGX_RTKIT_BUFREQ_SIZE_MASK_def AGX_RTKIT_BUFREQ_IOVA_MASK_def AGX_RTKIT_OSLOG_SIZE_SHIFT_def
  AGX_RTKIT_OSLOG_SIZE_MASK_def AGX_RTKIT_OSLOG_IOVA_MASK_def AGX_RTKIT_PAGE_SHIFT_def
  AGX_RTKIT_BUFFER_CRASHLOG_def AGX_RTKIT_BUFFER_SYSLOG_def AGX_RTKIT_BUFFER_IOREPORT_def
  AGX_RTKIT_BUFFER_OSLOG_def agx_rtkit_mgmt_msg_def agx_rtkit_fail_def agx_rtkit_send_def
  agx_rtkit_mgmt_send_def agx_rtkit_note_unknown_def agx_rtkit_buffer_bit_def agx_rtkit_init_def
  agx_rtkit_has_endpoint_def agx_rtkit_hello_done_def agx_rtkit_epmap_done_def agx_rtkit_iop_acked_def
  agx_rtkit_ap_acked_def agx_rtkit_crashed_def agx_rtkit_running_def agx_rtkit_error_def
  agx_rtkit_set_iop_power_def agx_rtkit_set_ap_power_def agx_rtkit_start_endpoint_def agx_rtkit_rx_hello_def
  agx_rtkit_rx_epmap_def agx_rtkit_rx_mgmt_def agx_rtkit_get_buffer_def agx_rtkit_rx_crashlog_def
  agx_rtkit_rx_syslog_def agx_rtkit_rx_ioreport_def agx_rtkit_rx_oslog_def agx_rtkit_rx_def

lemmas mailbox_run =
  AGX_MBOX_SEND_POLL_US_def AGX_MBOX_SEND_TIMEOUT_US_def readl_poll_timeout_def agx_mailbox_init_def
  agx_mailbox_outbox_empty_def agx_mailbox_set_outbox_enable_def mutex_lock_def mutex_unlock_def
  agx_mailbox_send_def agx_mailbox_recv_def

lemmas display_run =
  spin_lock_def spin_unlock_def agx_display_broker_init_def agx_display_notify_def

lemmas rtbuddy_run =
  AGX_CPU_CTRL_OFFSET_def AGX_CPU_CTRL_RUN_def AGX_RTBUDDY_STAGE_TIMEOUT_MS_def AGX_RTBUDDY_DRAIN_MAX_def
  AGX_RTBUDDY_SHMEM_MAX_def AGX_RTBUDDY_SHMEM_SLOTS_def EEXIST_def upd_rb_def agx_rtbuddy_shmem_slot_def
  free_shmem_slot_def agx_rtbuddy_free_shmem_def agx_rtbuddy_set_power_def agx_rtbuddy_stop_cpu_def
  agx_rtbuddy_ops_send_def agx_rtbuddy_ops_buffer_def [unfolded Let_def] agx_rtbuddy_ops_app_def agx_rtbuddy_ops_crashed_def
  agx_rtbuddy_rtkit_ops_def agx_rtbuddy_irq_def agx_rtbuddy_irq_thread_def service_irq_def agx_rtbuddy_wait_def
  agx_rtbuddy_probe_def agx_rtbuddy_started_def boot_fail_def boot_start_cpu_def boot_request_irq_def
  agx_rtbuddy_boot_def agx_rtbuddy_shutdown_def agx_rtbuddy_remove_def

lemmas fake_asc_run =
  fw_mgmt_def fw_mgmt_type_def fw_push_def fw_power_on_def fw_push_epmap_def fw_handle_startep_def
  fw_handle_iop_pwr_def fw_handle_mgmt_def fw_handle_def kBase_def kCpuCtrlOffset_def kCpuCtrlRun_def
  visible_locked_def flush_locked_def fw_loop_def fake_readl_def fake_readq_def fake_writel_def fake_writeq_def
  fake_dma_alloc_def fake_dma_free_def fake_request_irq_def fake_free_irq_def fake_run_def
  fake_firmware_init_def fake_asc_init_def

lemmas irq_drain_numeral = irq_drain.simps(2) [of "pred_numeral v" for v, folded numeral_eq_Suc]

lemma run_lists:
  "[Suc 0..<32] = 1 # [2..<32]" "[0..<4] = [0, 1, 2, 3]" "replicate 4 x = [x, x, x, x]" "replicate 8 x = [x, x, x, x, x, x, x, x]"
  by (simp_all add: upt_rec numeral_eq_Suc)

lemmas session_run = agx_prelude_run wire_run rtkit_run mailbox_run display_run rtbuddy_run fake_asc_run
  machine_def violations_def harness_rb_def irq_drain_numeral run_lists poll_until.simps wait_event.simps
  word_le_nat_alt word_less_nat_alt numeral_2_eq_2 [symmetric]

text \<open>The session up to the acknowledged coprocessor power state: hello, both endpoint maps and the start of
  the system endpoints.\<close>

definition harness_acked :: "fake_asc agx_rtbuddy" where
  "harness_acked = harness_rb\<lparr>rtk_endpoints := [0x11f, 3, 0, 0, 0, 0, 0, 0], rtk_iop_power := 0x20, rtk_version := 12,
     rtk_hello_done := 1, rtk_epmap_done := 1, rtk_iop_acked := 1, rtk_rx_count := 4,
     rtk_ctx := (rtk_ctx harness_rb)\<lparr>rb_irq_requested := True, rb_cpu_running := True, rb_drain_count := 4,
       rb_dev := fake_asc_init\<lparr>fa_a2i := [(0, 0x50000100000002), (0, 0x50000200000002), (0, 0x50000300000002),
           (0, 0x50000400000002), (0, 0x50000800000002)],
         fa_cpu_ctrl := 16, fa_send0 := 0x50000800000002, fa_outbox_enable := True, fa_fw_running := True,
         fa_run_set_count := 1, fa_now_us := 4, fa_irq_line := True,
         fa_fw := fake_firmware_init\<lparr>fw_from_ap := [(0, 0x60000000000220), (0, 0x200000000c000c),
             (0, 0x80000000000001), (0, 0x88000100000000)],
           fw_hello_replies := [0x200000000c000c], fw_epmap_replies := [0x80000000000001, 0x88000100000000],
           fw_pending_iop := True, fw_iop_state_requested := 0x220, fw_epmap_finished := True\<rparr>\<rparr>\<rparr>\<rparr>"

text \<open>The running driver: both power states on, four buffers handed out, both GPU endpoints started.\<close>

definition harness_up :: "fake_asc agx_rtbuddy" where
  "harness_up = harness_acked\<lparr>rtk_buffers := 15, rtk_ap_power := 0x20, rtk_ap_acked := 1, rtk_rx_count := 9,
     rtk_ctx := (rtk_ctx harness_acked)\<lparr>rb_firmware_up := True, rb_doorbell_up := True, rb_power := AGX_POWER_ON,
       rb_drain_count := 9,
       rb_shmem := [\<lparr>sh_cpu = 0x1000, sh_iova = 0x8000000, sh_size = 0x2000\<rparr>,
         \<lparr>sh_cpu = 0x3000, sh_iova = 0x8100000, sh_size = 0x2000\<rparr>,
         \<lparr>sh_cpu = 0x5000, sh_iova = 0x8200000, sh_size = 0x2000\<rparr>,
         \<lparr>sh_cpu = 0x7000, sh_iova = 0x8300000, sh_size = 0x2000\<rparr>],
       rb_dev := (rb_dev (rtk_ctx harness_acked))\<lparr>
         fa_a2i := [(1, 0x10200008000000), (2, 0x10200008100000), (4, 0x10200008200000), (8, 0x102000000008300),
           (0, 0x50002000000002), (0, 0x50002100000002)],
         fa_send0 := 0x50002100000002, fa_now_us := 10, fa_next_iova := 0x8400000, fa_next_cpu := 0x9000,
         fa_dma := [(0x2000, 0x7000, 0x8300000), (0x2000, 0x5000, 0x8200000), (0x2000, 0x3000, 0x8100000),
           (0x2000, 0x1000, 0x8000000)],
         fa_fw := (fa_fw (rb_dev (rtk_ctx harness_acked)))\<lparr>fw_started := [1, 2, 3, 4, 8],
           fw_from_ap := [(0, 0x60000000000220), (0, 0x200000000c000c), (0, 0x80000000000001), (0, 0x88000100000000),
             (0, 0x50000100000002), (0, 0x50000200000002), (0, 0x50000300000002), (0, 0x50000400000002),
             (0, 0x50000800000002), (0, 0xb0000000000020)]\<rparr>\<rparr>\<rparr>\<rparr>"

lemma harness_to_acked: "agx_rtbuddy_boot harness_rb = boot_ap_power harness_acked"
  by (simp add: boot_stages boot_handshake_def harness_acked_def session_run)

lemma harness_to_up: "boot_ap_power harness_acked = Some (0, harness_up)"
  by (simp add: boot_ap_power_def boot_endpoints_def harness_up_def harness_acked_def session_run)

end
