(* ===== verification/Monitor.thy ===== *)
theory Monitor
  imports Debugfs Harness
begin

text \<open>
  The terminal monitor \<^verbatim>\<open>tools/monitor/agxmonitor.cpp\<close> on top of the debugfs files of the driver: what it prints in a pass of its
  loop, and that a pass over the files of a driver tells exactly the state they show. The files are a function from paths to
  contents; \<open>debugfs_serves\<close> says what the kernel's debugfs does with the files that \<open>agx_debugfs_init\<close> creates.
\<close>

section \<open>The program\<close>

definition unavailable :: string where "unavailable = ''unavailable''"

text \<open>\<^verbatim>\<open>std::getline\<close> until it fails: the pieces between newlines, without an empty one at the end.\<close>

function getlines :: "string \<Rightarrow> string list" where
  "getlines s = (if s = [] then []
     else takeWhile (\<lambda>c. c \<noteq> CHR 0x0A) s # getlines (drop 1 (dropWhile (\<lambda>c. c \<noteq> CHR 0x0A) s)))"
  by pat_completeness auto
termination
proof (relation "measure length")
  fix s :: string
  assume "s \<noteq> []"
  then show "(drop 1 (dropWhile (\<lambda>c. c \<noteq> CHR 0x0A) s), s) \<in> measure length"
    using length_dropWhile_le [of "\<lambda>c. c \<noteq> CHR 0x0A" s] by (cases s) (auto simp: le_imp_less_Suc)
qed simp

declare getlines.simps [simp del]

definition readfile :: "(string \<Rightarrow> string option) \<Rightarrow> string \<Rightarrow> string" where
  "readfile files path = (case files path of
     None \<Rightarrow> unavailable
   | Some s \<Rightarrow> takeWhile (\<lambda>c. c \<noteq> CHR 0x0A) s)"

text \<open>A stream on a file that cannot be opened gives no line.\<close>

definition copy_lines :: "(string \<Rightarrow> string option) \<Rightarrow> string \<Rightarrow> string" where
  "copy_lines files path = (case files path of
     None \<Rightarrow> []
   | Some s \<Rightarrow> concat (map (\<lambda>line. line @ nl) (getlines s)))"

definition monitor_root :: string where "monitor_root = ''/sys/kernel/debug/agxrtbuddy''"

definition clear_screen :: string where "clear_screen = CHR 0x1B # ''[2J'' @ CHR 0x1B # ''[H''"

text \<open>One pass of the endless loop, and the output of the first passes over files that change in between.\<close>

definition monitor_frame :: "(string \<Rightarrow> string option) \<Rightarrow> string" where
  "monitor_frame files =
     clear_screen @ ''agx rtbuddy live monitor'' @ nl @ nl @
     ''power state    '' @ readfile files (monitor_root @ ''/power'') @ nl @
     ''drain count    '' @ readfile files (monitor_root @ ''/draincount'') @ nl @ nl @
     copy_lines files (monitor_root @ ''/endpoints'') @ nl @
     copy_lines files (monitor_root @ ''/rtkit'') @
     nl @ ''refreshing every second, press control c to quit'' @ nl"

definition agxmonitor :: "(nat \<Rightarrow> string \<Rightarrow> string option) \<Rightarrow> nat \<Rightarrow> string" where
  "agxmonitor files passes = concat (map (\<lambda>i. monitor_frame (files i)) [0..<passes])"

section \<open>Files of a driver\<close>

definition debugfs_serves :: "(string \<Rightarrow> string option) \<Rightarrow> 'd agx_rtbuddy \<Rightarrow> bool" where
  "debugfs_serves files rb \<longleftrightarrow>
     files (monitor_root @ ''/power'') = Some (agx_debugfs_power_show rb) \<and>
     files (monitor_root @ ''/endpoints'') = Some (agx_debugfs_endpoints_show rb) \<and>
     files (monitor_root @ ''/rtkit'') = Some (agx_debugfs_rtkit_show rb) \<and>
     files (monitor_root @ ''/draincount'') = Some (fmt_u (unat (rb_drain_count (rtk_ctx rb))) @ nl)"

lemma takeWhile_line: "CHR 0x0A \<notin> set a \<Longrightarrow> takeWhile (\<lambda>c. c \<noteq> CHR 0x0A) (a @ nl @ r) = a"
  by (induction a) (auto simp: nl_def)

lemma getlines_line: "CHR 0x0A \<notin> set a \<Longrightarrow> getlines (a @ nl @ r) = a # getlines r"
proof -
  assume a: "CHR 0x0A \<notin> set a"
  then have "drop 1 (dropWhile (\<lambda>c. c \<noteq> CHR 0x0A) (a @ nl @ r)) = r" by (induction a) (auto simp: nl_def)
  with a show ?thesis by (subst getlines.simps) (simp add: takeWhile_line, simp add: nl_def)
qed

lemma getlines_Nil [simp]: "getlines [] = []"
  by (simp add: getlines.simps)

text \<open>Copying a text line by line changes nothing if its last line is complete.\<close>

lemma copy_complete: "s = [] \<or> last s = CHR 0x0A \<Longrightarrow> concat (map (\<lambda>line. line @ nl) (getlines s)) = s"
proof (induction s rule: getlines.induct)
  case (1 s)
  show ?case
  proof (cases "s = []")
    case False
    let ?a = "takeWhile (\<lambda>c. c \<noteq> CHR 0x0A) s" and ?d = "dropWhile (\<lambda>c. c \<noteq> CHR 0x0A) s"
    have "CHR 0x0A \<in> set s" using 1 False last_in_set by metis
    then have d: "?d \<noteq> []" "hd ?d = CHR 0x0A" using hd_dropWhile [of "\<lambda>c. c \<noteq> CHR 0x0A" s] by (auto simp: dropWhile_eq_Nil_conv)
    then have "?d = nl @ drop 1 ?d" by (cases ?d) (simp_all add: nl_def)
    then have s: "s = ?a @ nl @ drop 1 ?d" by (metis takeWhile_dropWhile_id)
    have "drop 1 ?d = [] \<or> last (drop 1 ?d) = CHR 0x0A"
      using 1(2) False s by (metis append_is_Nil_conv last_appendR)
    then have "concat (map (\<lambda>line. line @ nl) (getlines (drop 1 ?d))) = drop 1 ?d" using 1 False by blast
    moreover have "getlines s = ?a # getlines (drop 1 ?d)" using False by (subst getlines.simps) simp
    ultimately show ?thesis using s by simp
  qed simp
qed

lemma show_complete:
  "last (agx_debugfs_endpoints_show rb) = CHR 0x0A" "last (agx_debugfs_rtkit_show rb) = CHR 0x0A"
  by (simp_all add: agx_debugfs_endpoints_show_def agx_debugfs_rtkit_show_def nl_def)

lemma power_name_plain: "CHR 0x0A \<notin> set (agx_power_state_name p)"
  by (cases p) simp_all

lemma served_frame:
  assumes "debugfs_serves files rb"
  shows "monitor_frame files =
     clear_screen @ ''agx rtbuddy live monitor'' @ nl @ nl @
     ''power state    '' @ agx_power_state_name (rb_power (rtk_ctx rb)) @ nl @
     ''drain count    '' @ fmt_u (unat (rb_drain_count (rtk_ctx rb))) @ nl @ nl @
     agx_debugfs_endpoints_show rb @ nl @ agx_debugfs_rtkit_show rb @
     nl @ ''refreshing every second, press control c to quit'' @ nl"
  using assms takeWhile_line [OF power_name_plain, of "rb_power (rtk_ctx rb)" "[]"]
    takeWhile_line [of "fmt_u (unat (rb_drain_count (rtk_ctx rb)))" "[]"]
  by (simp add: monitor_frame_def debugfs_serves_def readfile_def copy_lines_def copy_complete show_complete
      agx_debugfs_power_show_def)

lemma missing_frame:
  "monitor_frame (\<lambda>_. None) =
     clear_screen @ ''agx rtbuddy live monitor'' @ nl @ nl @ ''power state    '' @ unavailable @ nl @
     ''drain count    '' @ unavailable @ nl @ nl @ nl @ nl @ ''refreshing every second, press control c to quit'' @ nl"
  by (simp add: monitor_frame_def readfile_def copy_lines_def)

lemma unavailable_plain: "CHR 0x0A \<notin> set unavailable"
  by (simp add: unavailable_def)

lemma power_name_not_unavailable: "agx_power_state_name p \<noteq> unavailable"
  by (cases p) (simp_all add: unavailable_def)

section \<open>Properties\<close>

text \<open>C37. The monitor over the debugfs files. A pass over the files of a driver prints the name of its power state, its drain count and, unchanged, the
  endpoints and rtkit files; two drivers give the same screen exactly when all sixteen values shown agree, and no driver gives
  the screen of a machine without the files.\<close>

theorem monitor_shows_state:
  assumes "debugfs_serves files rb" "debugfs_serves files' rb'"
  shows "(\<exists>before after. monitor_frame files = before @ agx_debugfs_endpoints_show rb @ nl @ agx_debugfs_rtkit_show rb @ after) \<and>
    (monitor_frame files = monitor_frame files' \<longleftrightarrow>
       rb_power (rtk_ctx rb) = rb_power (rtk_ctx rb') \<and> rb_drain_count (rtk_ctx rb) = rb_drain_count (rtk_ctx rb') \<and>
       rb_firmware_up (rtk_ctx rb) = rb_firmware_up (rtk_ctx rb') \<and> rb_doorbell_up (rtk_ctx rb) = rb_doorbell_up (rtk_ctx rb') \<and>
       rb_fw_events (rtk_ctx rb) = rb_fw_events (rtk_ctx rb') \<and> rb_app_unknown (rtk_ctx rb) = rb_app_unknown (rtk_ctx rb') \<and>
       rtk_version rb = rtk_version rb' \<and> rtk_iop_power rb = rtk_iop_power rb' \<and> rtk_ap_power rb = rtk_ap_power rb' \<and>
       agx_rtkit_running rb = agx_rtkit_running rb' \<and> agx_rtkit_crashed rb = agx_rtkit_crashed rb' \<and>
       agx_rtkit_error rb = agx_rtkit_error rb' \<and> rtk_rx_count rb = rtk_rx_count rb' \<and>
       rtk_stray_count rb = rtk_stray_count rb' \<and> rtk_unknown_count rb = rtk_unknown_count rb' \<and>
       rtk_last_unknown rb = rtk_last_unknown rb') \<and>
    monitor_frame files \<noteq> monitor_frame (\<lambda>_. None)"
proof (intro conjI)
  note f = served_frame [OF assms(1)] served_frame [OF assms(2)]
  show "\<exists>before after. monitor_frame files = before @ agx_debugfs_endpoints_show rb @ nl @ agx_debugfs_rtkit_show rb @ after"
    unfolding f(1) by (metis append.assoc)
  have "monitor_frame files = monitor_frame files' \<longleftrightarrow>
      rb_power (rtk_ctx rb) = rb_power (rtk_ctx rb') \<and> rb_drain_count (rtk_ctx rb) = rb_drain_count (rtk_ctx rb') \<and>
      agx_debugfs_endpoints_show rb = agx_debugfs_endpoints_show rb' \<and> agx_debugfs_rtkit_show rb = agx_debugfs_rtkit_show rb'"
    unfolding f by (simp add: agx_debugfs_endpoints_show_def agx_debugfs_rtkit_show_def line_split power_name_plain
        fmt_inject power_name_inject word_unat_eq_iff [symmetric])
  then show "monitor_frame files = monitor_frame files' \<longleftrightarrow>
       rb_power (rtk_ctx rb) = rb_power (rtk_ctx rb') \<and> rb_drain_count (rtk_ctx rb) = rb_drain_count (rtk_ctx rb') \<and>
       rb_firmware_up (rtk_ctx rb) = rb_firmware_up (rtk_ctx rb') \<and> rb_doorbell_up (rtk_ctx rb) = rb_doorbell_up (rtk_ctx rb') \<and>
       rb_fw_events (rtk_ctx rb) = rb_fw_events (rtk_ctx rb') \<and> rb_app_unknown (rtk_ctx rb) = rb_app_unknown (rtk_ctx rb') \<and>
       rtk_version rb = rtk_version rb' \<and> rtk_iop_power rb = rtk_iop_power rb' \<and> rtk_ap_power rb = rtk_ap_power rb' \<and>
       agx_rtkit_running rb = agx_rtkit_running rb' \<and> agx_rtkit_crashed rb = agx_rtkit_crashed rb' \<and>
       agx_rtkit_error rb = agx_rtkit_error rb' \<and> rtk_rx_count rb = rtk_rx_count rb' \<and>
       rtk_stray_count rb = rtk_stray_count rb' \<and> rtk_unknown_count rb = rtk_unknown_count rb' \<and>
       rtk_last_unknown rb = rtk_last_unknown rb'"
    using debugfs_shows_state [of rb rb'] by simp
  show "monitor_frame files \<noteq> monitor_frame (\<lambda>_. None)"
    unfolding f(1) missing_frame
    by (simp add: line_split power_name_plain unavailable_plain power_name_not_unavailable)
qed

text \<open>The files of a driver, for the witness: the driver of the tests before and after its boot.\<close>

definition served_files :: "'d agx_rtbuddy \<Rightarrow> string \<Rightarrow> string option" where
  "served_files rb = [monitor_root @ ''/power'' \<mapsto> agx_debugfs_power_show rb,
     monitor_root @ ''/endpoints'' \<mapsto> agx_debugfs_endpoints_show rb,
     monitor_root @ ''/rtkit'' \<mapsto> agx_debugfs_rtkit_show rb,
     monitor_root @ ''/draincount'' \<mapsto> fmt_u (unat (rb_drain_count (rtk_ctx rb))) @ nl]"

lemma served_files_serve: "debugfs_serves (served_files rb) rb"
  by (simp add: debugfs_serves_def served_files_def)

theorem monitor_shows_state_witness:
  "debugfs_serves (served_files harness_rb) harness_rb \<and> debugfs_serves (served_files harness_up) harness_up \<and>
   monitor_frame (served_files harness_rb) \<noteq> monitor_frame (served_files harness_up)"
proof -
  have "rb_power (rtk_ctx harness_rb) \<noteq> rb_power (rtk_ctx harness_up)"
    by (simp add: harness_up_def harness_rb_def agx_rtbuddy_probe_def agx_rtkit_init_def)
  then show ?thesis
    using monitor_shows_state [OF served_files_serve served_files_serve, of harness_rb harness_up] served_files_serve by blast
qed

end
