(* ===== verification/Rtbuddy_Theorems.thy ===== *)
theory Rtbuddy_Theorems
  imports Harness
begin

text \<open>
  The properties of the mailbox and of the driver core. What holds for any kernel and firmware is stated under the
  contracts \<open>kernel_clock\<close>, \<open>mailbox_device\<close> and \<open>dma_device\<close> of the kernel parameter; the witnesses use
  the machine of the tests, on which all three are interpreted.
\<close>

section \<open>The states of a driver\<close>

text \<open>Every way a driver can be used: probe, then boots, interrupts, waits of the caller, GPU messages and
  removals in any order.\<close>

inductive driver_reach ::
  "'d kernel_ops \<Rightarrow> 'd \<Rightarrow> nat \<Rightarrow> int \<Rightarrow> 'd agx_display_broker option \<Rightarrow> 'd agx_rtbuddy \<Rightarrow> bool"
  for k d base irq display where
  probe: "driver_reach k d base irq display (snd (agx_rtbuddy_probe k d base irq display))"
| boot: "driver_reach k d base irq display rb \<Longrightarrow> agx_rtbuddy_boot rb = Some (ret, rb') \<Longrightarrow>
    driver_reach k d base irq display rb'"
| interrupt: "driver_reach k d base irq display rb \<Longrightarrow> driver_reach k d base irq display (service_irq rb)"
| idle: "driver_reach k d base irq display rb \<Longrightarrow>
    driver_reach k d base irq display (upd_rb (\<lambda>c. c\<lparr>rb_dev := k_idle (rb_k c) (rb_dev c)\<rparr>) rb)"
| gpu: "driver_reach k d base irq display rb \<Longrightarrow> agx_rtbuddy_send_gpu rb ep m = Some (ret, rb') \<Longrightarrow>
    driver_reach k d base irq display rb'"
| remove: "driver_reach k d base irq display rb \<Longrightarrow> agx_rtbuddy_remove rb = Some rb' \<Longrightarrow>
    driver_reach k d base irq display rb'"

lemma probe_good:
  assumes "\<And>b. display = Some b \<Longrightarrow> broker_ok b"
  shows "rb_good k (snd (agx_rtbuddy_probe k d base irq display))"
  using assms rtk_init_wf
  by (auto simp: agx_rtbuddy_probe_def rb_good_def rb_ctx_ok_def agx_rtkit_init_def rtk_wf_def agx_mailbox_init_def sizes_ok_def)

context kernel_clock
begin

lemma gpu_step:
  assumes g: "rb_good k rb"
  shows "\<exists>ret rb'. agx_rtbuddy_send_gpu rb ep m = Some (ret, rb') \<and> rb_step k rb rb'"
proof (cases "agx_rtbuddy_started rb")
  case True
  let ?c = "rtk_ctx rb"
  have c: "rb_k ?c = k" "\<not> mb_lock (rb_mbox ?c)" using g by (simp_all add: rb_good_def rb_ctx_ok_def)
  obtain ret d' where s: "agx_mailbox_send k (rb_mbox ?c) ep m (rb_dev ?c) = Some (ret, rb_mbox ?c, d')"
    and t: "k_now_us k (rb_dev ?c) \<le> k_now_us k d'" using send_ends [OF c(2)] by blast
  have "rb_step k rb (upd_rb (\<lambda>c. c\<lparr>rb_dev := d'\<rparr>) rb)" using g t by (rule step_dev)
  moreover have "agx_rtbuddy_send_gpu rb ep m = Some (ret, upd_rb (\<lambda>c. c\<lparr>rb_dev := d'\<rparr>) rb)"
    using True s c by (simp add: agx_rtbuddy_send_gpu_def upd_rb_def)
  ultimately show ?thesis by blast
qed (use g in \<open>simp add: agx_rtbuddy_send_gpu_def rb_step_refl\<close>)

lemma idle_step: "rb_good k rb \<Longrightarrow> rb_step k rb (upd_rb (\<lambda>c. c\<lparr>rb_dev := k_idle (rb_k c) (rb_dev c)\<rparr>) rb)"
  using step_dev [of rb "k_idle k (rb_dev (rtk_ctx rb))"] idle_time [of "rb_dev (rtk_ctx rb)"]
  by (simp add: upd_rb_def rb_good_def rb_ctx_ok_def)

lemma reach_good:
  assumes "driver_reach k d base irq display rb" "\<forall>b. display = Some b \<longrightarrow> broker_ok b"
  shows "rb_good k rb"
  using assms(1)
proof induction
  case probe
  then show ?case using assms(2) by (intro probe_good) simp
next
  case (boot rb ret rb')
  then show ?case using boot_outcome [of rb] by (simp add: boot_post_def)
next
  case (interrupt rb)
  then show ?case using step_service [of rb] by (simp add: rb_step_def)
next
  case (idle rb)
  then show ?case using idle_step [of rb] by (simp add: rb_step_def)
next
  case (gpu rb ep m ret rb')
  then show ?case using gpu_step [of rb ep m] by (auto simp: rb_step_def)
next
  case (remove rb rb')
  then show ?case using remove_outcome [of rb] by (auto simp: remove_post_def)
qed

end

section \<open>Ownership along a run\<close>

context dma_device
begin

lemma owns_gpu: "owns L rb \<Longrightarrow> pred_option (\<lambda>x. owns L (snd x)) (agx_rtbuddy_send_gpu rb ep m)"
proof -
  assume o: "owns L rb"
  have "ok L (snd (agx_rtbuddy_ops_send (rtk_ctx rb) ep m))" using owns_ctx(1) [OF o] by (rule ok_send)
  then show ?thesis
    using o by (auto simp: agx_rtbuddy_send_gpu_def agx_rtbuddy_ops_send_def upd_rb_def own.keeps_def pred_option_bind
        option.pred_set split: option.splits)
qed

lemma owns_machine: "owns L rb \<Longrightarrow> owns L (upd_rb (\<lambda>c. c\<lparr>rb_dev := k_idle (rb_k c) (rb_dev c)\<rparr>) rb)"
  using owns_dev [of L rb "k_idle k (rb_dev (rtk_ctx rb))"] idle_live [of "rb_dev (rtk_ctx rb)"]
  by (simp add: owns_ctx(2) upd_rb_def own.keeps_def dma_ok_def)

lemma reach_owns:
  assumes "driver_reach k d base irq display rb" "dinv d"
    "\<forall>b. display = Some b \<longrightarrow> broker_ok b \<and> listeners_keep dinv live b"
  shows "owns (live d) rb"
  using assms(1)
proof induction
  case probe
  show ?case using assms(2,3) unfolding own.keeps_def
    by (simp add: agx_rtbuddy_probe_def agx_rtkit_init_def dma_ok_def rb_ctx_ok_def agx_mailbox_init_def
        slot_bufs_empty sizes_ok_def)
next
  case (boot rb ret rb')
  then show ?case using owns_boot [of "live d" rb] by simp
next
  case (gpu rb ep m ret rb')
  then show ?case using owns_gpu [of "live d" rb ep m] by simp
next
  case (remove rb rb')
  then show ?case using owns_remove [of "live d" rb] by simp
qed (simp_all add: owns_service owns_machine)

lemma owns_live: "owns L rb \<Longrightarrow> live (rb_dev (rtk_ctx rb)) = L + slot_bufs (rb_shmem (rtk_ctx rb))"
  by (simp add: own.keeps_def dma_ok_def)

end

section \<open>Draining the outbox\<close>

definition dev_ok :: "'d kernel_ops \<Rightarrow> nat \<Rightarrow> ('d \<Rightarrow> bool) \<Rightarrow> 'd rtbuddy \<Rightarrow> bool" where
  "dev_ok k base dinv c \<longleftrightarrow> rb_ctx_ok k c \<and> rb_base c = base \<and> dinv (rb_dev c)"

sublocale mailbox_device \<subseteq> dev: rtkit_transport "dev_ok k base dinv" agx_rtbuddy_rtkit_ops
proof
  fix c :: "'a rtbuddy" and ep m
  assume c: "dev_ok k base dinv c"
  then obtain ret d where "agx_mailbox_send k (rb_mbox c) ep m (rb_dev c) = Some (ret, rb_mbox c, d)" "dinv d"
    using send_delivers [of "rb_mbox c" "rb_dev c" ep m] by (auto simp: dev_ok_def rb_ctx_ok_def)
  with c show "dev_ok k base dinv (snd (op_send agx_rtbuddy_rtkit_ops c ep m))"
    by (auto simp: agx_rtbuddy_rtkit_ops_def agx_rtbuddy_ops_send_def dev_ok_def rb_ctx_ok_def)
next
  fix c :: "'a rtbuddy" and f ep sz iova
  assume c: "dev_ok k base dinv c" and "op_buffer (agx_rtbuddy_rtkit_ops :: 'a rtbuddy agx_rtkit_ops) = Some f"
  then have f: "f = agx_rtbuddy_ops_buffer" by (simp add: agx_rtbuddy_rtkit_ops_def)
  have "dinv (snd (k_dma_alloc k (rb_dev c) sz))" using c dma_keeps by (simp add: dev_ok_def)
  with c buffer_frame [of c ep sz iova] buffer_ctx_ok [of k c ep sz iova] show "dev_ok k base dinv (snd (f c ep sz iova))"
    by (auto simp: f dev_ok_def rb_frame_def rb_ctx_ok_def)
qed (auto simp: agx_rtbuddy_rtkit_ops_def agx_rtbuddy_ops_app_def agx_rtbuddy_ops_crashed_def dev_ok_def rb_ctx_ok_def)

context mailbox_device
begin

lemma drain_outcome:
  "dev.keeps rb \<Longrightarrow> irq_drain n h rb = (h', rb') \<Longrightarrow>
     dev.keeps rb' \<and> h \<le> h' \<and> h' \<le> h + n \<and> (h' < h + n \<longrightarrow> outbox (rb_dev (rtk_ctx rb')) = [])"
proof (induction n arbitrary: h rb)
  case (Suc n)
  let ?c = "rtk_ctx rb"
  have c: "rb_k ?c = k" "mb_base (rb_mbox ?c) = base" "dinv (rb_dev ?c)"
    using Suc.prems(1) unfolding dev.keeps_def by (simp_all add: dev_ok_def rb_ctx_ok_def)
  have upd: "dev.keeps (upd_rb (\<lambda>c. c\<lparr>rb_dev := d\<rparr>) rb)" if "dinv d" for d
    using Suc.prems(1) that unfolding dev.keeps_def by (simp add: dev_ok_def rb_ctx_ok_def upd_rb_def)
  obtain d' where d': "dinv d'" and r: "case outbox (rb_dev ?c) of
        [] \<Rightarrow> agx_mailbox_recv k (rb_mbox ?c) (rb_dev ?c) = (AGX_ENODATA, None, d') \<and> outbox d' = []
      | (m0, m1) # rest \<Rightarrow> agx_mailbox_recv k (rb_mbox ?c) (rb_dev ?c) = (0, Some (agx_mbox_unpack m0 m1), d') \<and> outbox d' = rest"
    using recv_fifo [OF c(2,3)] by blast
  show ?case
  proof (cases "outbox (rb_dev ?c)")
    case Nil
    with r c Suc.prems upd [OF d'] show ?thesis by (auto simp: AGX_ENODATA_def upd_rb_def)
  next
    case (Cons m rest)
    obtain m0 m1 where m: "m = (m0, m1)" by (rule prod.exhaust)
    let ?rb = "agx_rtkit_rx (upd_rb (\<lambda>c. c\<lparr>rb_dev := d'\<rparr>) rb) (msg_endpoint (agx_mbox_unpack m0 m1))
      (msg_data (agx_mbox_unpack m0 m1))"
    have "irq_drain n (h + 1) ?rb = (h', rb')" using Suc.prems(2) r c Cons m by simp
    with Suc.IH [OF dev.keeps_rx [OF upd [OF d']]] show ?thesis by fastforce
  qed
qed simp

lemma drain_good:
  assumes "rb_good k rb" "rb_base (rtk_ctx rb) = base" "dinv (rb_dev (rtk_ctx rb))" "irq_drain n h rb = (h', rb')"
  shows "h \<le> h' \<and> h' \<le> h + n \<and> (h' < h + n \<longrightarrow> outbox (rb_dev (rtk_ctx rb')) = [])"
proof -
  have "dev.keeps rb" using assms(1-3) unfolding dev.keeps_def by (simp add: rb_good_def dev_ok_def)
  from drain_outcome [OF this assms(4)] show ?thesis by blast
qed

end

section \<open>Properties of the mailbox\<close>

text \<open>C15. Sending through the mailbox. On a device whose inbox behaves as a FIFO a send always returns, with the
  mutex free again. Either it reports success and exactly the given item, with its endpoint,
  was appended to what the coprocessor accepted, or it times out and nothing was sent.\<close>

theorem mailbox_send_delivers:
  assumes "mailbox_device k base dinv sent outbox room" "dinv d" "\<not> mb_lock mbox" "mb_base mbox = base"
  shows "\<exists>ret d'. agx_mailbox_send k mbox ep data d = Some (ret, mbox, d') \<and> dinv d' \<and>
     (ret = 0 \<and> sent d' = sent d @ [(ep AND 0xff, data)] \<or> ret = AGX_ETIMEDOUT \<and> sent d' = sent d)"
  using mailbox_device.send_delivers [OF assms(1,3,4,2)] .

theorem mailbox_send_delivers_witness:
  "\<exists>ret mbox d'. agx_mailbox_send fake_kernel (agx_mailbox_init kBase) 0x121 42 fake_asc_init = Some (ret, mbox, d') \<and>
     (ret = 0 \<and> fake_sent d' = [(0x21, 42)] \<or> ret = AGX_ETIMEDOUT \<and> fake_sent d' = [])"
  using mailbox_send_delivers [OF fake.mailbox_device_axioms TrueI, where d = fake_asc_init and
      mbox = "agx_mailbox_init kBase" and ep = "0x121" and data = 42]
  by (auto simp: agx_mailbox_init_def fake_sent_def fake_asc_init_def fake_firmware_init_def)

text \<open>C36. Receiving from the mailbox. The outbox is read in order: an empty outbox is reported as no data and nothing is
  taken from it, otherwise the first item is returned, unpacked from its two words, and
  removed. Receiving never sends anything.\<close>

theorem mailbox_recv_in_order:
  assumes "mailbox_device k base dinv sent outbox room" "dinv d" "mb_base mbox = base"
  shows "\<exists>d'. dinv d' \<and> sent d' = sent d \<and>
     (case outbox d of
        [] \<Rightarrow> agx_mailbox_recv k mbox d = (AGX_ENODATA, None, d') \<and> outbox d' = []
      | (m0, m1) # rest \<Rightarrow> agx_mailbox_recv k mbox d = (0, Some (agx_mbox_unpack m0 m1), d') \<and> outbox d' = rest)"
  using mailbox_device.recv_fifo [OF assms(1,3,2)] .

theorem mailbox_recv_in_order_witness:
  "\<exists>d'. agx_mailbox_recv fake_kernel (agx_mailbox_init kBase)
      (fake_asc_init\<lparr>fa_outbox_enable := True, fa_i2a := [(1, 42), (2, 43)]\<rparr>) =
      (0, Some (agx_mbox_unpack 42 1), d') \<and> fake_outbox d' = [(43, 2)]"
proof -
  let ?d = "fake_asc_init\<lparr>fa_outbox_enable := True, fa_i2a := [(1, 42), (2, 43)]\<rparr>"
  have "fake_outbox ?d = [(42, 1), (43, 2)]" by (simp add: fake_outbox_def)
  with mailbox_recv_in_order [OF fake.mailbox_device_axioms TrueI, where d = ?d and mbox = "agx_mailbox_init kBase"]
  show ?thesis by (auto simp: agx_mailbox_init_def)
qed

section \<open>Properties of the driver\<close>

lemma harness_reach: "driver_reach fake_kernel fake_asc_init kBase 994 (Some agx_display_broker_init) harness_rb"
  unfolding harness_rb_def by (rule driver_reach.probe)

lemma harness_boot: "agx_rtbuddy_boot harness_rb = Some (0, harness_up)"
  by (simp add: harness_to_acked harness_to_up)

lemma harness_up_reach: "driver_reach fake_kernel fake_asc_init kBase 994 (Some agx_display_broker_init) harness_up"
  using harness_reach harness_boot by (rule driver_reach.boot)

lemma harness_display: "\<forall>b. Some agx_display_broker_init = Some b \<longrightarrow> broker_ok b"
  by (simp add: broker_init_ok)

text \<open>C12. Invariant of the driver. Whatever the firmware sends and in whatever order boots, interrupts, GPU messages and
  removals follow the probe, the driver's state stays well formed: the protocol state is, the mailbox
  mutex is free, no callback hangs, and each shared buffer it holds is at most 4 MiB.\<close>

theorem driver_invariant:
  assumes "kernel_clock k" "\<forall>b. display = Some b \<longrightarrow> broker_ok b" "driver_reach k d base irq display rb"
  shows "rtk_wf rb \<and> \<not> rb_stuck (rtk_ctx rb) \<and> \<not> mb_lock (rb_mbox (rtk_ctx rb)) \<and>
     length (rb_shmem (rtk_ctx rb)) = 4 \<and> (\<forall>s \<in> set (rb_shmem (rtk_ctx rb)). sh_size s \<le> 0x400000)"
  using kernel_clock.reach_good [OF assms(1,3,2)]
  by (simp add: rb_good_def rb_ctx_ok_def sizes_ok_def AGX_RTBUDDY_SHMEM_SLOTS_def AGX_RTBUDDY_SHMEM_MAX_def)

theorem driver_invariant_witness: "rtk_wf harness_up \<and> \<not> rb_stuck (rtk_ctx harness_up)"
  using driver_invariant [OF fake.kernel_clock_axioms harness_display harness_up_reach] by simp

text \<open>C5. Boot. On any machine whose clock advances the boot sequence returns, whatever the firmware does. On
  success the protocol runs, both GPU endpoints were announced and started, the interrupt is
  requested and the power state is on. On failure the coprocessor is stopped again, no
  endpoint is marked as up and the power state is as before.\<close>

theorem boot_returns:
  assumes "kernel_clock k" "\<forall>b. display = Some b \<longrightarrow> broker_ok b" "driver_reach k d base irq display rb"
  shows "\<exists>ret rb'. agx_rtbuddy_boot rb = Some (ret, rb') \<and>
     (if ret = 0
      then agx_rtbuddy_started rb' \<and> rb_power (rtk_ctx rb') = AGX_POWER_ON \<and> rb_cpu_running (rtk_ctx rb') \<and>
           rb_irq_requested (rtk_ctx rb') \<and> agx_rtkit_has_endpoint rb' AGX_RTKIT_EP_FIRMWARE \<and>
           agx_rtkit_has_endpoint rb' AGX_RTKIT_EP_DOORBELL
      else \<not> rb_cpu_running (rtk_ctx rb') \<and> \<not> rb_firmware_up (rtk_ctx rb') \<and> \<not> rb_doorbell_up (rtk_ctx rb') \<and>
           rb_power (rtk_ctx rb') = rb_power (rtk_ctx rb))"
proof -
  have "boots k rb (agx_rtbuddy_boot rb)"
    using kernel_clock.boot_outcome [OF assms(1) kernel_clock.reach_good [OF assms(1,3,2)]] .
  then show ?thesis by (cases "agx_rtbuddy_boot rb") (auto simp: boots_def boot_post_def split: if_splits)
qed

theorem boot_returns_witness:
  "agx_rtbuddy_boot harness_rb = Some (0, harness_up) \<and> agx_rtbuddy_started harness_up \<and>
   agx_rtkit_has_endpoint harness_up AGX_RTKIT_EP_DOORBELL"
  using boot_returns [OF fake.kernel_clock_axioms harness_display harness_reach] harness_boot by auto



text \<open>C2. No leak of DMA memory. In every state of a driver the buffers allocated on its behalf are exactly those in its
  four slots, each with the size, pointer and address it was allocated with; after removal the
  allocator holds what it held before the probe. So each buffer is freed once, and with the right
  arguments, also when boot fails or the firmware asks for buffers more than once.\<close>

theorem driver_owns_buffers:
  assumes "dma_device k dinv live" "dinv d" "\<forall>b. display = Some b \<longrightarrow> broker_ok b \<and> listeners_keep dinv live b"
    and reach: "driver_reach k d base irq display rb"
  shows "live (rb_dev (rtk_ctx rb)) = live d + slot_bufs (rb_shmem (rtk_ctx rb)) \<and>
     (\<exists>rb'. agx_rtbuddy_remove rb = Some rb' \<and> live (rb_dev (rtk_ctx rb')) = live d)"
proof -
  have clock: "kernel_clock k" using assms(1) by (simp add: dma_device_def)
  have display: "\<forall>b. display = Some b \<longrightarrow> broker_ok b" using assms(3) by blast
  note acc = dma_device.owns_live [OF assms(1) dma_device.reach_owns [OF assms(1) _ assms(2,3)]]
  obtain rb' where r: "agx_rtbuddy_remove rb = Some rb'" "\<forall>s \<in> set (rb_shmem (rtk_ctx rb')). sh_cpu s = 0"
    using kernel_clock.remove_outcome [OF clock kernel_clock.reach_good [OF clock reach display]]
    by (auto simp: remove_post_def)
  have "driver_reach k d base irq display rb'" using reach r(1) by (rule driver_reach.remove)
  from acc [OF this] r have "live (rb_dev (rtk_ctx rb')) = live d" by (simp add: slot_bufs_empty)
  with acc [OF reach] r(1) show ?thesis by blast
qed

theorem driver_owns_buffers_witness:
  "fake_live (machine harness_up) = slot_bufs (rb_shmem (rtk_ctx harness_up)) \<and>
   (\<exists>rb'. agx_rtbuddy_remove harness_up = Some rb' \<and> fake_live (machine rb') = {#})"
proof -
  have "\<forall>b. Some agx_display_broker_init = Some b \<longrightarrow> broker_ok b \<and> listeners_keep fake_dma_inv fake_live b"
    by (simp add: broker_ok_def listeners_keep_def agx_display_broker_init_def)
  moreover have "fake_dma_inv fake_asc_init" "fake_live fake_asc_init = {#}"
    by (simp_all add: fake_dma_inv_def fake_live_def fake_asc_init_def)
  ultimately show ?thesis
    using driver_owns_buffers [OF fake_dma.dma_device_axioms _ _ harness_up_reach] by (simp add: machine_def)
qed

text \<open>C32. Waiting for a stage. A wait always returns. It returns 0 only when the stage is done and no protocol error was
  seen, a protocol error is returned as it is, and a timeout is reported only when the whole stage time,
  500 ms, has passed. Whatever is handled meanwhile leaves the fields that boot and removal own alone.\<close>

theorem wait_returns:
  assumes "kernel_clock k" "rb_good k rb"
  shows "\<exists>ret rb'. agx_rtbuddy_wait rb done = Some (ret, rb') \<and> rb_frame (rtk_ctx rb) (rtk_ctx rb') \<and>
     (if ret = 0 then done rb' \<and> rtk_error rb' = 0
      else ret = rtk_error rb' \<or> rtk_error rb' = 0 \<and> ret = AGX_ETIMEDOUT \<and> \<not> done rb' \<and>
        rb_now rb + 500000 \<le> rb_now rb')"
proof -
  obtain b rb' where w: "wait_event (\<lambda>rtk. done rtk \<or> agx_rtkit_error rtk \<noteq> 0)
      (rb_now rb + AGX_RTBUDDY_STAGE_TIMEOUT_MS * 1000) rb = Some (b, rb')" "rb_step k rb rb'"
    "b = (done rb' \<or> agx_rtkit_error rb' \<noteq> 0)" "b \<or> rb_now rb + AGX_RTBUDDY_STAGE_TIMEOUT_MS * 1000 \<le> rb_now rb'"
    using kernel_clock.wait_event_ends [OF assms] by blast
  let ?ret = "if rtk_error rb' \<noteq> 0 then rtk_error rb' else if \<not> b then AGX_ETIMEDOUT else 0"
  have "agx_rtbuddy_wait rb done = Some (?ret, rb')"
    using w(1) by (simp add: agx_rtbuddy_wait_def rb_now_def agx_rtkit_error_def Let_def)
  moreover have "rb_frame (rtk_ctx rb) (rtk_ctx rb')" using w(2) by (simp add: rb_step_def)
  ultimately show ?thesis
    using w(3,4) by (auto simp: agx_rtkit_error_def AGX_ETIMEDOUT_def AGX_RTBUDDY_STAGE_TIMEOUT_MS_def)
qed

theorem wait_returns_witness:
  "\<exists>ret rb'. agx_rtbuddy_wait harness_rb agx_rtkit_epmap_done = Some (ret, rb') \<and>
     (ret = 0 \<longrightarrow> agx_rtkit_epmap_done rb')"
proof -
  have "rb_good fake_kernel harness_rb"
    unfolding harness_rb_def by (rule probe_good) (use harness_display in blast)
  from wait_returns [OF fake.kernel_clock_axioms this, of agx_rtkit_epmap_done] show ?thesis
    by (auto split: if_splits)
qed

text \<open>C33. The interrupt thread. One run handles at most 64 messages, adds their number to the drain counter, and stops early
  only when the outbox is empty, so no message is left behind without another interrupt.\<close>

theorem irq_thread_drains:
  assumes "mailbox_device k base dinv sent outbox room" "rb_good k rb" "rb_base (rtk_ctx rb) = base"
    "dinv (rb_dev (rtk_ctx rb))"
  shows "\<exists>n rb1. irq_drain 64 0 rb = (n, rb1) \<and> n \<le> 64 \<and>
     agx_rtbuddy_irq_thread rb = (IRQ_HANDLED, upd_rb (\<lambda>c. c\<lparr>rb_drain_count := rb_drain_count c + of_nat n\<rparr>) rb1) \<and>
     (n < 64 \<longrightarrow> outbox (rb_dev (rtk_ctx (snd (agx_rtbuddy_irq_thread rb)))) = [])"
proof -
  obtain n rb1 where d: "irq_drain 64 0 rb = (n, rb1)" by (rule prod.exhaust)
  from mailbox_device.drain_good [OF assms(1-4) d] d show ?thesis
    by (simp add: agx_rtbuddy_irq_thread_def AGX_RTBUDDY_DRAIN_MAX_def upd_rb_def)
qed

theorem irq_thread_drains_witness:
  "\<exists>n rb1. irq_drain 64 0 harness_rb = (n, rb1) \<and> n \<le> 64 \<and>
     (n < 64 \<longrightarrow> fake_outbox (rb_dev (rtk_ctx (snd (agx_rtbuddy_irq_thread harness_rb)))) = [])"
proof -
  have "rb_good fake_kernel harness_rb" "rb_base (rtk_ctx harness_rb) = kBase"
    unfolding harness_rb_def by (rule probe_good, use harness_display in blast)
      (simp add: agx_rtbuddy_probe_def agx_rtkit_init_def)
  from irq_thread_drains [OF fake.mailbox_device_axioms this TrueI] show ?thesis by blast
qed

text \<open>The result of handing an item to the mailbox: the call returns, only the machine changes, and either the item
  was accepted or nothing was sent.\<close>

definition hands_over :: "('d \<Rightarrow> (u32 \<times> u64) list) \<Rightarrow> 'd agx_rtbuddy \<Rightarrow> u32 \<times> u64 \<Rightarrow>
    (int \<times> 'd agx_rtbuddy) option \<Rightarrow> bool" where
  "hands_over sent rb item r \<longleftrightarrow> (\<exists>ret d. r = Some (ret, upd_rb (\<lambda>c. c\<lparr>rb_dev := d\<rparr>) rb) \<and>
     (ret = 0 \<and> sent d = sent (rb_dev (rtk_ctx rb)) @ [item] \<or>
      ret = AGX_ETIMEDOUT \<and> sent d = sent (rb_dev (rtk_ctx rb))))"

lemma send_gpu_hands_over:
  assumes "mailbox_device k base dinv sent outbox room" "rb_good k rb" "rb_base (rtk_ctx rb) = base"
    "dinv (rb_dev (rtk_ctx rb))" "agx_rtbuddy_started rb"
  shows "hands_over sent rb (ep AND 0xff, m) (agx_rtbuddy_send_gpu rb ep m)"
proof -
  let ?c = "rtk_ctx rb"
  have c: "rb_k ?c = k" "\<not> mb_lock (rb_mbox ?c)" "mb_base (rb_mbox ?c) = base"
    using assms(2,3) by (simp_all add: rb_good_def rb_ctx_ok_def)
  obtain ret d where s: "agx_mailbox_send k (rb_mbox ?c) ep m (rb_dev ?c) = Some (ret, rb_mbox ?c, d)"
    "ret = 0 \<and> sent d = sent (rb_dev ?c) @ [(ep AND 0xff, m)] \<or> ret = AGX_ETIMEDOUT \<and> sent d = sent (rb_dev ?c)"
    using mailbox_device.send_delivers [OF assms(1) c(2,3) assms(4), of ep m] by blast
  then have "agx_rtbuddy_send_gpu rb ep m = Some (ret, upd_rb (\<lambda>c. c\<lparr>rb_dev := d\<rparr>) rb)"
    using c assms(5) by (simp add: agx_rtbuddy_send_gpu_def upd_rb_def)
  with s(2) show ?thesis by (auto simp: hands_over_def)
qed

text \<open>C34. GPU messages. Before the driver is started each of the five calls fails with ENODEV and touches nothing. A
  started driver hands over exactly one item: init data on the firmware endpoint, the rest on the doorbell
  endpoint, or times out having sent nothing.\<close>

theorem gpu_messages:
  assumes "mailbox_device k base dinv sent outbox room" "rb_good k rb" "rb_base (rtk_ctx rb) = base"
    "dinv (rb_dev (rtk_ctx rb))"
  shows "if agx_rtbuddy_started rb
     then hands_over sent rb (0x20, agx_gpu_msg_init addr) (agx_rtbuddy_send_initdata rb addr) \<and>
          hands_over sent rb (0x21, agx_gpu_msg_doorbell channel) (agx_rtbuddy_doorbell rb channel) \<and>
          hands_over sent rb (0x21, agx_gpu_msg_kick index alt) (agx_rtbuddy_kick rb index alt) \<and>
          hands_over sent rb (0x21, agx_gpu_msg_stop counter) (agx_rtbuddy_stop_firmware rb counter) \<and>
          hands_over sent rb (0x21, agx_gpu_msg_fwctl) (agx_rtbuddy_fwctl_doorbell rb)
     else agx_rtbuddy_send_initdata rb addr = Some (AGX_ENODEV, rb) \<and>
          agx_rtbuddy_doorbell rb channel = Some (AGX_ENODEV, rb) \<and>
          agx_rtbuddy_kick rb index alt = Some (AGX_ENODEV, rb) \<and>
          agx_rtbuddy_stop_firmware rb counter = Some (AGX_ENODEV, rb) \<and>
          agx_rtbuddy_fwctl_doorbell rb = Some (AGX_ENODEV, rb)"
proof (cases "agx_rtbuddy_started rb")
  case True
  note h = send_gpu_hands_over [OF assms True]
  have "AGX_RTKIT_EP_FIRMWARE AND 0xff = 0x20" "AGX_RTKIT_EP_DOORBELL AND 0xff = 0x21"
    by (simp_all add: AGX_RTKIT_EP_FIRMWARE_def AGX_RTKIT_EP_DOORBELL_def)
  with True h [of AGX_RTKIT_EP_FIRMWARE] h [of AGX_RTKIT_EP_DOORBELL] show ?thesis
    by (simp add: agx_rtbuddy_send_initdata_def agx_rtbuddy_doorbell_def agx_rtbuddy_kick_def
        agx_rtbuddy_stop_firmware_def agx_rtbuddy_fwctl_doorbell_def)
next
  case False
  then show ?thesis
    by (simp add: agx_rtbuddy_send_initdata_def agx_rtbuddy_doorbell_def agx_rtbuddy_kick_def
        agx_rtbuddy_stop_firmware_def agx_rtbuddy_fwctl_doorbell_def agx_rtbuddy_send_gpu_def)
qed

lemma harness_up_good:
  "rb_good fake_kernel harness_up" "rb_base (rtk_ctx harness_up) = kBase" "agx_rtbuddy_started harness_up"
proof -
  show g: "rb_good fake_kernel harness_up" using fake.reach_good [OF harness_up_reach harness_display] .
  show "rb_base (rtk_ctx harness_up) = kBase"
    by (simp add: harness_up_def harness_acked_def harness_rb_def agx_rtbuddy_probe_def agx_rtkit_init_def)
  show "agx_rtbuddy_started harness_up"
    using kernel_clock.boot_outcome [OF fake.kernel_clock_axioms fake.reach_good [OF harness_reach harness_display]] harness_boot
    by (simp add: boot_post_def)
qed

theorem gpu_messages_witness:
  "hands_over fake_sent harness_up (0x21, agx_gpu_msg_doorbell 3) (agx_rtbuddy_doorbell harness_up 3) \<and>
   agx_rtbuddy_doorbell harness_rb 3 = Some (AGX_ENODEV, harness_rb)"
proof -
  have g: "rb_good fake_kernel harness_rb" "rb_base (rtk_ctx harness_rb) = kBase" "\<not> agx_rtbuddy_started harness_rb"
    unfolding harness_rb_def by (rule probe_good, use harness_display in blast)
      (simp_all add: agx_rtbuddy_probe_def agx_rtkit_init_def agx_rtbuddy_started_def)
  show ?thesis
    using gpu_messages [OF fake.mailbox_device_axioms harness_up_good(1,2) TrueI] harness_up_good(3)
      gpu_messages [OF fake.mailbox_device_axioms g(1,2) TrueI] g(3) by simp
qed

text \<open>C35. Buffer policy. What the driver answers to a request for a shared buffer: only the four system endpoints with
  buffers may ask, only for an address of the driver's choice and at most 4 MiB; a second request of the
  same endpoint is refused, a failed allocation leaves the slot free, and in all these cases no buffer is
  taken. A granted request fills the slot of its endpoint and no other.\<close>

theorem buffer_policy:
  assumes c: "rb_ctx_ok k c" and a: "k_dma_alloc k (rb_dev c) bytes = ((cpu, iova), d)"
  shows "let i = nat (agx_rtbuddy_shmem_slot ep); r = agx_rtbuddy_ops_buffer c ep bytes req in
     if ep \<notin> {1, 2, 4, 8} \<or> req \<noteq> 0 \<or> bytes > 0x400000 then r = ((AGX_EINVAL, req), c)
     else if sh_cpu (rb_shmem c ! i) \<noteq> 0 then r = ((- 17, req), c)
     else if cpu = 0 then fst r = (AGX_ENOMEM, req) \<and> slot_bufs (rb_shmem (snd r)) = slot_bufs (rb_shmem c)
     else r = ((0, iova), c\<lparr>rb_dev := d, rb_shmem := (rb_shmem c)[i := \<lparr>sh_cpu = cpu, sh_iova = iova, sh_size = bytes\<rparr>]\<rparr>) \<and>
          slot_bufs (rb_shmem (snd r)) = add_mset (bytes, cpu, iova) (slot_bufs (rb_shmem c))"
proof -
  let ?i = "nat (agx_rtbuddy_shmem_slot ep)"
  have i: "?i < length (rb_shmem c)" and k: "rb_k c = k"
    using c shmem_slot_range(1) [of ep] by (simp_all add: rb_ctx_ok_def AGX_RTBUDDY_SHMEM_SLOTS_def)
  have slot: "agx_rtbuddy_shmem_slot ep < 0 \<longleftrightarrow> ep \<notin> {1, 2, 4, 8}"
    by (simp add: agx_rtbuddy_shmem_slot_def AGX_RTKIT_EP_CRASHLOG_def AGX_RTKIT_EP_SYSLOG_def
        AGX_RTKIT_EP_IOREPORT_def AGX_RTKIT_EP_OSLOG_def)
  have "agx_rtbuddy_ops_buffer c ep bytes req =
     (if ep \<notin> {1, 2, 4, 8} \<or> req \<noteq> 0 \<or> bytes > 0x400000 then ((AGX_EINVAL, req), c)
      else if sh_cpu (rb_shmem c ! ?i) \<noteq> 0 then ((- 17, req), c)
      else if cpu = 0 then ((AGX_ENOMEM, req),
        c\<lparr>rb_dev := d, rb_shmem := (rb_shmem c)[?i := (rb_shmem c ! ?i)\<lparr>sh_cpu := cpu, sh_iova := iova\<rparr>]\<rparr>)
      else ((0, iova), c\<lparr>rb_dev := d, rb_shmem := (rb_shmem c)[?i := \<lparr>sh_cpu = cpu, sh_iova = iova, sh_size = bytes\<rparr>]\<rparr>))"
    using a k slot by (cases "rb_shmem c ! ?i") (auto simp: agx_rtbuddy_ops_buffer_def Let_def EEXIST_def AGX_RTBUDDY_SHMEM_MAX_def)
  then show ?thesis by (simp add: Let_def slot_bufs_fill [OF i])
qed

theorem buffer_policy_witness:
  "fst (agx_rtbuddy_ops_buffer (rtk_ctx harness_rb) 1 0x2000 0) = (0, 0x8000000) \<and>
   agx_rtbuddy_ops_buffer (rtk_ctx harness_rb) 3 0x2000 0 = ((AGX_EINVAL, 0), rtk_ctx harness_rb) \<and>
   agx_rtbuddy_ops_buffer (rtk_ctx harness_up) 1 0x2000 0 = ((- 17, 0), rtk_ctx harness_up)"
proof -
  have c: "rb_ctx_ok fake_kernel (rtk_ctx harness_rb)" "rb_ctx_ok fake_kernel (rtk_ctx harness_up)"
    using fake.reach_good [OF harness_reach harness_display] harness_up_good(1) by (simp_all add: rb_good_def)
  have d: "rb_dev (rtk_ctx harness_rb) = fake_asc_init" "rb_shmem (rtk_ctx harness_rb) ! 0 = \<lparr>sh_cpu = 0, sh_iova = 0, sh_size = 0\<rparr>"
    "sh_cpu (rb_shmem (rtk_ctx harness_up) ! 0) = 0x1000" "agx_rtbuddy_shmem_slot 1 = 0"
    by (simp_all add: harness_up_def harness_rb_def agx_rtbuddy_probe_def agx_rtkit_init_def AGX_RTBUDDY_SHMEM_SLOTS_def
        agx_rtbuddy_shmem_slot_def AGX_RTKIT_EP_CRASHLOG_def)
  have a: "k_dma_alloc fake_kernel (rb_dev (rtk_ctx harness_rb)) 0x2000 =
      ((0x1000, 0x8000000), snd (fake_dma_alloc fake_asc_init 0x2000))"
    by (simp add: d fake_dma_alloc_def fake_asc_init_def)
  obtain p q d' where a': "k_dma_alloc fake_kernel (rb_dev (rtk_ctx harness_up)) 0x2000 = ((p, q), d')"
    by (metis prod.exhaust)
  show ?thesis
    using buffer_policy [OF c(1) a, of 1 0] buffer_policy [OF c(1) a, of 3 0] buffer_policy [OF c(2) a', of 1 0]
    by (simp add: d Let_def)
qed

text \<open>A whole boot, as one run. The driver booted on the machine of the tests comes up: it negotiates version 12, answers both
  endpoint maps, starts the five system endpoints and the two of the GPU, hands out the four
  buffers the firmware asks for, and makes no access in the wrong order, to a wrong register or
  into a full inbox; the 16 messages it sent are exactly these.\<close>

lemma boot_on_test_machine:
  "\<exists>rb. agx_rtbuddy_boot harness_rb = Some (0, rb) \<and> agx_rtbuddy_started rb \<and> rtk_version rb = 12 \<and>
     violations (machine rb) = 0 \<and> size (fake_live (machine rb)) = 4 \<and>
     fake_sent (machine rb) =
       [(0, agx_rtkit_mgmt_msg AGX_RTKIT_MGMT_IOP_PWR 0x220), (0, hello_reply 12),
        (0, agx_rtkit_mgmt_msg AGX_RTKIT_MGMT_EPMAP_REPLY 1),
        (0, agx_rtkit_mgmt_msg AGX_RTKIT_MGMT_EPMAP_REPLY 0x8000100000000)] @
       map (\<lambda>ep. (0, startep_msg ep)) [1, 2, 3, 4, 8] @
       [(0, agx_rtkit_mgmt_msg AGX_RTKIT_MGMT_AP_PWR 0x20),
        (1, 0x10200008000000), (2, 0x10200008100000), (4, 0x10200008200000), (8, 0x102000000008300)] @
       map (\<lambda>ep. (0, startep_msg ep)) [0x20, 0x21]"
proof -
  have v: "rtk_version harness_up = 12" "violations (machine harness_up) = 0" "size (fake_live (machine harness_up)) = 4"
    by (simp_all add: harness_up_def harness_acked_def machine_def violations_def fake_asc_init_def fake_live_def)
  have "fake_sent (machine harness_up) = [(0, 0x60000000000220), (0, 0x200000000c000c), (0, 0x80000000000001),
     (0, 0x88000100000000), (0, 0x50000100000002), (0, 0x50000200000002), (0, 0x50000300000002),
     (0, 0x50000400000002), (0, 0x50000800000002), (0, 0xb0000000000020), (1, 0x10200008000000),
     (2, 0x10200008100000), (4, 0x10200008200000), (8, 0x102000000008300), (0, 0x50002000000002), (0, 0x50002100000002)]"
    by (simp add: harness_up_def machine_def fake_sent_def)
  with harness_boot harness_up_good(3) v show ?thesis
    by (intro exI [of _ harness_up]) (simp add: hello_reply_def startep_msg_def rtkit_run agx_prelude_run)
qed

end
