(* ===== verification/Probe.thy ===== *)
theory Probe
  imports Debugfs Rtbuddy_Theorems
begin

text \<open>
  The platform driver of \<^verbatim>\<open>src/probe.c\<close>. The calls into the driver model, power management and debugfs are parameters,
  \<open>'d platform_ops\<close> and \<open>'d debugfs_ops\<close>, on the same machine the kernel services act on. The locale
  \<open>platform_bus\<close> states what they do to the power usage count, the DMA buffers and the debugfs directories;
  probe and removal are proved balanced under it. What the device manager releases by itself after
  a failed probe (memory, mapping, interrupt lookup, the enabled state) is not modelled.
\<close>

section \<open>Functions of probe.c\<close>

text \<open>\<open>p_ioremap\<close> returns an error or the mapped base and the size of the region.\<close>

record 'd platform_ops =
  p_kzalloc :: "'d \<Rightarrow> bool \<times> 'd"
  p_ioremap :: "'d \<Rightarrow> (int + nat \<times> nat) \<times> 'd"
  p_get_irq_byname :: "'d \<Rightarrow> string \<Rightarrow> int \<times> 'd"
  p_pm_enable :: "'d \<Rightarrow> int \<times> 'd"
  p_pm_resume_and_get :: "'d \<Rightarrow> int \<times> 'd"
  p_pm_put_sync :: "'d \<Rightarrow> 'd"

text \<open>The display broker of the C struct is reached through \<open>rb_display\<close> of the driver, which points to it. The
  machine after a call is in the driver where there is one.\<close>

record 'd agx_device =
  ad_rtbuddy :: "'d agx_rtbuddy"

definition agx_probe ::
  "'d kernel_ops \<Rightarrow> 'd platform_ops \<Rightarrow> 'd debugfs_ops \<Rightarrow> 'd \<Rightarrow> (int \<times> 'd agx_device option \<times> 'd) option" where
  "agx_probe k p f d =
     (let (agx, d) = p_kzalloc p d
      in if \<not> agx then Some (AGX_ENOMEM, None, d) else
      let (res, d) = p_ioremap p d
      in case res of Inl e \<Rightarrow> Some (e, None, d) | Inr (base, resource_size) \<Rightarrow>
      if resource_size < AGX_MBOX_REGION_SIZE then Some (AGX_EINVAL, None, d) else
      let (irq, d) = p_get_irq_byname p d ''recv-not-empty''
      in if irq < 0 then Some (irq, None, d) else
      let (ret, d) = p_pm_enable p d
      in if ret \<noteq> 0 then Some (ret, None, d) else
      let (ret, d) = p_pm_resume_and_get p d
      in if ret \<noteq> 0 then Some (ret, None, d) else
      let (ret, rb) = agx_rtbuddy_probe k d base irq (Some agx_display_broker_init)
      in if ret \<noteq> 0 then Some (ret, None, p_pm_put_sync p (rb_dev (rtk_ctx rb))) else do {
      (ret, rb) \<leftarrow> agx_rtbuddy_boot rb;
      if ret \<noteq> 0 then do {
        rb \<leftarrow> agx_rtbuddy_remove rb;
        Some (ret, None, p_pm_put_sync p (rb_dev (rtk_ctx rb)))
      } else
        let rb = agx_debugfs_init f rb
        in Some (0, Some \<lparr>ad_rtbuddy = rb\<rparr>, rb_dev (rtk_ctx rb))
      })"

definition agx_teardown :: "'d platform_ops \<Rightarrow> 'd debugfs_ops \<Rightarrow> 'd agx_device \<Rightarrow> 'd option" where
  "agx_teardown p f agx = do {
     let rb = agx_debugfs_remove f (ad_rtbuddy agx);
     rb \<leftarrow> agx_rtbuddy_remove rb;
     Some (p_pm_put_sync p (rb_dev (rtk_ctx rb)))
   }"

definition agx_remove :: "'d platform_ops \<Rightarrow> 'd debugfs_ops \<Rightarrow> 'd agx_device \<Rightarrow> 'd option" where
  "agx_remove p f agx = agx_teardown p f agx"

section \<open>Ownership across boot and removal\<close>

definition rb_owns :: "'d kernel_ops \<Rightarrow> ('d \<Rightarrow> bool) \<Rightarrow> ('d \<Rightarrow> (u64 \<times> u64 \<times> u64) multiset) \<Rightarrow>
    (u64 \<times> u64 \<times> u64) multiset \<Rightarrow> 'd agx_rtbuddy \<Rightarrow> bool" where
  "rb_owns k dinv live L rb \<longleftrightarrow> rb_good k rb \<and> dma_ok k dinv live L (rtk_ctx rb)"

context dma_device
begin

lemma owns_of: "rb_owns k dinv live L rb \<Longrightarrow> owns L rb"
  unfolding own.keeps_def by (simp add: rb_owns_def rb_good_def)

lemma probe_owns: "dinv d \<Longrightarrow> rb_owns k dinv live (live d) (snd (agx_rtbuddy_probe k d base irq (Some agx_display_broker_init)))"
  using owns_ctx(1) [OF reach_owns [OF driver_reach.probe, of d "Some agx_display_broker_init"]]
    probe_good [of "Some agx_display_broker_init"]
  by (simp add: rb_owns_def broker_init_ok) (simp add: listeners_keep_def agx_display_broker_init_def broker_ok_def)

lemma boot_owns:
  assumes "rb_owns k dinv live L rb"
  shows "\<exists>ret rb'. agx_rtbuddy_boot rb = Some (ret, rb') \<and> rb_owns k dinv live L rb' \<and>
     rb_display (rtk_ctx rb') = rb_display (rtk_ctx rb) \<and> (ret = 0 \<longrightarrow> agx_rtbuddy_started rb')"
proof -
  have "boots k rb (agx_rtbuddy_boot rb)" using assms by (intro boot_outcome) (simp add: rb_owns_def)
  then obtain ret rb' where b: "agx_rtbuddy_boot rb = Some (ret, rb')" "boot_post k rb (ret, rb')"
    by (cases "agx_rtbuddy_boot rb") (auto simp: boots_def)
  moreover have "owns L rb'" using owns_boot [OF owns_of [OF assms]] b(1) by simp
  ultimately show ?thesis by (auto simp: rb_owns_def boot_post_def owns_ctx)
qed

lemma remove_owns:
  assumes "rb_owns k dinv live L rb"
  shows "\<exists>rb'. agx_rtbuddy_remove rb = Some rb' \<and> dinv (rb_dev (rtk_ctx rb')) \<and> live (rb_dev (rtk_ctx rb')) = L"
proof -
  obtain rb' where r: "agx_rtbuddy_remove rb = Some rb'" "remove_post k rb rb'"
    using remove_outcome [of rb] assms by (auto simp: rb_owns_def)
  have "ok L (rtk_ctx rb')" using owns_remove [OF owns_of [OF assms]] r(1) by (simp add: owns_ctx)
  with r show ?thesis by (auto simp: dma_ok_def remove_post_def slot_bufs_empty)
qed

end

section \<open>The contract of the platform\<close>

text \<open>\<open>usage\<close> is the power usage count and \<open>dirs\<close> the debugfs directories that exist; neither is touched by the
  kernel services the driver core uses.\<close>

definition same_books :: "('d \<Rightarrow> bool) \<Rightarrow> ('d \<Rightarrow> int) \<Rightarrow> ('d \<Rightarrow> 'm) \<Rightarrow> ('d \<Rightarrow> u64 set) \<Rightarrow> 'd \<Rightarrow> 'd \<Rightarrow> bool" where
  "same_books dinv usage live dirs d d' \<longleftrightarrow> (dinv d \<longrightarrow> dinv d') \<and> usage d' = usage d \<and> live d' = live d \<and> dirs d' = dirs d"

locale platform_bus =
  fixes k :: "'d kernel_ops" and p :: "'d platform_ops" and f :: "'d debugfs_ops"
    and dinv :: "'d \<Rightarrow> bool" and usage :: "'d \<Rightarrow> int" and live :: "'d \<Rightarrow> (u64 \<times> u64 \<times> u64) multiset" and dirs :: "'d \<Rightarrow> u64 set"
  assumes kernel: "dma_device k (\<lambda>d. dinv d \<and> usage d = u \<and> dirs d = ds) live"
    and kzalloc_books: "same_books dinv usage live dirs d (snd (p_kzalloc p d))"
    and ioremap_books: "same_books dinv usage live dirs d (snd (p_ioremap p d))"
    and ioremap_error: "fst (p_ioremap p d) = Inl e \<Longrightarrow> e < 0"
    and irq_books: "same_books dinv usage live dirs d (snd (p_get_irq_byname p d name))"
    and enable_books: "same_books dinv usage live dirs d (snd (p_pm_enable p d))"
    and get_books: "p_pm_resume_and_get p d = (ret, d') \<Longrightarrow>
      (dinv d \<longrightarrow> dinv d') \<and> usage d' = (if ret = 0 then usage d + 1 else usage d) \<and> live d' = live d \<and> dirs d' = dirs d"
    and put_books: "(dinv d \<longrightarrow> dinv (p_pm_put_sync p d)) \<and> usage (p_pm_put_sync p d) = usage d - 1 \<and> live (p_pm_put_sync p d) = live d \<and>
      dirs (p_pm_put_sync p d) = dirs d"
    and create_dir: "d_create_dir f d name = (root, d') \<Longrightarrow>
      (dinv d \<longrightarrow> dinv d') \<and> usage d' = usage d \<and> live d' = live d \<and> root \<notin> dirs d \<and> dirs d' \<in> {dirs d, insert root (dirs d)}"
    and create_file: "same_books dinv usage live dirs d (d_create_file f d name mode root fops)"
    and create_u64: "same_books dinv usage live dirs d (d_create_u64 f d name mode root)"
    and remove_recursive: "(dinv d \<longrightarrow> dinv (d_remove_recursive f d root)) \<and> usage (d_remove_recursive f d root) = usage d \<and> live (d_remove_recursive f d root) = live d \<and>
      dirs (d_remove_recursive f d root) = dirs d - {root}"
begin

abbreviation holds :: "int \<Rightarrow> u64 set \<Rightarrow> (u64 \<times> u64 \<times> u64) multiset \<Rightarrow> 'd agx_rtbuddy \<Rightarrow> bool" where
  "holds u ds \<equiv> rb_owns k (\<lambda>d. dinv d \<and> usage d = u \<and> dirs d = ds) live"

lemma holds_dev:
  assumes "holds u ds L rb" "rb_display (rtk_ctx rb) = Some agx_display_broker_init"
    "dinv d" "usage d = u'" "dirs d = ds'" "live d = live (rb_dev (rtk_ctx rb))"
  shows "holds u' ds' L (upd_rb (\<lambda>c. c\<lparr>rb_dev := d, rb_debugfs_root := r\<rparr>) rb)"
  using assms
  by (auto simp: rb_owns_def rb_good_def rtk_wf_def upd_rb_def dma_ok_def rb_ctx_ok_def listeners_keep_def
      agx_display_broker_init_def)

lemma debugfs_init_books:
  assumes "holds u ds L rb" "rb_display (rtk_ctx rb) = Some agx_display_broker_init"
  shows "\<exists>ds'. holds u ds' L (agx_debugfs_init f rb) \<and> ds' - {rb_debugfs_root (rtk_ctx (agx_debugfs_init f rb))} = ds"
proof -
  obtain root d1 where c: "d_create_dir f (rb_dev (rtk_ctx rb)) ''agxrtbuddy'' = (root, d1)" by (rule prod.exhaust)
  have d: "dinv (rb_dev (rtk_ctx rb))" "usage (rb_dev (rtk_ctx rb)) = u" "dirs (rb_dev (rtk_ctx rb)) = ds"
    using assms(1) by (simp_all add: rb_owns_def dma_ok_def)
  define d2 where "d2 = d_create_u64 f (d_create_file f (d_create_file f (d_create_file f d1 ''power'' 292 root
      agx_debugfs_power_fops) ''endpoints'' 292 root agx_debugfs_endpoints_fops) ''rtkit'' 292 root
      agx_debugfs_rtkit_fops) ''draincount'' 292 root"
  have "same_books dinv usage live dirs d1 d2"
    unfolding d2_def using create_file create_u64 by (simp add: same_books_def)
  with create_dir [OF c] d have b: "dinv d2" "usage d2 = u" "live d2 = live (rb_dev (rtk_ctx rb))" "dirs d2 - {root} = ds"
    by (auto simp: same_books_def)
  have "agx_debugfs_init f rb = upd_rb (\<lambda>c. c\<lparr>rb_dev := d2, rb_debugfs_root := root\<rparr>) rb"
    using c by (simp add: agx_debugfs_init_def upd_rb_def d2_def)
  with holds_dev [OF assms b(1,2) refl b(3), of root] b(4) show ?thesis by (auto simp: upd_rb_def)
qed

text \<open>The part of probe after the device is powered.\<close>

lemma powered_probe:
  assumes "dinv d1" "usage d1 = usage d + 1" "live d1 = live d" "dirs d1 = dirs d"
    and rb: "rb = snd (agx_rtbuddy_probe k d1 base irq (Some agx_display_broker_init))"
  shows "\<exists>ret rb1. agx_rtbuddy_boot rb = Some (ret, rb1) \<and>
    (if ret = 0
     then agx_rtbuddy_started rb1 \<and> rb_display (rtk_ctx rb1) = Some agx_display_broker_init \<and>
          holds (usage d + 1) (dirs d) (live d) rb1
     else \<exists>rb2. agx_rtbuddy_remove rb1 = Some rb2 \<and> same_books dinv usage live dirs d (p_pm_put_sync p (rb_dev (rtk_ctx rb2))))"
proof -
  have "holds (usage d + 1) (dirs d) (live d) rb"
    using dma_device.probe_owns [OF kernel, of d1 "usage d + 1" "dirs d" base irq] assms by simp
  from dma_device.boot_owns [OF kernel this] obtain ret rb1 where
    b: "agx_rtbuddy_boot rb = Some (ret, rb1)" "holds (usage d + 1) (dirs d) (live d) rb1"
      "rb_display (rtk_ctx rb1) = rb_display (rtk_ctx rb)" "ret = 0 \<longrightarrow> agx_rtbuddy_started rb1" by blast
  have "rb_display (rtk_ctx rb) = Some agx_display_broker_init"
    by (simp add: rb agx_rtbuddy_probe_def agx_rtkit_init_def)
  with b dma_device.remove_owns [OF kernel b(2)] put_books show ?thesis
    by (auto simp: same_books_def)
qed

lemma books_trans: "same_books dinv usage live dirs a b \<Longrightarrow> same_books dinv usage live dirs b c \<Longrightarrow> same_books dinv usage live dirs a c"
  by (simp add: same_books_def)

lemma probe_outcome:
  assumes "dinv d"
  shows "\<exists>ret agx d'. agx_probe k p f d = Some (ret, agx, d') \<and>
    (if ret = 0
     then \<exists>a ds. agx = Some a \<and> d' = rb_dev (rtk_ctx (ad_rtbuddy a)) \<and> agx_rtbuddy_started (ad_rtbuddy a) \<and>
       rb_display (rtk_ctx (ad_rtbuddy a)) = Some agx_display_broker_init \<and>
       holds (usage d + 1) ds (live d) (ad_rtbuddy a) \<and> ds - {rb_debugfs_root (rtk_ctx (ad_rtbuddy a))} = dirs d
     else agx = None \<and> same_books dinv usage live dirs d d')"
proof -
  obtain ok d1 where s1: "p_kzalloc p d = (ok, d1)" by (rule prod.exhaust)
  obtain res d2 where s2: "p_ioremap p d1 = (res, d2)" by (rule prod.exhaust)
  obtain irq d3 where s3: "p_get_irq_byname p d2 ''recv-not-empty'' = (irq, d3)" by (rule prod.exhaust)
  obtain r4 d4 where s4: "p_pm_enable p d3 = (r4, d4)" by (rule prod.exhaust)
  obtain r5 d5 where s5: "p_pm_resume_and_get p d4 = (r5, d5)" by (rule prod.exhaust)
  have b1: "same_books dinv usage live dirs d d1" using kzalloc_books [of d] s1 by simp
  have b2: "same_books dinv usage live dirs d d2" using books_trans [OF b1] ioremap_books [of d1] s2 by simp
  have b3: "same_books dinv usage live dirs d d3" using books_trans [OF b2] irq_books [of d2 "''recv-not-empty''"] s3 by simp
  have b4: "same_books dinv usage live dirs d d4" using books_trans [OF b3] enable_books [of d3] s4 by simp
  note g = get_books [OF s5]
  have e: "res = Inl er \<Longrightarrow> er < 0" for er using ioremap_error [of d1] s2 by simp
  show ?thesis
  proof (cases "ok \<and> (\<exists>base sz. res = Inr (base, sz) \<and> AGX_MBOX_REGION_SIZE \<le> sz) \<and> 0 \<le> irq \<and> r4 = 0 \<and> r5 = 0")
    case False
    have "same_books dinv usage live dirs d d5" if "r5 \<noteq> 0" using g b4 that by (simp add: same_books_def)
    with False b1 b2 b3 b4 e s1 s2 s3 s4 s5
    have "case agx_probe k p f d of None \<Rightarrow> False
      | Some (ret, agx, d') \<Rightarrow> ret \<noteq> 0 \<and> agx = None \<and> same_books dinv usage live dirs d d'"
      by (cases res) (auto simp: agx_probe_def AGX_ENOMEM_def AGX_EINVAL_def)
    then show ?thesis by (auto split: option.splits)
  next
    case True
    then obtain base sz where res: "res = Inr (base, sz)" "AGX_MBOX_REGION_SIZE \<le> sz" by blast
    define rb where "rb = snd (agx_rtbuddy_probe k d5 base irq (Some agx_display_broker_init))"
    have "dinv d5" "usage d5 = usage d + 1" "live d5 = live d" "dirs d5 = dirs d"
      using g b4 True assms by (simp_all add: same_books_def)
    from powered_probe [OF this rb_def] obtain ret rb1 where
      b: "agx_rtbuddy_boot rb = Some (ret, rb1)" and post: "if ret = 0
       then agx_rtbuddy_started rb1 \<and> rb_display (rtk_ctx rb1) = Some agx_display_broker_init \<and>
          holds (usage d + 1) (dirs d) (live d) rb1
       else \<exists>rb2. agx_rtbuddy_remove rb1 = Some rb2 \<and>
          same_books dinv usage live dirs d (p_pm_put_sync p (rb_dev (rtk_ctx rb2)))" by blast
    have p0: "agx_rtbuddy_probe k d5 base irq (Some agx_display_broker_init) = (0, rb)"
      by (simp add: rb_def agx_rtbuddy_probe_def)
    have pr: "agx_probe k p f d = (if ret \<noteq> 0
        then Option.bind (agx_rtbuddy_remove rb1) (\<lambda>rb. Some (ret, None, p_pm_put_sync p (rb_dev (rtk_ctx rb))))
        else Some (0, Some \<lparr>ad_rtbuddy = agx_debugfs_init f rb1\<rparr>, rb_dev (rtk_ctx (agx_debugfs_init f rb1))))"
      using True res s1 s2 s3 s4 s5 b p0 by (simp add: agx_probe_def Let_def)
    have "agx_rtbuddy_started rb1 \<Longrightarrow> agx_rtbuddy_started (agx_debugfs_init f rb1)"
      "rb_display (rtk_ctx (agx_debugfs_init f rb1)) = rb_display (rtk_ctx rb1)"
      by (simp_all add: agx_debugfs_init_def upd_rb_def agx_rtbuddy_started_def agx_rtkit_running_def Let_def case_prod_beta)
    with post debugfs_init_books [of "usage d + 1" "dirs d" "live d" rb1] show ?thesis
      by (cases "ret = 0") (auto simp: pr)
  qed
qed

lemma teardown_outcome:
  assumes "holds (usage d + 1) ds (live d) (ad_rtbuddy a)"
    "rb_display (rtk_ctx (ad_rtbuddy a)) = Some agx_display_broker_init"
    "ds - {rb_debugfs_root (rtk_ctx (ad_rtbuddy a))} = dirs d"
  shows "\<exists>d'. agx_teardown p f a = Some d' \<and> same_books dinv usage live dirs d d'"
proof -
  let ?rb = "ad_rtbuddy a" and ?rb1 = "agx_debugfs_remove f (ad_rtbuddy a)"
  let ?d = "d_remove_recursive f (rb_dev (rtk_ctx ?rb)) (rb_debugfs_root (rtk_ctx ?rb))"
  have u: "dinv (rb_dev (rtk_ctx ?rb))" "usage (rb_dev (rtk_ctx ?rb)) = usage d + 1" "dirs (rb_dev (rtk_ctx ?rb)) = ds"
    using assms(1) by (simp_all add: rb_owns_def dma_ok_def)
  have "holds (usage d + 1) (dirs d) (live d) ?rb1"
    using holds_dev [OF assms(1,2), of ?d "usage d + 1" "dirs d" 0] remove_recursive u assms(3)
    by (simp add: agx_debugfs_remove_def upd_rb_def)
  from dma_device.remove_owns [OF kernel this] put_books show ?thesis
    by (auto simp: agx_teardown_def Let_def same_books_def)
qed

end

section \<open>The test machine on a bus\<close>

text \<open>A machine with a bus beside it: the kernel services leave the bus alone. The bus counts power users, knows
  whether the driver's debugfs directory exists and offers one region and one interrupt.\<close>

record bus =
  bus_usage :: int
  bus_dir :: bool
  bus_region :: nat
  bus_irq :: int

definition on_bus :: "'d kernel_ops \<Rightarrow> ('d \<times> bus) kernel_ops" where
  "on_bus k = \<lparr>k_readl = (\<lambda>(d, b) a. apsnd (\<lambda>d. (d, b)) (k_readl k d a)),
     k_readq = (\<lambda>(d, b) a. apsnd (\<lambda>d. (d, b)) (k_readq k d a)),
     k_writel = (\<lambda>(d, b) v a. (k_writel k d v a, b)), k_writeq = (\<lambda>(d, b) v a. (k_writeq k d v a, b)),
     k_now_us = (\<lambda>(d, b). k_now_us k d), k_usleep = (\<lambda>(d, b) n. (k_usleep k d n, b)),
     k_idle = (\<lambda>(d, b). (k_idle k d, b)), k_dma_alloc = (\<lambda>(d, b) n. apsnd (\<lambda>d. (d, b)) (k_dma_alloc k d n)),
     k_dma_free = (\<lambda>(d, b) n c i. (k_dma_free k d n c i, b)),
     k_request_irq = (\<lambda>(d, b) i. apsnd (\<lambda>d. (d, b)) (k_request_irq k d i)),
     k_free_irq = (\<lambda>(d, b) i. (k_free_irq k d i, b))\<rparr>"

definition bus_platform :: "nat \<Rightarrow> ('d \<times> bus) platform_ops" where
  "bus_platform base = \<lparr>p_kzalloc = (\<lambda>m. (True, m)), p_ioremap = (\<lambda>m. (Inr (base, bus_region (snd m)), m)),
     p_get_irq_byname = (\<lambda>m name. (bus_irq (snd m), m)), p_pm_enable = (\<lambda>m. (0, m)),
     p_pm_resume_and_get = (\<lambda>(d, b). (0, (d, b\<lparr>bus_usage := bus_usage b + 1\<rparr>))),
     p_pm_put_sync = (\<lambda>(d, b). (d, b\<lparr>bus_usage := bus_usage b - 1\<rparr>))\<rparr>"

text \<open>The directory has the handle 1; creating it a second time fails, with an error pointer for a handle.\<close>

definition bus_debugfs :: "('d \<times> bus) debugfs_ops" where
  "bus_debugfs = \<lparr>d_create_dir = (\<lambda>(d, b) name. if bus_dir b then (- 17, (d, b)) else (1, (d, b\<lparr>bus_dir := True\<rparr>))),
     d_create_file = (\<lambda>m name mode root fops. m), d_create_u64 = (\<lambda>m name mode root. m),
     d_remove_recursive = (\<lambda>(d, b) root. (d, if root = 1 then b\<lparr>bus_dir := False\<rparr> else b))\<rparr>"

definition bus_dirs :: "'d \<times> bus \<Rightarrow> u64 set" where
  "bus_dirs m = (if bus_dir (snd m) then {1} else {})"

lemma on_bus_clock:
  assumes "kernel_clock k" shows "kernel_clock (on_bus k)"
proof
  show "k_now_us (on_bus k) d \<le> k_now_us (on_bus k) (snd (k_readl (on_bus k) d a))" for d a
    using kernel_clock.readl_time [OF assms] by (simp add: on_bus_def case_prod_beta)
  show "k_now_us (on_bus k) d \<le> k_now_us (on_bus k) (snd (k_readq (on_bus k) d a))" for d a
    using kernel_clock.readq_time [OF assms] by (simp add: on_bus_def case_prod_beta)
  show "k_now_us (on_bus k) d \<le> k_now_us (on_bus k) (k_writel (on_bus k) d v a)" for d v a
    using kernel_clock.writel_time [OF assms] by (simp add: on_bus_def case_prod_beta)
  show "k_now_us (on_bus k) d \<le> k_now_us (on_bus k) (k_writeq (on_bus k) d w a)" for d w a
    using kernel_clock.writeq_time [OF assms] by (simp add: on_bus_def case_prod_beta)
  show "k_now_us (on_bus k) d + n \<le> k_now_us (on_bus k) (k_usleep (on_bus k) d n)" for d n
    using kernel_clock.usleep_time [OF assms] by (simp add: on_bus_def case_prod_beta)
  show "k_now_us (on_bus k) d < k_now_us (on_bus k) (k_idle (on_bus k) d)" for d
    using kernel_clock.idle_time [OF assms] by (simp add: on_bus_def case_prod_beta)
  show "k_now_us (on_bus k) d \<le> k_now_us (on_bus k) (snd (k_dma_alloc (on_bus k) d w))" for d w
    using kernel_clock.dma_alloc_time [OF assms] by (simp add: on_bus_def case_prod_beta)
  show "k_now_us (on_bus k) d \<le> k_now_us (on_bus k) (k_dma_free (on_bus k) d w c i)" for d w c i
    using kernel_clock.dma_free_time [OF assms] by (simp add: on_bus_def case_prod_beta)
  show "k_now_us (on_bus k) d \<le> k_now_us (on_bus k) (snd (k_request_irq (on_bus k) d n))" for d n
    using kernel_clock.irq_time [OF assms] by (simp add: on_bus_def case_prod_beta)
qed

lemma on_bus_dma:
  assumes "dma_device k dinv live"
  shows "dma_device (on_bus k) (\<lambda>m. dinv (fst m) \<and> P (snd m)) (live \<circ> fst)"
proof -
  have clock: "kernel_clock (on_bus k)" using assms by (intro on_bus_clock) (simp add: dma_device_def)
  show ?thesis
  proof (intro dma_device.intro [OF clock] dma_device_axioms.intro)
    fix d :: "'a \<times> bus" and a v w n i cpu iova d'
    assume d: "dinv (fst d) \<and> P (snd d)"
    note law = dma_device.readl_live [OF assms] dma_device.readq_live [OF assms] dma_device.writel_live [OF assms]
      dma_device.writeq_live [OF assms] dma_device.usleep_live [OF assms] dma_device.idle_live [OF assms]
      dma_device.request_irq_live [OF assms] dma_device.free_irq_live [OF assms]
    let ?K = "on_bus k" and ?D = "\<lambda>m. dinv (fst m) \<and> P (snd m)" and ?L = "live \<circ> fst"
    show "?D (snd (k_readl ?K d a)) \<and> ?L (snd (k_readl ?K d a)) = ?L d"
      "?D (snd (k_readq ?K d a)) \<and> ?L (snd (k_readq ?K d a)) = ?L d"
      "?D (k_writel ?K d v a) \<and> ?L (k_writel ?K d v a) = ?L d"
      "?D (k_writeq ?K d w a) \<and> ?L (k_writeq ?K d w a) = ?L d"
      "?D (k_usleep ?K d n) \<and> ?L (k_usleep ?K d n) = ?L d" "?D (k_idle ?K d) \<and> ?L (k_idle ?K d) = ?L d"
      "?D (snd (k_request_irq ?K d i)) \<and> ?L (snd (k_request_irq ?K d i)) = ?L d"
      "?D (k_free_irq ?K d i) \<and> ?L (k_free_irq ?K d i) = ?L d"
      using d law by (simp_all add: on_bus_def case_prod_beta)
    show "?D d' \<and> ?L d' = (if cpu = 0 then ?L d else add_mset (w, cpu, iova) (?L d))"
      if "k_dma_alloc ?K d w = ((cpu, iova), d')"
      using d that dma_device.alloc_live [OF assms, of "fst d" w cpu iova]
      by (cases "k_dma_alloc k (fst d) w") (auto simp: on_bus_def case_prod_beta)
    show "?D (k_dma_free ?K d w cpu iova) \<and> ?L (k_dma_free ?K d w cpu iova) = ?L d - {#(w, cpu, iova)#}"
      if "(w, cpu, iova) \<in># ?L d"
      using d that dma_device.free_live [OF assms, of "fst d" w cpu iova] by (simp add: on_bus_def case_prod_beta)
  qed
qed

interpretation bus: platform_bus "on_bus fake_kernel" "bus_platform kBase" bus_debugfs
  "fake_dma_inv \<circ> fst" "bus_usage \<circ> snd" "fake_live \<circ> fst" bus_dirs
proof (rule platform_bus.intro)
  show "dma_device (on_bus fake_kernel) (\<lambda>d. (fake_dma_inv \<circ> fst) d \<and> (bus_usage \<circ> snd) d = u \<and> bus_dirs d = ds)
      (fake_live \<circ> fst)" for u ds
    using on_bus_dma [OF fake_dma.dma_device_axioms, of "\<lambda>b. bus_usage b = u \<and> (if bus_dir b then {1} else {}) = ds"]
    unfolding comp_apply bus_dirs_def by simp
qed (auto simp: bus_platform_def bus_debugfs_def bus_dirs_def same_books_def split: if_splits)

section \<open>Properties\<close>

text \<open>C16. Probe. Probe always returns. When it fails, for whatever reason, no device is left behind: the power usage count,
  the DMA buffers and the debugfs directories are as before. When it succeeds the driver is started and
  holds one power reference. A region too small for the mailbox registers is refused before the device
  is powered.\<close>

theorem probe_returns:
  assumes bus: "platform_bus k p f dinv usage live dirs" and d: "dinv d"
  shows "\<exists>ret agx d'. agx_probe k p f d = Some (ret, agx, d') \<and>
    (if ret = 0 then (\<exists>a. agx = Some a \<and> agx_rtbuddy_started (ad_rtbuddy a)) \<and> usage d' = usage d + 1
     else agx = None \<and> usage d' = usage d \<and> live d' = live d \<and> dirs d' = dirs d) \<and>
    (\<forall>m base sz m'. p_kzalloc p d = (True, m) \<longrightarrow> p_ioremap p m = (Inr (base, sz), m') \<longrightarrow> sz < 0x8840 \<longrightarrow>
       ret = AGX_EINVAL \<and> d' = m')"
proof -
  obtain ret agx d' where r: "agx_probe k p f d = Some (ret, agx, d')"
    and post: "if ret = 0
     then \<exists>a ds. agx = Some a \<and> d' = rb_dev (rtk_ctx (ad_rtbuddy a)) \<and> agx_rtbuddy_started (ad_rtbuddy a) \<and>
       rb_display (rtk_ctx (ad_rtbuddy a)) = Some agx_display_broker_init \<and>
       rb_owns k (\<lambda>d'. dinv d' \<and> usage d' = usage d + 1 \<and> dirs d' = ds) live (live d) (ad_rtbuddy a) \<and>
       ds - {rb_debugfs_root (rtk_ctx (ad_rtbuddy a))} = dirs d
     else agx = None \<and> same_books dinv usage live dirs d d'"
    using platform_bus.probe_outcome [OF bus d] by blast
  moreover have "ret = AGX_EINVAL \<and> d' = m'"
    if "p_kzalloc p d = (True, m)" "p_ioremap p m = (Inr (base, sz), m')" "sz < 0x8840" for m base sz m'
    using r that by (simp add: agx_probe_def AGX_MBOX_REGION_SIZE_def)
  ultimately show ?thesis
    by (cases "ret = 0") (auto simp: rb_owns_def dma_ok_def same_books_def)
qed

theorem probe_returns_witness:
  "let d = (fake_asc_init, \<lparr>bus_usage = 0, bus_dir = False, bus_region = 0x100, bus_irq = 994\<rparr>) in
   \<exists>agx d'. agx_probe (on_bus fake_kernel) (bus_platform kBase) bus_debugfs d = Some (AGX_EINVAL, agx, d') \<and>
     agx = None \<and> bus_usage (snd d') = 0"
proof -
  let ?d = "(fake_asc_init, \<lparr>bus_usage = 0, bus_dir = False, bus_region = 0x100, bus_irq = 994\<rparr>)"
  have "(fake_dma_inv \<circ> fst) ?d" by (simp add: fake_dma_inv_def fake_asc_init_def)
  moreover have "p_kzalloc (bus_platform kBase) ?d = (True, ?d)"
    "p_ioremap (bus_platform kBase) ?d = (Inr (kBase, 0x100), ?d)" by (simp_all add: bus_platform_def)
  ultimately show ?thesis
    using probe_returns [OF bus.platform_bus_axioms, of ?d] by (fastforce simp: AGX_EINVAL_def)
qed

text \<open>C8. Probe and removal balance. Whatever probe returns, a session gives everything back: either there is no device and nothing was
  kept, or the device can be removed, removal returns, and the power reference, every DMA buffer the
  firmware was given and the debugfs directory are released.\<close>

theorem probe_remove_balanced:
  assumes bus: "platform_bus k p f dinv usage live dirs" and d: "dinv d"
  shows "\<exists>ret agx d1. agx_probe k p f d = Some (ret, agx, d1) \<and>
     (case agx of
        None \<Rightarrow> ret \<noteq> 0 \<and> usage d1 = usage d \<and> live d1 = live d \<and> dirs d1 = dirs d
      | Some a \<Rightarrow> ret = 0 \<and> (\<exists>d2. agx_remove p f a = Some d2 \<and> usage d2 = usage d \<and> live d2 = live d \<and> dirs d2 = dirs d))"
proof -
  obtain ret agx d1 where r: "agx_probe k p f d = Some (ret, agx, d1)"
    and post: "if ret = 0
     then \<exists>a ds. agx = Some a \<and> d1 = rb_dev (rtk_ctx (ad_rtbuddy a)) \<and> agx_rtbuddy_started (ad_rtbuddy a) \<and>
       rb_display (rtk_ctx (ad_rtbuddy a)) = Some agx_display_broker_init \<and>
       rb_owns k (\<lambda>d'. dinv d' \<and> usage d' = usage d + 1 \<and> dirs d' = ds) live (live d) (ad_rtbuddy a) \<and>
       ds - {rb_debugfs_root (rtk_ctx (ad_rtbuddy a))} = dirs d
     else agx = None \<and> same_books dinv usage live dirs d d1"
    using platform_bus.probe_outcome [OF bus d] by blast
  show ?thesis
  proof (cases "ret = 0")
    case True
    with post obtain a ds where a: "agx = Some a" "rb_display (rtk_ctx (ad_rtbuddy a)) = Some agx_display_broker_init"
      "rb_owns k (\<lambda>d'. dinv d' \<and> usage d' = usage d + 1 \<and> dirs d' = ds) live (live d) (ad_rtbuddy a)"
      "ds - {rb_debugfs_root (rtk_ctx (ad_rtbuddy a))} = dirs d" by auto
    from platform_bus.teardown_outcome [OF bus a(3,2,4)] a(1) True r show ?thesis
      by (auto simp: agx_remove_def same_books_def)
  next
    case False
    with r post show ?thesis by (auto simp: same_books_def)
  qed
qed

theorem probe_remove_balanced_witness:
  "let d = (fake_asc_init, \<lparr>bus_usage = 0, bus_dir = False, bus_region = 0x88000, bus_irq = 994\<rparr>) in
   \<exists>ret agx d1. agx_probe (on_bus fake_kernel) (bus_platform kBase) bus_debugfs d = Some (ret, agx, d1) \<and>
     (case agx of None \<Rightarrow> ret \<noteq> 0 \<and> bus_usage (snd d1) = 0
      | Some a \<Rightarrow> \<exists>d2. agx_remove (bus_platform kBase) bus_debugfs a = Some d2 \<and> bus_usage (snd d2) = 0 \<and> fake_live (fst d2) = {#})"
proof -
  let ?d = "(fake_asc_init, \<lparr>bus_usage = 0, bus_dir = False, bus_region = 0x88000, bus_irq = 994\<rparr>)"
  have "(fake_dma_inv \<circ> fst) ?d" "fake_live fake_asc_init = {#}"
    by (simp_all add: fake_dma_inv_def fake_live_def fake_asc_init_def)
  moreover from this obtain ret agx d1 where
    "agx_probe (on_bus fake_kernel) (bus_platform kBase) bus_debugfs ?d = Some (ret, agx, d1)" and
    "case agx of
        None \<Rightarrow> ret \<noteq> 0 \<and> (bus_usage \<circ> snd) d1 = (bus_usage \<circ> snd) ?d \<and> (fake_live \<circ> fst) d1 = (fake_live \<circ> fst) ?d \<and>
          bus_dirs d1 = bus_dirs ?d
      | Some a \<Rightarrow> ret = 0 \<and> (\<exists>d2. agx_remove (bus_platform kBase) bus_debugfs a = Some d2 \<and>
          (bus_usage \<circ> snd) d2 = (bus_usage \<circ> snd) ?d \<and> (fake_live \<circ> fst) d2 = (fake_live \<circ> fst) ?d \<and>
          bus_dirs d2 = bus_dirs ?d)"
    using probe_remove_balanced [OF bus.platform_bus_axioms, of ?d] by blast
  ultimately show ?thesis by (cases agx; cases d1) auto
qed

end
