(* ===== verification/Handoff.thy ===== *)
theory Handoff
  imports Agx_Prelude
begin

text \<open>
  The handoff structure of \<^verbatim>\<open>src/gfxhandoff.c\<close>, through which the AP and the GPU firmware share the page tables: a two-party
  lock, the exchange of magic numbers and the cache flush slots. The accessors are the callbacks of
  \<^verbatim>\<open>struct agx_handoff_ops\<close>, a parameter here, on a context \<open>'m\<close> that holds the memory and the firmware: any
  access may find the memory changed by the other side. Every spinning loop is a partial function, and
  the spin counter is a 32-bit word, as in the code.
\<close>

section \<open>Layout\<close>

definition AGX_HANDOFF_MAGIC :: u64 where "AGX_HANDOFF_MAGIC = 0x4b1d000000000002"
definition AGX_HANDOFF_OFF_MAGIC_AP :: u32 where "AGX_HANDOFF_OFF_MAGIC_AP = 0x00"
definition AGX_HANDOFF_OFF_MAGIC_FW :: u32 where "AGX_HANDOFF_OFF_MAGIC_FW = 0x08"
definition AGX_HANDOFF_OFF_LOCK_AP :: u32 where "AGX_HANDOFF_OFF_LOCK_AP = 0x10"
definition AGX_HANDOFF_OFF_LOCK_FW :: u32 where "AGX_HANDOFF_OFF_LOCK_FW = 0x11"
definition AGX_HANDOFF_OFF_TURN :: u32 where "AGX_HANDOFF_OFF_TURN = 0x14"
definition AGX_HANDOFF_OFF_CUR_CTX :: u32 where "AGX_HANDOFF_OFF_CUR_CTX = 0x18"
definition AGX_HANDOFF_OFF_FLUSH :: "u32 \<Rightarrow> u32" where "AGX_HANDOFF_OFF_FLUSH ctx = 0x20 + 0x18 * ctx"
definition AGX_HANDOFF_OFF_FLUSH_STATE :: "u32 \<Rightarrow> u32" where "AGX_HANDOFF_OFF_FLUSH_STATE ctx = AGX_HANDOFF_OFF_FLUSH ctx"
definition AGX_HANDOFF_OFF_FLUSH_ADDR :: "u32 \<Rightarrow> u32" where "AGX_HANDOFF_OFF_FLUSH_ADDR ctx = AGX_HANDOFF_OFF_FLUSH ctx + 0x08"
definition AGX_HANDOFF_OFF_FLUSH_SIZE :: "u32 \<Rightarrow> u32" where "AGX_HANDOFF_OFF_FLUSH_SIZE ctx = AGX_HANDOFF_OFF_FLUSH ctx + 0x10"
definition AGX_HANDOFF_FLUSH_SLOTS :: u32 where "AGX_HANDOFF_FLUSH_SLOTS = 0x41"
definition AGX_HANDOFF_KERNEL_FLUSH_CTX :: u32 where "AGX_HANDOFF_KERNEL_FLUSH_CTX = 0x40"
definition AGX_HANDOFF_SIZE :: u32 where "AGX_HANDOFF_SIZE = 0x648"
definition AGX_HANDOFF_FLUSH_IDLE :: u64 where "AGX_HANDOFF_FLUSH_IDLE = 0"
definition AGX_HANDOFF_FLUSH_BUSY :: u64 where "AGX_HANDOFF_FLUSH_BUSY = 1"
definition AGX_HANDOFF_FLUSH_DONE :: u64 where "AGX_HANDOFF_FLUSH_DONE = 2"
definition AGX_HANDOFF_UNMAP_TAG :: u64 where "AGX_HANDOFF_UNMAP_TAG = 0xdead000000000000"
definition AGX_HANDOFF_UNMAP_ADDR_MASK :: u64 where "AGX_HANDOFF_UNMAP_ADDR_MASK = 0xffffffffffff"

section \<open>State and accessors\<close>

record 'm agx_handoff_ops =
  ho_read8 :: "'m \<Rightarrow> u32 \<Rightarrow> u8 \<times> 'm"
  ho_write8 :: "'m \<Rightarrow> u32 \<Rightarrow> u8 \<Rightarrow> 'm"
  ho_read32 :: "'m \<Rightarrow> u32 \<Rightarrow> u32 \<times> 'm"
  ho_write32 :: "'m \<Rightarrow> u32 \<Rightarrow> u32 \<Rightarrow> 'm"
  ho_read64 :: "'m \<Rightarrow> u32 \<Rightarrow> u64 \<times> 'm"
  ho_write64 :: "'m \<Rightarrow> u32 \<Rightarrow> u64 \<Rightarrow> 'm"
  ho_relax :: "('m \<Rightarrow> 'm) option"
  ho_barrier :: "('m \<Rightarrow> 'm) option"

record 'm agx_handoff =
  ho_ops :: "'m agx_handoff_ops"
  ho_ctx :: 'm
  ho_locked :: bool
  ho_initialized :: bool

text \<open>An access through the callbacks, with the context it leaves.\<close>

definition rd8 :: "'m agx_handoff \<Rightarrow> u32 \<Rightarrow> u8 \<times> 'm agx_handoff" where
  "rd8 ho off = (let (v, m) = ho_read8 (ho_ops ho) (ho_ctx ho) off in (v, ho\<lparr>ho_ctx := m\<rparr>))"

definition rd32 :: "'m agx_handoff \<Rightarrow> u32 \<Rightarrow> u32 \<times> 'm agx_handoff" where
  "rd32 ho off = (let (v, m) = ho_read32 (ho_ops ho) (ho_ctx ho) off in (v, ho\<lparr>ho_ctx := m\<rparr>))"

definition rd64 :: "'m agx_handoff \<Rightarrow> u32 \<Rightarrow> u64 \<times> 'm agx_handoff" where
  "rd64 ho off = (let (v, m) = ho_read64 (ho_ops ho) (ho_ctx ho) off in (v, ho\<lparr>ho_ctx := m\<rparr>))"

definition wr8 :: "'m agx_handoff \<Rightarrow> u32 \<Rightarrow> u8 \<Rightarrow> 'm agx_handoff" where
  "wr8 ho off v = ho\<lparr>ho_ctx := ho_write8 (ho_ops ho) (ho_ctx ho) off v\<rparr>"

definition wr32 :: "'m agx_handoff \<Rightarrow> u32 \<Rightarrow> u32 \<Rightarrow> 'm agx_handoff" where
  "wr32 ho off v = ho\<lparr>ho_ctx := ho_write32 (ho_ops ho) (ho_ctx ho) off v\<rparr>"

definition wr64 :: "'m agx_handoff \<Rightarrow> u32 \<Rightarrow> u64 \<Rightarrow> 'm agx_handoff" where
  "wr64 ho off v = ho\<lparr>ho_ctx := ho_write64 (ho_ops ho) (ho_ctx ho) off v\<rparr>"

definition agx_handoff_relax :: "'m agx_handoff \<Rightarrow> 'm agx_handoff" where
  "agx_handoff_relax ho = (case ho_relax (ho_ops ho) of None \<Rightarrow> ho | Some f \<Rightarrow> ho\<lparr>ho_ctx := f (ho_ctx ho)\<rparr>)"

definition agx_handoff_barrier :: "'m agx_handoff \<Rightarrow> 'm agx_handoff" where
  "agx_handoff_barrier ho = (case ho_barrier (ho_ops ho) of None \<Rightarrow> ho | Some f \<Rightarrow> ho\<lparr>ho_ctx := f (ho_ctx ho)\<rparr>)"

definition agx_handoff_init :: "'m agx_handoff_ops \<Rightarrow> 'm \<Rightarrow> 'm agx_handoff" where
  "agx_handoff_init ops ctx = \<lparr>ho_ops = ops, ho_ctx = ctx, ho_locked = False, ho_initialized = False\<rparr>"

text \<open>\<^verbatim>\<open>max_spins && ++spins > max_spins\<close>: whether the limit is passed, and the counter after it.\<close>

definition spin :: "u32 \<Rightarrow> u32 \<Rightarrow> bool \<times> u32" where
  "spin max_spins spins = (if max_spins = 0 then (False, spins) else (spins + 1 > max_spins, spins + 1))"

section \<open>The lock\<close>

text \<open>The inner loop: whether it timed out, the counter and the state.\<close>

partial_function (option) lock_turn ::
  "u32 \<Rightarrow> u32 \<Rightarrow> 'm agx_handoff \<Rightarrow> (bool \<times> u32 \<times> 'm agx_handoff) option" where
  "lock_turn max_spins spins ho =
     (let (turn, ho) = rd32 ho AGX_HANDOFF_OFF_TURN
      in if turn = 0 then Some (False, spins, ho)
         else let (over, spins) = spin max_spins spins
              in if over then Some (True, spins, ho)
                 else lock_turn max_spins spins (agx_handoff_relax ho))"

text \<open>The branch taken when it is the firmware's turn.\<close>

definition lock_yield :: "u32 \<Rightarrow> u32 \<Rightarrow> 'm agx_handoff \<Rightarrow> (bool \<times> u32 \<times> 'm agx_handoff) option" where
  "lock_yield max_spins spins ho =
     (let (turn, ho) = rd32 ho AGX_HANDOFF_OFF_TURN
      in if turn = 0 then Some (False, spins, ho)
         else do {
           let ho = agx_handoff_barrier (wr8 ho AGX_HANDOFF_OFF_LOCK_AP 0);
           (over, spins, ho) \<leftarrow> lock_turn max_spins spins ho;
           if over then Some (True, spins, ho)
           else Some (False, spins, agx_handoff_barrier (wr8 ho AGX_HANDOFF_OFF_LOCK_AP 1))
         })"

partial_function (option) lock_loop ::
  "u32 \<Rightarrow> u32 \<Rightarrow> 'm agx_handoff \<Rightarrow> (int \<times> 'm agx_handoff) option" where
  "lock_loop max_spins spins ho =
     (let (fw, ho) = rd8 ho AGX_HANDOFF_OFF_LOCK_FW
      in if fw = 0 then Some (0, (agx_handoff_barrier ho)\<lparr>ho_locked := True\<rparr>)
         else do {
           (over, spins, ho) \<leftarrow> lock_yield max_spins spins ho;
           if over then Some (AGX_ETIMEDOUT, ho)
           else let (over, spins) = spin max_spins spins
                in if over then Some (AGX_ETIMEDOUT, agx_handoff_barrier (wr8 ho AGX_HANDOFF_OFF_LOCK_AP 0))
                   else lock_loop max_spins spins (agx_handoff_relax ho)
         })"

definition agx_handoff_lock :: "'m agx_handoff \<Rightarrow> u32 \<Rightarrow> (int \<times> 'm agx_handoff) option" where
  "agx_handoff_lock ho max_spins =
     lock_loop max_spins 0 (agx_handoff_barrier (wr8 ho AGX_HANDOFF_OFF_LOCK_AP 1))"

definition agx_handoff_unlock :: "'m agx_handoff \<Rightarrow> 'm agx_handoff" where
  "agx_handoff_unlock ho =
     (let ho = agx_handoff_barrier ho;
          ho = wr32 ho AGX_HANDOFF_OFF_TURN 1;
          ho = agx_handoff_barrier ho;
          ho = wr8 ho AGX_HANDOFF_OFF_LOCK_AP 0;
          ho = agx_handoff_barrier ho
      in ho\<lparr>ho_locked := False\<rparr>)"

section \<open>The magic exchange\<close>

partial_function (option) magic_loop ::
  "u32 \<Rightarrow> u32 \<Rightarrow> 'm agx_handoff \<Rightarrow> (bool \<times> 'm agx_handoff) option" where
  "magic_loop max_spins spins ho =
     (let (magic, ho) = rd64 ho AGX_HANDOFF_OFF_MAGIC_FW
      in if magic = AGX_HANDOFF_MAGIC then Some (False, ho)
         else let (over, spins) = spin max_spins spins
              in if over then Some (True, agx_handoff_unlock ho)
                 else magic_loop max_spins spins (agx_handoff_relax ho))"

definition clear_slot :: "u32 \<Rightarrow> 'm agx_handoff \<Rightarrow> 'm agx_handoff" where
  "clear_slot slot ho =
     wr64 (wr64 (wr64 ho (AGX_HANDOFF_OFF_FLUSH_STATE slot) 0) (AGX_HANDOFF_OFF_FLUSH_ADDR slot) 0)
       (AGX_HANDOFF_OFF_FLUSH_SIZE slot) 0"

definition agx_handoff_wait_firmware :: "'m agx_handoff \<Rightarrow> u32 \<Rightarrow> (int \<times> 'm agx_handoff) option" where
  "agx_handoff_wait_firmware ho max_spins = do {
     let ho = wr64 ho AGX_HANDOFF_OFF_MAGIC_AP AGX_HANDOFF_MAGIC;
     (ret, ho) \<leftarrow> agx_handoff_lock ho max_spins;
     if ret \<noteq> 0 then Some (ret, ho)
     else do {
       (over, ho) \<leftarrow> magic_loop max_spins 0 ho;
       if over then Some (AGX_ETIMEDOUT, ho)
       else let ho = agx_handoff_unlock ho;
                ho = fold clear_slot (map of_nat [0..<unat AGX_HANDOFF_FLUSH_SLOTS]) ho
            in Some (0, ho\<lparr>ho_initialized := True\<rparr>)
     }
   }"

section \<open>Flush slots\<close>

definition agx_handoff_prepare_cacheflush ::
  "'m agx_handoff \<Rightarrow> u32 \<Rightarrow> u64 \<Rightarrow> u64 \<Rightarrow> int \<times> 'm agx_handoff" where
  "agx_handoff_prepare_cacheflush ho context base bytes =
     (if context \<ge> AGX_HANDOFF_FLUSH_SLOTS then (AGX_EINVAL, ho)
      else let (state, ho) = rd64 ho (AGX_HANDOFF_OFF_FLUSH_STATE context)
           in if state \<noteq> 0 then (AGX_EINVAL, ho)
              else let ho = wr64 ho (AGX_HANDOFF_OFF_FLUSH_ADDR context) base;
                       ho = wr64 ho (AGX_HANDOFF_OFF_FLUSH_SIZE context) bytes;
                       ho = wr64 ho (AGX_HANDOFF_OFF_FLUSH_STATE context) AGX_HANDOFF_FLUSH_BUSY
                   in (0, ho))"

partial_function (option) flush_loop ::
  "u32 \<Rightarrow> u32 \<Rightarrow> u32 \<Rightarrow> 'm agx_handoff \<Rightarrow> (int \<times> 'm agx_handoff) option" where
  "flush_loop context max_spins spins ho =
     (let (state, ho) = rd64 ho (AGX_HANDOFF_OFF_FLUSH_STATE context)
      in if state \<noteq> AGX_HANDOFF_FLUSH_BUSY then Some (0, ho)
         else let (over, spins) = spin max_spins spins
              in if over then Some (AGX_ETIMEDOUT, ho)
                 else flush_loop context max_spins spins (agx_handoff_relax ho))"

definition agx_handoff_wait_cacheflush ::
  "'m agx_handoff \<Rightarrow> u32 \<Rightarrow> u32 \<Rightarrow> (int \<times> 'm agx_handoff) option" where
  "agx_handoff_wait_cacheflush ho context max_spins =
     (if context \<ge> AGX_HANDOFF_FLUSH_SLOTS then Some (AGX_EINVAL, ho)
      else flush_loop context max_spins 0 ho)"

definition agx_handoff_complete_cacheflush :: "'m agx_handoff \<Rightarrow> u32 \<Rightarrow> int \<times> 'm agx_handoff" where
  "agx_handoff_complete_cacheflush ho context =
     (if context \<ge> AGX_HANDOFF_FLUSH_SLOTS then (AGX_EINVAL, ho)
      else let (state, ho) = rd64 ho (AGX_HANDOFF_OFF_FLUSH_STATE context)
           in if state \<noteq> AGX_HANDOFF_FLUSH_DONE then (AGX_EINVAL, ho)
              else (0, wr64 ho (AGX_HANDOFF_OFF_FLUSH_STATE context) 0))"

definition agx_handoff_prepare_unmap ::
  "'m agx_handoff \<Rightarrow> u32 \<Rightarrow> u64 \<Rightarrow> u64 \<Rightarrow> int \<times> 'm agx_handoff" where
  "agx_handoff_prepare_unmap ho context base bytes =
     (if context \<ge> AGX_HANDOFF_FLUSH_SLOTS then (AGX_EINVAL, ho)
      else let (state, ho) = rd64 ho (AGX_HANDOFF_OFF_FLUSH_STATE context)
           in if state \<noteq> 0 then (AGX_EINVAL, ho)
              else let ho = wr64 ho (AGX_HANDOFF_OFF_FLUSH_ADDR context)
                              (AGX_HANDOFF_UNMAP_TAG OR (base AND AGX_HANDOFF_UNMAP_ADDR_MASK));
                       ho = wr64 ho (AGX_HANDOFF_OFF_FLUSH_SIZE context) bytes;
                       ho = wr64 ho (AGX_HANDOFF_OFF_FLUSH_STATE context) AGX_HANDOFF_FLUSH_DONE
                   in (0, ho))"

definition agx_handoff_complete_unmap :: "'m agx_handoff \<Rightarrow> u32 \<Rightarrow> int \<times> 'm agx_handoff" where
  "agx_handoff_complete_unmap ho context =
     (if context \<ge> AGX_HANDOFF_FLUSH_SLOTS then (AGX_EINVAL, ho)
      else let (state, ho) = rd64 ho (AGX_HANDOFF_OFF_FLUSH_STATE context)
           in if state \<noteq> AGX_HANDOFF_FLUSH_DONE then (AGX_EINVAL, ho)
              else (0, wr64 ho (AGX_HANDOFF_OFF_FLUSH_STATE context) 0))"

end
