(* ===== verification/Handoff_Machine.thy ===== *)
theory Handoff_Machine
  imports Handoff
begin

text \<open>
  The machine on which the handoff code is checked, from \<^verbatim>\<open>tests/handoff_test.cpp\<close>: the bytes of \<open>FakeHandoff\<close>, read and written
  little endian, and the firmware threads of the tests, which run between the accesses of the AP. A schedule says which
  firmware threads move before each access, so a statement for every schedule is one for every interleaving. The memory is
  sequentially consistent, as the accesses of the test are; an access outside the \<open>AGX_HANDOFF_SIZE\<close> bytes or off its alignment is recorded
  as a fault. The last section reads the bytes as the cells of the structure.
\<close>

section \<open>Bytes\<close>

fun load_le :: "nat \<Rightarrow> (u32 \<Rightarrow> u8) \<Rightarrow> u32 \<Rightarrow> 'a :: len word" where
  "load_le 0 b off = 0"
| "load_le (Suc n) b off = ucast (b off) OR push_bit 8 (load_le n b (off + 1))"

definition store_le :: "nat \<Rightarrow> (u32 \<Rightarrow> u8) \<Rightarrow> u32 \<Rightarrow> 'a :: len word \<Rightarrow> u32 \<Rightarrow> u8" where
  "store_le n b off v = (\<lambda>a. if unat (a - off) < n then ucast (drop_bit (8 * unat (a - off)) v) else b a)"

lemma bit_load_le:
  "bit (load_le n b off :: 'a :: len word) i \<longleftrightarrow> i < 8 * n \<and> i < LENGTH('a) \<and> bit (b (off + of_nat (i div 8))) (i mod 8)"
proof (induction n arbitrary: off i)
  case (Suc n)
  show ?case
  proof (cases "i < 8")
    case True
    then show ?thesis by (simp add: bit_simps)
  next
    case False
    then have "i div 8 = Suc ((i - 8) div 8)" "i mod 8 = (i - 8) mod 8"
      by (simp_all add: le_div_geq le_mod_geq)
    with False Suc [of "off + 1" "i - 8"] show ?thesis
      by (auto simp: bit_simps algebra_simps dest: bit_imp_le_length)
  qed
qed simp

text \<open>Two ranges of bytes that do not meet and do not wrap.\<close>

definition apart :: "u32 \<Rightarrow> nat \<Rightarrow> u32 \<Rightarrow> nat \<Rightarrow> bool" where
  "apart a n b m \<longleftrightarrow> unat a + n \<le> 2 ^ 32 \<and> unat b + m \<le> 2 ^ 32 \<and> (unat a + n \<le> unat b \<or> unat b + m \<le> unat a)"

lemma load_store_same:
  assumes "LENGTH('a) = 8 * n" and "n \<le> 2 ^ 32"
  shows "load_le n (store_le n b off v) off = (v :: 'a :: len word)"
proof (rule bit_word_eqI)
  fix i assume i: "i < LENGTH('a)"
  then have "i div 8 < n" using assms(1) by auto
  moreover from this have "unat (of_nat (i div 8) :: u32) = i div 8"
    using assms(2) by (simp add: unsigned_of_nat take_bit_nat_eq_self)
  moreover have "8 * (i div 8) + i mod 8 = i" by simp
  ultimately show "bit (load_le n (store_le n b off v) off :: 'a word) i = bit v i"
    using i assms by (auto simp: bit_load_le store_le_def bit_simps div_less_iff_less_mult mult.commute)
qed

lemma load_store_other:
  assumes "apart off n off' m"
  shows "load_le n (store_le m b off' v) off = load_le n b off"
proof (rule bit_word_eqI)
  fix i
  have out: "\<not> unat (off + of_nat j - off') < m" if j: "j < n" for j
  proof -
    have "unat (off + of_nat j) = unat off + j"
      using assms j by (simp add: apart_def unat_word_ariths unsigned_of_nat take_bit_nat_eq_self take_bit_eq_mod)
    then show ?thesis
      using assms j by (auto simp: apart_def unat_sub_if_size word_size)
  qed
  show "bit (load_le n (store_le m b off' v) off :: 'a word) i = bit (load_le n b off :: 'a word) i"
    if "i < LENGTH('a)"
    using out [of "i div 8"] by (auto simp: bit_load_le store_le_def div_less_iff_less_mult mult.commute)
qed

lemma store_le_other: "apart off 1 off' m \<Longrightarrow> store_le m b off' v off = b off"
  by (auto simp: store_le_def apart_def unat_sub_if_size word_size)

lemma load_le_byte [simp]: "load_le (Suc 0) b off = b off"
  by simp

section \<open>Firmware and machine\<close>

text \<open>Where the firmware thread of the mutual exclusion test is, by the access it makes next.\<close>

datatype fw_pc = Fw_raise | Fw_check | Fw_turn | Fw_drop | Fw_wait | Fw_reraise | Fw_inside | Fw_give | Fw_release

text \<open>A move of one firmware thread, one access to the memory: of the lock thread, of the thread that answers the magic number, of the
  thread that flushes a slot.\<close>

datatype fw_move = Move_lock | Move_magic | Move_flush u32

record handoff_sys =
  hs_bytes :: "u32 \<Rightarrow> u8"
  hs_fw :: fw_pc
  hs_magic_seen :: bool
  hs_flush_seen :: "u32 \<Rightarrow> bool"
  hs_flushed :: "(u32 \<times> u64 \<times> u64) list"
  hs_sched :: "nat \<Rightarrow> fw_move list"
  hs_time :: nat
  hs_fault :: bool

definition put8 :: "u32 \<Rightarrow> u8 \<Rightarrow> handoff_sys \<Rightarrow> handoff_sys" where
  "put8 off v m = m\<lparr>hs_bytes := store_le 1 (hs_bytes m) off v\<rparr>"

definition put32 :: "u32 \<Rightarrow> u32 \<Rightarrow> handoff_sys \<Rightarrow> handoff_sys" where
  "put32 off v m = m\<lparr>hs_bytes := store_le 4 (hs_bytes m) off v\<rparr>"

definition put64 :: "u32 \<Rightarrow> u64 \<Rightarrow> handoff_sys \<Rightarrow> handoff_sys" where
  "put64 off v m = m\<lparr>hs_bytes := store_le 8 (hs_bytes m) off v\<rparr>"

definition get8 :: "u32 \<Rightarrow> handoff_sys \<Rightarrow> u8" where "get8 off m = load_le 1 (hs_bytes m) off"
definition get32 :: "u32 \<Rightarrow> handoff_sys \<Rightarrow> u32" where "get32 off m = load_le 4 (hs_bytes m) off"
definition get64 :: "u32 \<Rightarrow> handoff_sys \<Rightarrow> u64" where "get64 off m = load_le 8 (hs_bytes m) off"

text \<open>\<^verbatim>\<open>MirroredFirmwareLock\<close>, one access at a time, inside the loop of the test that locks and unlocks again and again.\<close>

definition fw_lock_step :: "handoff_sys \<Rightarrow> handoff_sys" where
  "fw_lock_step m = (case hs_fw m of
     Fw_raise \<Rightarrow> (put8 AGX_HANDOFF_OFF_LOCK_FW 1 m)\<lparr>hs_fw := Fw_check\<rparr>
   | Fw_check \<Rightarrow> m\<lparr>hs_fw := if get8 AGX_HANDOFF_OFF_LOCK_AP m \<noteq> 0 then Fw_turn else Fw_inside\<rparr>
   | Fw_turn \<Rightarrow> m\<lparr>hs_fw := if get32 AGX_HANDOFF_OFF_TURN m = 0 then Fw_drop else Fw_check\<rparr>
   | Fw_drop \<Rightarrow> (put8 AGX_HANDOFF_OFF_LOCK_FW 0 m)\<lparr>hs_fw := Fw_wait\<rparr>
   | Fw_wait \<Rightarrow> m\<lparr>hs_fw := if get32 AGX_HANDOFF_OFF_TURN m = 0 then Fw_wait else Fw_reraise\<rparr>
   | Fw_reraise \<Rightarrow> (put8 AGX_HANDOFF_OFF_LOCK_FW 1 m)\<lparr>hs_fw := Fw_check\<rparr>
   | Fw_inside \<Rightarrow> m\<lparr>hs_fw := Fw_give\<rparr>
   | Fw_give \<Rightarrow> (put32 AGX_HANDOFF_OFF_TURN 0 m)\<lparr>hs_fw := Fw_release\<rparr>
   | Fw_release \<Rightarrow> (put8 AGX_HANDOFF_OFF_LOCK_FW 0 m)\<lparr>hs_fw := Fw_raise\<rparr>)"

text \<open>The thread of the magic test: it polls for the number of the AP and, once it has seen it, answers.\<close>

definition fw_magic_step :: "handoff_sys \<Rightarrow> handoff_sys" where
  "fw_magic_step m =
     (if hs_magic_seen m then (put64 AGX_HANDOFF_OFF_MAGIC_FW AGX_HANDOFF_MAGIC m)\<lparr>hs_magic_seen := False\<rparr>
      else m\<lparr>hs_magic_seen := (get64 AGX_HANDOFF_OFF_MAGIC_AP m = AGX_HANDOFF_MAGIC)\<rparr>)"

text \<open>The thread of the cache flush test, one for every slot: it polls until the slot is busy and then, after the flush, stores that it
  is done. The list \<open>hs_flushed\<close>, which nothing reads, notes the range that the slot held then.\<close>

definition fw_flush_step :: "u32 \<Rightarrow> handoff_sys \<Rightarrow> handoff_sys" where
  "fw_flush_step c m =
     (if c \<ge> AGX_HANDOFF_FLUSH_SLOTS then m
      else if hs_flush_seen m c
      then (put64 (AGX_HANDOFF_OFF_FLUSH_STATE c) AGX_HANDOFF_FLUSH_DONE m)
             \<lparr>hs_flush_seen := (hs_flush_seen m)(c := False),
              hs_flushed := hs_flushed m
                @ [(c, get64 (AGX_HANDOFF_OFF_FLUSH_ADDR c) m, get64 (AGX_HANDOFF_OFF_FLUSH_SIZE c) m)]\<rparr>
      else m\<lparr>hs_flush_seen := (hs_flush_seen m)(c := (get64 (AGX_HANDOFF_OFF_FLUSH_STATE c) m = AGX_HANDOFF_FLUSH_BUSY))\<rparr>)"

fun fw_move_step :: "fw_move \<Rightarrow> handoff_sys \<Rightarrow> handoff_sys" where
  "fw_move_step Move_lock m = fw_lock_step m"
| "fw_move_step Move_magic m = fw_magic_step m"
| "fw_move_step (Move_flush c) m = fw_flush_step c m"

definition fw_run :: "handoff_sys \<Rightarrow> handoff_sys" where
  "fw_run m = (fold fw_move_step (hs_sched m (hs_time m)) m)\<lparr>hs_time := hs_time m + 1\<rparr>"

text \<open>An access of the AP: the firmware moves first, then the access is checked against the array.\<close>

definition touch :: "nat \<Rightarrow> u32 \<Rightarrow> handoff_sys \<Rightarrow> handoff_sys" where
  "touch n off m =
     (let m = fw_run m
      in m\<lparr>hs_fault := hs_fault m \<or> unat off + n > unat AGX_HANDOFF_SIZE \<or> unat off mod n \<noteq> 0\<rparr>)"

definition kOps :: "handoff_sys agx_handoff_ops" where
  "kOps = \<lparr>
     ho_read8 = \<lambda>m off. (let m = touch 1 off m in (get8 off m, m)),
     ho_write8 = \<lambda>m off v. put8 off v (touch 1 off m),
     ho_read32 = \<lambda>m off. (let m = touch 4 off m in (get32 off m, m)),
     ho_write32 = \<lambda>m off v. put32 off v (touch 4 off m),
     ho_read64 = \<lambda>m off. (let m = touch 8 off m in (get64 off m, m)),
     ho_write64 = \<lambda>m off v. put64 off v (touch 8 off m),
     ho_relax = Some fw_run,
     ho_barrier = Some (\<lambda>m. m)\<rparr>"

definition fake_handoff :: "(nat \<Rightarrow> fw_move list) \<Rightarrow> handoff_sys" where
  "fake_handoff sched = \<lparr>hs_bytes = \<lambda>_. 0, hs_fw = Fw_raise, hs_magic_seen = False, hs_flush_seen = \<lambda>_. False, hs_flushed = [], hs_sched = sched, hs_time = 0, hs_fault = False\<rparr>"

section \<open>Cells of the structure\<close>

text \<open>What the bytes hold, cell by cell; a flush slot is its state, address and size.\<close>

definition ap_flag :: "handoff_sys \<Rightarrow> u8" where "ap_flag m = get8 AGX_HANDOFF_OFF_LOCK_AP m"
definition fw_flag :: "handoff_sys \<Rightarrow> u8" where "fw_flag m = get8 AGX_HANDOFF_OFF_LOCK_FW m"
definition turn_cell :: "handoff_sys \<Rightarrow> u32" where "turn_cell m = get32 AGX_HANDOFF_OFF_TURN m"
definition magic_ap :: "handoff_sys \<Rightarrow> u64" where "magic_ap m = get64 AGX_HANDOFF_OFF_MAGIC_AP m"
definition magic_fw :: "handoff_sys \<Rightarrow> u64" where "magic_fw m = get64 AGX_HANDOFF_OFF_MAGIC_FW m"

definition slot :: "handoff_sys \<Rightarrow> u32 \<Rightarrow> u64 \<times> u64 \<times> u64" where
  "slot m c =
     (get64 (AGX_HANDOFF_OFF_FLUSH_STATE c) m, get64 (AGX_HANDOFF_OFF_FLUSH_ADDR c) m, get64 (AGX_HANDOFF_OFF_FLUSH_SIZE c) m)"

definition flush_state :: "handoff_sys \<Rightarrow> u32 \<Rightarrow> u64" where "flush_state m c = fst (slot m c)"

named_theorems handoff_cell "what an access does to each cell"

lemmas cell_defs = ap_flag_def fw_flag_def turn_cell_def magic_ap_def magic_fw_def slot_def

lemma unat_offsets:
  "unat AGX_HANDOFF_OFF_MAGIC_AP = 0" "unat AGX_HANDOFF_OFF_MAGIC_FW = 8" "unat AGX_HANDOFF_OFF_LOCK_AP = 16"
  "unat AGX_HANDOFF_OFF_LOCK_FW = 17" "unat AGX_HANDOFF_OFF_TURN = 20" "unat AGX_HANDOFF_SIZE = 1608"
  by (simp_all add: AGX_HANDOFF_OFF_MAGIC_AP_def AGX_HANDOFF_OFF_MAGIC_FW_def AGX_HANDOFF_OFF_LOCK_AP_def
      AGX_HANDOFF_OFF_LOCK_FW_def AGX_HANDOFF_OFF_TURN_def AGX_HANDOFF_SIZE_def)

lemma slot_less: "c < AGX_HANDOFF_FLUSH_SLOTS \<longleftrightarrow> unat c < 65"
  by (simp add: AGX_HANDOFF_FLUSH_SLOTS_def word_less_nat_alt)

lemma unat_slot_offsets:
  assumes "c < AGX_HANDOFF_FLUSH_SLOTS"
  shows "unat (AGX_HANDOFF_OFF_FLUSH_STATE c) = 32 + 24 * unat c"
    "unat (AGX_HANDOFF_OFF_FLUSH_ADDR c) = 40 + 24 * unat c"
    "unat (AGX_HANDOFF_OFF_FLUSH_SIZE c) = 48 + 24 * unat c"
  using assms
  by (simp_all add: slot_less AGX_HANDOFF_OFF_FLUSH_STATE_def AGX_HANDOFF_OFF_FLUSH_ADDR_def
      AGX_HANDOFF_OFF_FLUSH_SIZE_def AGX_HANDOFF_OFF_FLUSH_def unat_word_ariths)

lemma get_put_same:
  "get8 off (put8 off x m) = x" "get32 off (put32 off y m) = y" "get64 off (put64 off z m) = z"
  by (simp_all add: get8_def put8_def get32_def put32_def get64_def put64_def load_store_same
      del: load_le_byte load_le.simps One_nat_def)

lemma get_put_other:
  "apart off 1 off' 1 \<Longrightarrow> get8 off (put8 off' x m) = get8 off m"
  "apart off 1 off' 4 \<Longrightarrow> get8 off (put32 off' y m) = get8 off m"
  "apart off 1 off' 8 \<Longrightarrow> get8 off (put64 off' z m) = get8 off m"
  "apart off 4 off' 1 \<Longrightarrow> get32 off (put8 off' x m) = get32 off m"
  "apart off 4 off' 4 \<Longrightarrow> get32 off (put32 off' y m) = get32 off m"
  "apart off 4 off' 8 \<Longrightarrow> get32 off (put64 off' z m) = get32 off m"
  "apart off 8 off' 1 \<Longrightarrow> get64 off (put8 off' x m) = get64 off m"
  "apart off 8 off' 4 \<Longrightarrow> get64 off (put32 off' y m) = get64 off m"
  "apart off 8 off' 8 \<Longrightarrow> get64 off (put64 off' z m) = get64 off m"
  by (simp_all add: get8_def put8_def get32_def put32_def get64_def put64_def load_store_other
      del: load_le_byte load_le.simps One_nat_def)

lemmas lock_put_simps = cell_defs get_put_same get_put_other apart_def unat_offsets

lemma put_ap [handoff_cell]:
  "ap_flag (put8 AGX_HANDOFF_OFF_LOCK_AP v m) = v" "fw_flag (put8 AGX_HANDOFF_OFF_LOCK_AP v m) = fw_flag m"
  "turn_cell (put8 AGX_HANDOFF_OFF_LOCK_AP v m) = turn_cell m" "magic_ap (put8 AGX_HANDOFF_OFF_LOCK_AP v m) = magic_ap m"
  "magic_fw (put8 AGX_HANDOFF_OFF_LOCK_AP v m) = magic_fw m"
  "c < AGX_HANDOFF_FLUSH_SLOTS \<Longrightarrow> slot (put8 AGX_HANDOFF_OFF_LOCK_AP v m) c = slot m c"
  by (simp_all add: lock_put_simps slot_less unat_slot_offsets)

lemma put_fw [handoff_cell]:
  "ap_flag (put8 AGX_HANDOFF_OFF_LOCK_FW v m) = ap_flag m" "fw_flag (put8 AGX_HANDOFF_OFF_LOCK_FW v m) = v"
  "turn_cell (put8 AGX_HANDOFF_OFF_LOCK_FW v m) = turn_cell m" "magic_ap (put8 AGX_HANDOFF_OFF_LOCK_FW v m) = magic_ap m"
  "magic_fw (put8 AGX_HANDOFF_OFF_LOCK_FW v m) = magic_fw m"
  "c < AGX_HANDOFF_FLUSH_SLOTS \<Longrightarrow> slot (put8 AGX_HANDOFF_OFF_LOCK_FW v m) c = slot m c"
  by (simp_all add: lock_put_simps slot_less unat_slot_offsets)

lemma put_turn [handoff_cell]:
  "ap_flag (put32 AGX_HANDOFF_OFF_TURN v m) = ap_flag m" "fw_flag (put32 AGX_HANDOFF_OFF_TURN v m) = fw_flag m"
  "turn_cell (put32 AGX_HANDOFF_OFF_TURN v m) = v" "magic_ap (put32 AGX_HANDOFF_OFF_TURN v m) = magic_ap m"
  "magic_fw (put32 AGX_HANDOFF_OFF_TURN v m) = magic_fw m"
  "c < AGX_HANDOFF_FLUSH_SLOTS \<Longrightarrow> slot (put32 AGX_HANDOFF_OFF_TURN v m) c = slot m c"
  by (simp_all add: lock_put_simps slot_less unat_slot_offsets)

lemma put_magic_ap [handoff_cell]:
  "ap_flag (put64 AGX_HANDOFF_OFF_MAGIC_AP v m) = ap_flag m" "fw_flag (put64 AGX_HANDOFF_OFF_MAGIC_AP v m) = fw_flag m"
  "turn_cell (put64 AGX_HANDOFF_OFF_MAGIC_AP v m) = turn_cell m" "magic_ap (put64 AGX_HANDOFF_OFF_MAGIC_AP v m) = v"
  "magic_fw (put64 AGX_HANDOFF_OFF_MAGIC_AP v m) = magic_fw m"
  "c < AGX_HANDOFF_FLUSH_SLOTS \<Longrightarrow> slot (put64 AGX_HANDOFF_OFF_MAGIC_AP v m) c = slot m c"
  by (simp_all add: lock_put_simps slot_less unat_slot_offsets)

lemma put_magic_fw [handoff_cell]:
  "ap_flag (put64 AGX_HANDOFF_OFF_MAGIC_FW v m) = ap_flag m" "fw_flag (put64 AGX_HANDOFF_OFF_MAGIC_FW v m) = fw_flag m"
  "turn_cell (put64 AGX_HANDOFF_OFF_MAGIC_FW v m) = turn_cell m" "magic_ap (put64 AGX_HANDOFF_OFF_MAGIC_FW v m) = magic_ap m"
  "magic_fw (put64 AGX_HANDOFF_OFF_MAGIC_FW v m) = v"
  "c < AGX_HANDOFF_FLUSH_SLOTS \<Longrightarrow> slot (put64 AGX_HANDOFF_OFF_MAGIC_FW v m) c = slot m c"
  by (simp_all add: lock_put_simps slot_less unat_slot_offsets)

lemma put_slot_lock:
  assumes "c < AGX_HANDOFF_FLUSH_SLOTS"
    and "off \<in> {AGX_HANDOFF_OFF_FLUSH_STATE c, AGX_HANDOFF_OFF_FLUSH_ADDR c, AGX_HANDOFF_OFF_FLUSH_SIZE c}"
  shows "ap_flag (put64 off v m) = ap_flag m" "fw_flag (put64 off v m) = fw_flag m"
    "turn_cell (put64 off v m) = turn_cell m" "magic_ap (put64 off v m) = magic_ap m" "magic_fw (put64 off v m) = magic_fw m"
  using assms by (auto simp: lock_put_simps slot_less unat_slot_offsets)

lemmas put_slot_locks [handoff_cell] =
  put_slot_lock [OF _ insertI1] put_slot_lock [OF _ insertI2 [OF insertI1]]
  put_slot_lock [OF _ insertI2 [OF insertI2 [OF insertI1]]]

lemma apart_slots:
  assumes "c < AGX_HANDOFF_FLUSH_SLOTS" "d < AGX_HANDOFF_FLUSH_SLOTS" "c \<noteq> d"
    and "unat a = i + 24 * unat c" "unat b = j + 24 * unat d"
    and "i \<in> {32, 40, 48}" "j \<in> {32, 40, 48}"
  shows "apart a 8 b 8"
proof -
  from assms(3) have "unat c + 1 \<le> unat d \<or> unat d + 1 \<le> unat c" by (auto simp: word_unat_eq_iff)
  then have "24 * unat c + 24 \<le> 24 * unat d \<or> 24 * unat d + 24 \<le> 24 * unat c" by linarith
  with assms show ?thesis by (auto simp: apart_def slot_less)
qed

lemma put_slot [handoff_cell]:
  assumes "c < AGX_HANDOFF_FLUSH_SLOTS" "d < AGX_HANDOFF_FLUSH_SLOTS"
  shows "slot (put64 (AGX_HANDOFF_OFF_FLUSH_STATE c) v m) d = (if d = c then (v, snd (slot m c)) else slot m d)"
    "slot (put64 (AGX_HANDOFF_OFF_FLUSH_ADDR c) v m) d = (if d = c then (fst (slot m c), v, snd (snd (slot m c))) else slot m d)"
    "slot (put64 (AGX_HANDOFF_OFF_FLUSH_SIZE c) v m) d = (if d = c then (fst (slot m c), fst (snd (slot m c)), v) else slot m d)"
  using assms
  by (auto simp: slot_def get_put_same apart_def unat_slot_offsets slot_less get_put_other
      intro!: get_put_other(9) apart_slots [of d c])

end
