(* ===== verification/Handoff_Party.thy ===== *)
theory Handoff_Party
  imports Handoff
begin

text \<open>
  The contract between the handoff code and what it runs on, as the locale \<open>handoff_party\<close>: no access of the AP
  other than its own writes changes the lock byte of the AP, and the other party keeps out once the AP, with its byte set,
  has read the other's byte as clear. From these laws alone follow what the lock, the unlock and the magic exchange do, for any
  spin limit, and that they return whenever the limit is neither 0 nor the largest 32-bit number.
\<close>

section \<open>Offsets and steps of the other party\<close>

definition handoff_off64 :: "u32 \<Rightarrow> bool" where
  "handoff_off64 off \<longleftrightarrow> off = AGX_HANDOFF_OFF_MAGIC_AP \<or> off = AGX_HANDOFF_OFF_MAGIC_FW \<or>
     (\<exists>c<AGX_HANDOFF_FLUSH_SLOTS. off = AGX_HANDOFF_OFF_FLUSH_STATE c \<or> off = AGX_HANDOFF_OFF_FLUSH_ADDR c
        \<or> off = AGX_HANDOFF_OFF_FLUSH_SIZE c)"

lemma handoff_off64_intros [simp]:
  "handoff_off64 AGX_HANDOFF_OFF_MAGIC_AP" "handoff_off64 AGX_HANDOFF_OFF_MAGIC_FW"
  "c < AGX_HANDOFF_FLUSH_SLOTS \<Longrightarrow> handoff_off64 (AGX_HANDOFF_OFF_FLUSH_STATE c)"
  "c < AGX_HANDOFF_FLUSH_SLOTS \<Longrightarrow> handoff_off64 (AGX_HANDOFF_OFF_FLUSH_ADDR c)"
  "c < AGX_HANDOFF_FLUSH_SLOTS \<Longrightarrow> handoff_off64 (AGX_HANDOFF_OFF_FLUSH_SIZE c)"
  by (auto simp: handoff_off64_def)

lemma slots_below:
  "\<forall>c\<in>set (map of_nat [0..<unat AGX_HANDOFF_FLUSH_SLOTS]). c < AGX_HANDOFF_FLUSH_SLOTS"
proof
  fix c :: u32
  assume "c \<in> set (map of_nat [0..<unat AGX_HANDOFF_FLUSH_SLOTS])"
  then obtain i where "i < 65" "c = of_nat i" by (auto simp: AGX_HANDOFF_FLUSH_SLOTS_def)
  then show "c < AGX_HANDOFF_FLUSH_SLOTS"
    by (simp add: AGX_HANDOFF_FLUSH_SLOTS_def word_less_nat_alt unsigned_of_nat take_bit_nat_eq_self)
qed

text \<open>A change of the context that keeps it well formed, the byte of the AP, and the exclusion of the other party.\<close>

definition calm :: "('m \<Rightarrow> bool) \<Rightarrow> ('m \<Rightarrow> u8) \<Rightarrow> ('m \<Rightarrow> bool) \<Rightarrow> 'm \<Rightarrow> 'm \<Rightarrow> bool" where
  "calm ok ap excl m m' \<longleftrightarrow> (ok m \<longrightarrow> ok m' \<and> ap m' = ap m \<and> (excl m \<longrightarrow> excl m'))"

lemma calm_refl [simp]: "calm ok ap excl m m"
  by (simp add: calm_def)

lemma calm_trans: "calm ok ap excl m m' \<Longrightarrow> calm ok ap excl m' m'' \<Longrightarrow> calm ok ap excl m m''"
  by (auto simp: calm_def)

definition calm_ho :: "('m \<Rightarrow> bool) \<Rightarrow> ('m \<Rightarrow> u8) \<Rightarrow> ('m \<Rightarrow> bool) \<Rightarrow> 'm agx_handoff \<Rightarrow> 'm agx_handoff \<Rightarrow> bool" where
  "calm_ho ok ap excl ho ho' \<longleftrightarrow> ho_ops ho' = ho_ops ho \<and> ho_locked ho' = ho_locked ho
     \<and> ho_initialized ho' = ho_initialized ho \<and> calm ok ap excl (ho_ctx ho) (ho_ctx ho')"

lemma calm_ho_refl [simp]: "calm_ho ok ap excl ho ho"
  by (simp add: calm_ho_def)

lemma calm_ho_trans [trans]: "calm_ho ok ap excl a b \<Longrightarrow> calm_ho ok ap excl b c \<Longrightarrow> calm_ho ok ap excl a c"
  by (auto simp: calm_ho_def intro: calm_trans)

lemma calm_ho_ops: "calm_ho ok ap excl ho ho' \<Longrightarrow> ho_ops ho' = ho_ops ho"
  by (simp add: calm_ho_def)

section \<open>The spin counter\<close>

lemma spin_over_iff:
  assumes "0 < max_spins" "max_spins < 0xffffffff" "spins \<le> max_spins"
  shows "spin max_spins spins = (spins = max_spins, spins + 1)"
    and "spins \<noteq> max_spins \<Longrightarrow> spins + 1 \<le> max_spins \<and> unat (max_spins - (spins + 1)) < unat (max_spins - spins)"
proof -
  have u: "unat (spins + 1) = unat spins + 1"
    using assms by (simp add: unat_word_ariths word_less_nat_alt word_le_nat_alt)
  show "spin max_spins spins = (spins = max_spins, spins + 1)"
    using assms u by (auto simp: spin_def word_less_nat_alt word_le_nat_alt word_unat_eq_iff)
  show "spins \<noteq> max_spins \<Longrightarrow> spins + 1 \<le> max_spins \<and> unat (max_spins - (spins + 1)) < unat (max_spins - spins)"
    using assms u by (simp add: word_le_nat_alt word_unat_eq_iff unat_sub_if_size)
qed

text \<open>The loops return: the counter reaches the limit unless the limit is 0 or the largest number.\<close>

lemma lock_turn_returns:
  assumes "0 < max_spins" "max_spins < 0xffffffff" "spins \<le> max_spins"
  shows "\<exists>over spins' ho'. lock_turn max_spins spins ho = Some (over, spins', ho') \<and> (\<not> over \<longrightarrow> spins \<le> spins' \<and> spins' \<le> max_spins)"
  using assms(3)
proof (induction "unat (max_spins - spins)" arbitrary: spins ho rule: less_induct)
  case less
  note sp = spin_over_iff [OF assms(1,2) less.prems]
  obtain t h1 where rd: "rd32 ho AGX_HANDOFF_OFF_TURN = (t, h1)" by fastforce
  show ?case
  proof (cases "t = 0 \<or> spins = max_spins")
    case True
    then show ?thesis using rd sp less.prems by (subst lock_turn.simps) auto
  next
    case False
    with sp(2) less.hyps [of "spins + 1" "agx_handoff_relax h1"] obtain over s' h'
      where "lock_turn max_spins (spins + 1) (agx_handoff_relax h1) = Some (over, s', h')"
        "\<not> over \<longrightarrow> spins + 1 \<le> s' \<and> s' \<le> max_spins" by auto
    moreover have "spins \<le> spins + 1" using sp(2) False less.prems assms(2)
      by (simp add: word_le_nat_alt unat_word_ariths word_less_nat_alt)
    ultimately show ?thesis using rd sp(1) False by (subst lock_turn.simps) (auto intro: order_trans)
  qed
qed

lemma lock_yield_returns:
  assumes "0 < max_spins" "max_spins < 0xffffffff" "spins \<le> max_spins"
  shows "\<exists>over spins' ho'. lock_yield max_spins spins ho = Some (over, spins', ho') \<and> (\<not> over \<longrightarrow> spins \<le> spins' \<and> spins' \<le> max_spins)"
proof -
  obtain t h1 where rd: "rd32 ho AGX_HANDOFF_OFF_TURN = (t, h1)" by fastforce
  obtain over s' h' where "lock_turn max_spins spins (agx_handoff_barrier (wr8 h1 AGX_HANDOFF_OFF_LOCK_AP 0)) = Some (over, s', h')"
    "\<not> over \<longrightarrow> spins \<le> s' \<and> s' \<le> max_spins"
    using lock_turn_returns [OF assms] by meson
  with rd assms(3) show ?thesis by (cases "t = 0"; cases over) (auto simp: lock_yield_def)
qed

lemma lock_loop_returns:
  assumes "0 < max_spins" "max_spins < 0xffffffff" "spins \<le> max_spins"
  shows "\<exists>r. lock_loop max_spins spins ho = Some r"
  using assms(3)
proof (induction "unat (max_spins - spins)" arbitrary: spins ho rule: less_induct)
  case less
  obtain w h1 where rd: "rd8 ho AGX_HANDOFF_OFF_LOCK_FW = (w, h1)" by fastforce
  obtain over s1 h2 where y: "lock_yield max_spins spins h1 = Some (over, s1, h2)"
    and s1: "\<not> over \<longrightarrow> spins \<le> s1 \<and> s1 \<le> max_spins"
    using lock_yield_returns [OF assms(1,2) less.prems] by meson
  show ?case
  proof (cases "w = 0 \<or> over \<or> s1 = max_spins")
    case True
    then show ?thesis using rd y s1 spin_over_iff(1) [OF assms(1,2), of s1] by (subst lock_loop.simps) auto
  next
    case False
    with s1 have le: "spins \<le> s1" "s1 \<le> max_spins" by auto
    note sp = spin_over_iff [OF assms(1,2) le(2)]
    have "unat (max_spins - s1) \<le> unat (max_spins - spins)"
      using le less.prems by (simp add: word_le_nat_alt unat_sub_if_size)
    with sp(2) False less.hyps [of "s1 + 1" "agx_handoff_relax h2"]
    obtain r where "lock_loop max_spins (s1 + 1) (agx_handoff_relax h2) = Some r" by auto
    with rd y sp(1) False show ?thesis by (subst lock_loop.simps) auto
  qed
qed

lemma lock_returns:
  "0 < max_spins \<Longrightarrow> max_spins < 0xffffffff \<Longrightarrow> \<exists>r ho'. agx_handoff_lock ho max_spins = Some (r, ho')"
  using lock_loop_returns [of max_spins 0 "agx_handoff_barrier (wr8 ho AGX_HANDOFF_OFF_LOCK_AP 1)"]
  by (auto simp: agx_handoff_lock_def)

lemma magic_loop_returns:
  assumes "0 < max_spins" "max_spins < 0xffffffff" "spins \<le> max_spins"
  shows "\<exists>r. magic_loop max_spins spins ho = Some r"
  using assms(3)
proof (induction "unat (max_spins - spins)" arbitrary: spins ho rule: less_induct)
  case less
  note sp = spin_over_iff [OF assms(1,2) less.prems]
  obtain w h1 where rd: "rd64 ho AGX_HANDOFF_OFF_MAGIC_FW = (w, h1)" by fastforce
  show ?case
    using rd sp less.hyps [of "spins + 1" "agx_handoff_relax h1"]
    by (subst magic_loop.simps) auto
qed

lemma wait_firmware_returns:
  assumes "0 < max_spins" "max_spins < 0xffffffff"
  shows "\<exists>r ho'. agx_handoff_wait_firmware ho max_spins = Some (r, ho')"
proof -
  obtain r h where "agx_handoff_lock (wr64 ho AGX_HANDOFF_OFF_MAGIC_AP AGX_HANDOFF_MAGIC) max_spins = Some (r, h)"
    using lock_returns [OF assms] by meson
  moreover obtain over h' where "magic_loop max_spins 0 h = Some (over, h')"
    using magic_loop_returns [OF assms, of 0 h] by auto
  ultimately show ?thesis by (auto simp: agx_handoff_wait_firmware_def)
qed

lemma flush_loop_returns:
  assumes "0 < max_spins" "max_spins < 0xffffffff" "spins \<le> max_spins"
  shows "\<exists>ret ho'. flush_loop c max_spins spins ho = Some (ret, ho') \<and> (ret = 0 \<or> ret = AGX_ETIMEDOUT)"
  using assms(3)
proof (induction "unat (max_spins - spins)" arbitrary: spins ho rule: less_induct)
  case less
  note sp = spin_over_iff [OF assms(1,2) less.prems]
  obtain w h1 where rd: "rd64 ho (AGX_HANDOFF_OFF_FLUSH_STATE c) = (w, h1)" by fastforce
  show ?case
    using rd sp less.hyps [of "spins + 1" "agx_handoff_relax h1"]
    by (subst flush_loop.simps) auto
qed

section \<open>The contract\<close>

locale handoff_lock_party =
  fixes ops :: "'m agx_handoff_ops" and ok :: "'m \<Rightarrow> bool" and ap :: "'m \<Rightarrow> u8" and excl :: "'m \<Rightarrow> bool"
  assumes read8_calm: "calm ok ap excl m (snd (ho_read8 ops m AGX_HANDOFF_OFF_LOCK_FW))"
    and read32_calm: "calm ok ap excl m (snd (ho_read32 ops m AGX_HANDOFF_OFF_TURN))"
    and magic_calm: "calm ok ap excl m (snd (ho_read64 ops m AGX_HANDOFF_OFF_MAGIC_FW))"
    and write32_calm: "calm ok ap excl m (ho_write32 ops m AGX_HANDOFF_OFF_TURN v32)"
    and relax_calm: "ho_relax ops = Some f \<Longrightarrow> calm ok ap excl m (f m)"
    and barrier_calm: "ho_barrier ops = Some f \<Longrightarrow> calm ok ap excl m (f m)"
    and write_ap: "ok m \<Longrightarrow> ok (ho_write8 ops m AGX_HANDOFF_OFF_LOCK_AP b) \<and> ap (ho_write8 ops m AGX_HANDOFF_OFF_LOCK_AP b) = b"
    and enter: "ok m \<Longrightarrow> ap m = 1 \<Longrightarrow> ho_read8 ops m AGX_HANDOFF_OFF_LOCK_FW = (0, m') \<Longrightarrow> excl m'"
begin

abbreviation quiet :: "'m agx_handoff \<Rightarrow> 'm agx_handoff \<Rightarrow> bool" where
  "quiet \<equiv> calm_ho ok ap excl"

abbreviation sane :: "'m agx_handoff \<Rightarrow> bool" where
  "sane ho \<equiv> ho_ops ho = ops \<and> ok (ho_ctx ho)"

lemma quietD:
  "quiet ho ho' \<Longrightarrow> sane ho \<Longrightarrow> sane ho' \<and> ap (ho_ctx ho') = ap (ho_ctx ho) \<and> (excl (ho_ctx ho) \<longrightarrow> excl (ho_ctx ho'))
     \<and> ho_locked ho' = ho_locked ho \<and> ho_initialized ho' = ho_initialized ho"
  by (auto simp: calm_ho_def calm_def)

lemma access_quiet:
  assumes "ho_ops ho = ops"
  shows "quiet ho (snd (rd8 ho AGX_HANDOFF_OFF_LOCK_FW))" "quiet ho (snd (rd32 ho AGX_HANDOFF_OFF_TURN))"
    "quiet ho (snd (rd64 ho AGX_HANDOFF_OFF_MAGIC_FW))" "quiet ho (wr32 ho AGX_HANDOFF_OFF_TURN v32)"
    "quiet ho (agx_handoff_relax ho)" "quiet ho (agx_handoff_barrier ho)"
  using assms
    read8_calm [of "ho_ctx ho"] read32_calm [of "ho_ctx ho"] magic_calm [of "ho_ctx ho"] write32_calm [of "ho_ctx ho" v32]
  by (auto simp: calm_ho_def rd8_def rd32_def rd64_def wr32_def agx_handoff_relax_def agx_handoff_barrier_def
      intro: relax_calm barrier_calm split: prod.splits option.splits)

lemma read_quiet:
  assumes "ho_ops ho = ops"
  shows "rd8 ho AGX_HANDOFF_OFF_LOCK_FW = (x, ho') \<Longrightarrow> quiet ho ho'"
    "rd32 ho AGX_HANDOFF_OFF_TURN = (y, ho') \<Longrightarrow> quiet ho ho'"
    "rd64 ho AGX_HANDOFF_OFF_MAGIC_FW = (z, ho') \<Longrightarrow> quiet ho ho'"
  using access_quiet [OF assms] by (metis snd_conv)+

lemma set_ap:
  assumes "sane ho"
  shows "sane (agx_handoff_barrier (wr8 ho AGX_HANDOFF_OFF_LOCK_AP b))
    \<and> ap (ho_ctx (agx_handoff_barrier (wr8 ho AGX_HANDOFF_OFF_LOCK_AP b))) = b
    \<and> ho_locked (agx_handoff_barrier (wr8 ho AGX_HANDOFF_OFF_LOCK_AP b)) = ho_locked ho
    \<and> ho_initialized (agx_handoff_barrier (wr8 ho AGX_HANDOFF_OFF_LOCK_AP b)) = ho_initialized ho"
proof -
  let ?w = "wr8 ho AGX_HANDOFF_OFF_LOCK_AP b"
  have "sane ?w" "ap (ho_ctx ?w) = b" "ho_locked ?w = ho_locked ho" "ho_initialized ?w = ho_initialized ho"
    using assms write_ap by (auto simp: wr8_def)
  then show ?thesis using quietD [OF access_quiet(6) [of ?w]] by auto
qed

text \<open>What a loop gives if it returns, for every limit.\<close>

lemma lock_turn_sound:
  assumes "lock_turn max_spins spins ho = Some r" and "ho_ops ho = ops"
  shows "quiet ho (snd (snd r))"
proof (rule lock_turn.raw_induct [where P = "\<lambda>_ _ ho r. ho_ops ho = ops \<longrightarrow> quiet ho (snd (snd r))", OF _ assms(1), THEN mp,
      OF _ assms(2)], intro impI)
  fix loop mx s h r
  assume IH: "\<And>mx s h r. loop mx s h = Some r \<Longrightarrow> ho_ops h = ops \<longrightarrow> quiet h (snd (snd r))"
    and step: "(let (turn, h) = rd32 h AGX_HANDOFF_OFF_TURN
      in if turn = 0 then Some (False, s, h)
         else let (over, s) = spin mx s
              in if over then Some (True, s, h) else loop mx s (agx_handoff_relax h)) = Some r"
    and h: "ho_ops h = ops"
  obtain t h1 where rd: "rd32 h AGX_HANDOFF_OFF_TURN = (t, h1)" by fastforce
  note q1 = read_quiet(2) [OF h rd]
  then have h1: "ho_ops h1 = ops" using h by (simp add: calm_ho_ops)
  note q2 = access_quiet(5) [OF h1]
  then have "ho_ops (agx_handoff_relax h1) = ops" using h1 by (simp add: calm_ho_ops)
  with step rd IH [of mx _ "agx_handoff_relax h1" r] q1 q2 show "quiet h (snd (snd r))"
    by (auto split: if_splits prod.splits intro: calm_ho_trans)
qed

lemma lock_yield_sound:
  assumes "lock_yield max_spins spins ho = Some (over, spins', ho')" "sane ho" "ap (ho_ctx ho) = 1"
  shows "sane ho' \<and> ap (ho_ctx ho') = (if over then 0 else 1) \<and> ho_locked ho' = ho_locked ho
    \<and> ho_initialized ho' = ho_initialized ho"
proof -
  obtain t h1 where rd: "rd32 ho AGX_HANDOFF_OFF_TURN = (t, h1)" by fastforce
  note h1 = quietD [OF read_quiet(2) [OF _ rd] assms(2)]
  show ?thesis
  proof (cases "t = 0")
    case True
    then show ?thesis using assms rd h1 by (auto simp: lock_yield_def)
  next
    case False
    let ?h2 = "agx_handoff_barrier (wr8 h1 AGX_HANDOFF_OFF_LOCK_AP 0)"
    from False assms rd obtain h3 where h3: "lock_turn max_spins spins ?h2 = Some (over, spins', h3)"
      and ho': "ho' = (if over then h3 else agx_handoff_barrier (wr8 h3 AGX_HANDOFF_OFF_LOCK_AP 1))"
      by (auto simp: lock_yield_def bind_eq_Some_conv split: if_splits)
    have h2: "sane ?h2" "ap (ho_ctx ?h2) = 0" "ho_locked ?h2 = ho_locked ho" "ho_initialized ?h2 = ho_initialized ho"
      using h1 assms(2) set_ap [of h1 0] by auto
    have "quiet ?h2 h3" using lock_turn_sound [OF h3] h2(1) by simp
    from quietD [OF this h2(1)] h2 set_ap [of h3 1] show ?thesis by (auto simp: ho')
  qed
qed

lemma lock_loop_sound:
  assumes "lock_loop max_spins spins ho = Some (r, ho')" "sane ho" "ap (ho_ctx ho) = 1"
  shows "sane ho' \<and> ho_initialized ho' = ho_initialized ho \<and>
    (r = 0 \<and> ho_locked ho' \<and> ap (ho_ctx ho') = 1 \<and> excl (ho_ctx ho') \<or>
     r = AGX_ETIMEDOUT \<and> ho_locked ho' = ho_locked ho \<and> ap (ho_ctx ho') = 0)"
    (is "?post ho (r, ho')")
proof -
  let ?post = "\<lambda>ho r. sane (snd r) \<and> ho_initialized (snd r) = ho_initialized ho \<and>
    (fst r = 0 \<and> ho_locked (snd r) \<and> ap (ho_ctx (snd r)) = 1 \<and> excl (ho_ctx (snd r)) \<or>
     fst r = AGX_ETIMEDOUT \<and> ho_locked (snd r) = ho_locked ho \<and> ap (ho_ctx (snd r)) = 0)"
  have "sane ho \<longrightarrow> ap (ho_ctx ho) = 1 \<longrightarrow> ?post ho (r, ho')"
  proof (rule lock_loop.raw_induct [where P = "\<lambda>_ _ ho r. sane ho \<longrightarrow> ap (ho_ctx ho) = 1 \<longrightarrow> ?post ho r", OF _ assms(1)],
      intro impI)
    fix loop mx s h r
    assume IH: "\<And>mx s h r. loop mx s h = Some r \<Longrightarrow> sane h \<longrightarrow> ap (ho_ctx h) = 1 \<longrightarrow> ?post h r"
      and step: "(let (fw, h) = rd8 h AGX_HANDOFF_OFF_LOCK_FW
        in if fw = 0 then Some (0, (agx_handoff_barrier h)\<lparr>ho_locked := True\<rparr>)
           else do {
             (over, s, h) \<leftarrow> lock_yield mx s h;
             if over then Some (AGX_ETIMEDOUT, h)
             else let (over, s) = spin mx s
                  in if over then Some (AGX_ETIMEDOUT, agx_handoff_barrier (wr8 h AGX_HANDOFF_OFF_LOCK_AP 0))
                     else loop mx s (agx_handoff_relax h)
           }) = Some r"
      and h: "sane h" "ap (ho_ctx h) = 1"
    obtain w h1 where rd: "rd8 h AGX_HANDOFF_OFF_LOCK_FW = (w, h1)" by fastforce
    note h1 = quietD [OF read_quiet(1) [OF _ rd] h(1)]
    show "?post h r"
    proof (cases "w = 0")
      case True
      then have "excl (ho_ctx h1)"
        using enter [of "ho_ctx h"] h rd by (auto simp: rd8_def split: prod.splits)
      moreover have s1: "sane h1" using h(1) h1 by blast
      moreover have "r = (0, (agx_handoff_barrier h1)\<lparr>ho_locked := True\<rparr>)" using True step rd by simp
      ultimately show ?thesis using h h1 quietD [OF access_quiet(6) s1] by simp
    next
      case False
      with step rd obtain over s1 h2 where y: "lock_yield mx s h1 = Some (over, s1, h2)"
        and st: "(if over then Some (AGX_ETIMEDOUT, h2)
             else let (over, s) = spin mx s1
                  in if over then Some (AGX_ETIMEDOUT, agx_handoff_barrier (wr8 h2 AGX_HANDOFF_OFF_LOCK_AP 0))
                     else loop mx s (agx_handoff_relax h2)) = Some r"
        by (auto simp: bind_eq_Some_conv)
      from lock_yield_sound [OF y] h h1 have h2: "sane h2" "ap (ho_ctx h2) = (if over then 0 else 1)"
        "ho_locked h2 = ho_locked h" "ho_initialized h2 = ho_initialized h" by auto
      obtain late s2 where sp: "spin mx s1 = (late, s2)" by fastforce
      consider (turn) "over" | (late) "\<not> over" "late" | (again) "\<not> over" "\<not> late" by blast
      then show ?thesis
      proof cases
        case turn
        then show ?thesis using st h2 by auto
      next
        case late
        then show ?thesis using st sp h2 set_ap [of h2 0] by auto
      next
        case again
        have "sane (agx_handoff_relax h2)" "ap (ho_ctx (agx_handoff_relax h2)) = 1"
          "ho_locked (agx_handoff_relax h2) = ho_locked h" "ho_initialized (agx_handoff_relax h2) = ho_initialized h"
          using quietD [OF access_quiet(5) [of h2]] h2 again by auto
        moreover have "loop mx s2 (agx_handoff_relax h2) = Some r" using st sp again by simp
        ultimately show ?thesis using IH [of mx s2 "agx_handoff_relax h2" r] by simp
      qed
    qed
  qed
  with assms show ?thesis by simp
qed

lemma lock_sound:
  assumes "agx_handoff_lock ho max_spins = Some (r, ho')" "sane ho"
  shows "sane ho' \<and> ho_initialized ho' = ho_initialized ho \<and>
    (r = 0 \<and> ho_locked ho' \<and> ap (ho_ctx ho') = 1 \<and> excl (ho_ctx ho') \<or>
     r = AGX_ETIMEDOUT \<and> ho_locked ho' = ho_locked ho \<and> ap (ho_ctx ho') = 0)"
  using lock_loop_sound [OF assms(1) [unfolded agx_handoff_lock_def]] set_ap [OF assms(2), of 1] by auto

lemma unlock_sound:
  assumes "sane ho"
  shows "sane (agx_handoff_unlock ho) \<and> ap (ho_ctx (agx_handoff_unlock ho)) = 0 \<and> \<not> ho_locked (agx_handoff_unlock ho)
    \<and> ho_initialized (agx_handoff_unlock ho) = ho_initialized ho"
proof -
  let ?a = "agx_handoff_barrier ho"
  let ?b = "wr32 ?a AGX_HANDOFF_OFF_TURN 1"
  let ?c = "agx_handoff_barrier ?b"
  have a: "sane ?a" "ho_initialized ?a = ho_initialized ho" using quietD [OF access_quiet(6) assms] assms by auto
  have b: "sane ?b" "ho_initialized ?b = ho_initialized ho" using quietD [OF access_quiet(4) a(1)] a by auto
  have c: "sane ?c" "ho_initialized ?c = ho_initialized ho" using quietD [OF access_quiet(6) b(1)] b by auto
  show ?thesis using set_ap [OF c(1), of 0] c(2) by (simp add: agx_handoff_unlock_def Let_def)
qed

lemma magic_loop_sound:
  assumes "magic_loop max_spins spins ho = Some (over, ho')" "sane ho"
  shows "sane ho' \<and> ho_initialized ho' = ho_initialized ho \<and>
    (if over then ap (ho_ctx ho') = 0 \<and> \<not> ho_locked ho'
     else ap (ho_ctx ho') = ap (ho_ctx ho) \<and> ho_locked ho' = ho_locked ho \<and> (excl (ho_ctx ho) \<longrightarrow> excl (ho_ctx ho')))"
proof -
  let ?post = "\<lambda>ho r. sane (snd r) \<and> ho_initialized (snd r) = ho_initialized ho \<and>
    (if fst r then ap (ho_ctx (snd r)) = 0 \<and> \<not> ho_locked (snd r)
     else ap (ho_ctx (snd r)) = ap (ho_ctx ho) \<and> ho_locked (snd r) = ho_locked ho
       \<and> (excl (ho_ctx ho) \<longrightarrow> excl (ho_ctx (snd r))))"
  have "sane ho \<longrightarrow> ?post ho (over, ho')"
  proof (rule magic_loop.raw_induct [where P = "\<lambda>_ _ ho r. sane ho \<longrightarrow> ?post ho r", OF _ assms(1)], intro impI)
    fix loop mx s h r
    assume IH: "\<And>mx s h r. loop mx s h = Some r \<Longrightarrow> sane h \<longrightarrow> ?post h r"
      and step: "(let (magic, h) = rd64 h AGX_HANDOFF_OFF_MAGIC_FW
        in if magic = AGX_HANDOFF_MAGIC then Some (False, h)
           else let (over, s) = spin mx s
                in if over then Some (True, agx_handoff_unlock h) else loop mx s (agx_handoff_relax h)) = Some r"
      and h: "sane h"
    obtain w h1 where rd: "rd64 h AGX_HANDOFF_OFF_MAGIC_FW = (w, h1)" by fastforce
    obtain late s1 where sp: "spin mx s = (late, s1)" by fastforce
    note h1 = quietD [OF read_quiet(3) [OF _ rd] h]
    note h2 = quietD [OF access_quiet(5) [of h1]]
    consider (found) "w = AGX_HANDOFF_MAGIC" | (late) "w \<noteq> AGX_HANDOFF_MAGIC" "late"
      | (again) "w \<noteq> AGX_HANDOFF_MAGIC" "\<not> late" by blast
    then show "?post h r"
    proof cases
      case found
      then show ?thesis using step rd h h1 by auto
    next
      case late
      then have "r = (True, agx_handoff_unlock h1)" using step rd sp by simp
      then show ?thesis using h h1 unlock_sound [of h1] by simp
    next
      case again
      then show ?thesis using step rd sp h h1 h2 IH [of mx s1 "agx_handoff_relax h1" r] by auto
    qed
  qed
  with assms show ?thesis by (auto split: if_splits)
qed

end

text \<open>With the slots and the magic number of the AP: the driver reads and writes every cell of 64 bits.\<close>

locale handoff_party = handoff_lock_party +
  assumes read64_calm: "handoff_off64 off \<Longrightarrow> calm ok ap excl m (snd (ho_read64 ops m off))"
    and write64_calm: "handoff_off64 off \<Longrightarrow> calm ok ap excl m (ho_write64 ops m off v)"
begin

lemma slot_quiet:
  assumes "ho_ops ho = ops" "handoff_off64 off"
  shows "quiet ho (snd (rd64 ho off))" "quiet ho (wr64 ho off v)"
  using assms read64_calm [of off "ho_ctx ho"] write64_calm [of off "ho_ctx ho" v]
  by (auto simp: calm_ho_def rd64_def wr64_def split: prod.splits)

lemma read_slot_quiet: "ho_ops ho = ops \<Longrightarrow> handoff_off64 off \<Longrightarrow> rd64 ho off = (z, ho') \<Longrightarrow> quiet ho ho'"
  using slot_quiet(1) [of ho off] by (metis snd_conv)

lemma clear_slot_quiet:
  assumes "ho_ops ho = ops" "c < AGX_HANDOFF_FLUSH_SLOTS"
  shows "quiet ho (clear_slot c ho)"
proof -
  let ?a = "wr64 ho (AGX_HANDOFF_OFF_FLUSH_STATE c) 0"
  let ?b = "wr64 ?a (AGX_HANDOFF_OFF_FLUSH_ADDR c) 0"
  have "ho_ops ?a = ops" "ho_ops ?b = ops" using assms by (simp_all add: wr64_def)
  then have "quiet ho ?a" "quiet ?a ?b" "quiet ?b (clear_slot c ho)"
    using assms by (simp_all add: slot_quiet(2) clear_slot_def)
  then show ?thesis by (blast intro: calm_ho_trans)
qed

lemma clear_slots_quiet:
  "ho_ops ho = ops \<Longrightarrow> \<forall>c\<in>set cs. c < AGX_HANDOFF_FLUSH_SLOTS \<Longrightarrow> quiet ho (fold clear_slot cs ho)"
proof (induction cs arbitrary: ho)
  case (Cons c cs)
  then have q: "quiet ho (clear_slot c ho)" by (simp add: clear_slot_quiet)
  with Cons show ?case by (auto simp: calm_ho_ops intro: calm_ho_trans [OF q])
qed simp

lemma wait_firmware_sound:
  assumes "agx_handoff_wait_firmware ho max_spins = Some (r, ho')" "sane ho"
  shows "sane ho' \<and> ap (ho_ctx ho') = 0 \<and>
    (r = 0 \<and> \<not> ho_locked ho' \<and> ho_initialized ho' \<or>
     r = AGX_ETIMEDOUT \<and> (ho_locked ho' \<longrightarrow> ho_locked ho) \<and> ho_initialized ho' = ho_initialized ho)"
proof -
  let ?h0 = "wr64 ho AGX_HANDOFF_OFF_MAGIC_AP AGX_HANDOFF_MAGIC"
  note q0 = slot_quiet(2) [of ho AGX_HANDOFF_OFF_MAGIC_AP AGX_HANDOFF_MAGIC]
  have h0: "sane ?h0" "ho_locked ?h0 = ho_locked ho" "ho_initialized ?h0 = ho_initialized ho"
    using quietD [OF q0 assms(2)] assms(2) by auto
  from assms(1) obtain r1 h1 where l: "agx_handoff_lock ?h0 max_spins = Some (r1, h1)"
    by (auto simp: agx_handoff_wait_firmware_def bind_eq_Some_conv)
  note h1 = lock_sound [OF l h0(1)]
  show ?thesis
  proof (cases "r1 = 0")
    case False
    then show ?thesis using assms(1) l h0 h1 by (auto simp: agx_handoff_wait_firmware_def)
  next
    case True
    with assms(1) l obtain over h2 where mg: "magic_loop max_spins 0 h1 = Some (over, h2)"
      by (auto simp: agx_handoff_wait_firmware_def bind_eq_Some_conv)
    have h1': "sane h1" "ho_initialized h1 = ho_initialized ho" using h1 h0 by auto
    note h2 = magic_loop_sound [OF mg h1'(1)]
    let ?u = "agx_handoff_unlock h2"
    have u: "sane ?u" "ap (ho_ctx ?u) = 0" "\<not> ho_locked ?u" "ho_initialized ?u = ho_initialized h2"
      using unlock_sound [of h2] h2 by auto
    have s: "quiet ?u (fold clear_slot (map of_nat [0..<unat AGX_HANDOFF_FLUSH_SLOTS]) ?u)"
      using u(1) by (intro clear_slots_quiet slots_below) simp
    let ?f = "fold clear_slot (map of_nat [0..<unat AGX_HANDOFF_FLUSH_SLOTS]) ?u"
    have f: "sane ?f" "ap (ho_ctx ?f) = 0" "\<not> ho_locked ?f" using quietD [OF s u(1)] u by simp_all
    show ?thesis
    proof (cases over)
      case True
      then have "r = AGX_ETIMEDOUT" "ho' = h2"
        using assms(1) l \<open>r1 = 0\<close> mg by (simp_all add: agx_handoff_wait_firmware_def)
      then show ?thesis using True h2 h1' by simp
    next
      case False
      then have "r = 0" "ho' = ?f\<lparr>ho_initialized := True\<rparr>"
        using assms(1) l \<open>r1 = 0\<close> mg by (simp_all add: agx_handoff_wait_firmware_def Let_def)
      then show ?thesis using f by simp
    qed
  qed
qed

text \<open>The flush slot operations never touch the lock, whatever the context number.\<close>

lemma prepare_quiet:
  assumes "ho_ops ho = ops"
  shows "quiet ho (snd (agx_handoff_prepare_cacheflush ho c base bytes))"
    "quiet ho (snd (agx_handoff_prepare_unmap ho c base bytes))"
proof -
  obtain x h1 where rd: "rd64 ho (AGX_HANDOFF_OFF_FLUSH_STATE c) = (x, h1)" by fastforce
  have w: "quiet h1 (wr64 (wr64 (wr64 h1 (AGX_HANDOFF_OFF_FLUSH_ADDR c) u) (AGX_HANDOFF_OFF_FLUSH_SIZE c) v)
      (AGX_HANDOFF_OFF_FLUSH_STATE c) y)" if "c < AGX_HANDOFF_FLUSH_SLOTS" "ho_ops h1 = ops" for u v y
  proof -
    let ?a = "wr64 h1 (AGX_HANDOFF_OFF_FLUSH_ADDR c) u"
    let ?b = "wr64 ?a (AGX_HANDOFF_OFF_FLUSH_SIZE c) v"
    have "ho_ops ?a = ops" "ho_ops ?b = ops" using that by (simp_all add: wr64_def)
    with that have "quiet h1 ?a" "quiet ?a ?b" "quiet ?b (wr64 ?b (AGX_HANDOFF_OFF_FLUSH_STATE c) y)"
      by (simp_all add: slot_quiet(2))
    then show ?thesis by (blast intro: calm_ho_trans)
  qed
  have h1: "quiet ho h1" "ho_ops h1 = ops" if "c < AGX_HANDOFF_FLUSH_SLOTS"
    using read_slot_quiet [OF assms _ rd] that assms calm_ho_ops by auto
  show "quiet ho (snd (agx_handoff_prepare_cacheflush ho c base bytes))"
    using rd h1 w calm_ho_trans [OF h1(1) w] by (auto simp: agx_handoff_prepare_cacheflush_def Let_def not_le)
  show "quiet ho (snd (agx_handoff_prepare_unmap ho c base bytes))"
    using rd h1 w calm_ho_trans [OF h1(1) w] by (auto simp: agx_handoff_prepare_unmap_def Let_def not_le)
qed

lemma complete_quiet:
  assumes "ho_ops ho = ops"
  shows "quiet ho (snd (agx_handoff_complete_cacheflush ho c))" "quiet ho (snd (agx_handoff_complete_unmap ho c))"
proof -
  obtain x h1 where rd: "rd64 ho (AGX_HANDOFF_OFF_FLUSH_STATE c) = (x, h1)" by fastforce
  have h1: "quiet ho h1" "ho_ops h1 = ops" if "c < AGX_HANDOFF_FLUSH_SLOTS"
    using read_slot_quiet [OF assms _ rd] that assms calm_ho_ops by auto
  have w: "quiet ho (wr64 h1 (AGX_HANDOFF_OFF_FLUSH_STATE c) 0)" if "c < AGX_HANDOFF_FLUSH_SLOTS"
    using that by (intro calm_ho_trans [OF h1(1) slot_quiet(2)] h1(2)) simp_all
  show "quiet ho (snd (agx_handoff_complete_cacheflush ho c))"
    using rd h1 w by (auto simp: agx_handoff_complete_cacheflush_def not_le)
  show "quiet ho (snd (agx_handoff_complete_unmap ho c))"
    using rd h1 w by (auto simp: agx_handoff_complete_unmap_def not_le)
qed

lemma flush_loop_sound:
  assumes "flush_loop c max_spins spins ho = Some r" and "ho_ops ho = ops" and c: "c < AGX_HANDOFF_FLUSH_SLOTS"
  shows "quiet ho (snd r)"
proof (rule flush_loop.raw_induct [where P = "\<lambda>d _ _ ho r. d = c \<longrightarrow> ho_ops ho = ops \<longrightarrow> quiet ho (snd r)", OF _ assms(1),
      THEN mp, THEN mp, OF _ refl assms(2)], intro impI)
  fix loop d mx s h r
  assume IH: "\<And>d mx s h r. loop d mx s h = Some r \<Longrightarrow> d = c \<longrightarrow> ho_ops h = ops \<longrightarrow> quiet h (snd r)"
    and step: "(let (state, h) = rd64 h (AGX_HANDOFF_OFF_FLUSH_STATE d)
      in if state \<noteq> AGX_HANDOFF_FLUSH_BUSY then Some (0, h)
         else let (over, s) = spin mx s
              in if over then Some (AGX_ETIMEDOUT, h) else loop d mx s (agx_handoff_relax h)) = Some r"
    and d: "d = c" and h: "ho_ops h = ops"
  obtain x h1 where rd: "rd64 h (AGX_HANDOFF_OFF_FLUSH_STATE d) = (x, h1)" by fastforce
  have q1: "quiet h h1" using read_slot_quiet [OF h _ rd] c d by simp
  then have h1: "ho_ops h1 = ops" using h by (simp add: calm_ho_ops)
  note q2 = access_quiet(5) [OF h1]
  then have "ho_ops (agx_handoff_relax h1) = ops" using h1 by (simp add: calm_ho_ops)
  with step rd d IH [of d mx _ "agx_handoff_relax h1" r] q1 q2 show "quiet h (snd r)"
    by (auto split: if_splits prod.splits intro: calm_ho_trans)
qed

lemma wait_cacheflush_quiet:
  "agx_handoff_wait_cacheflush ho c max_spins = Some r \<Longrightarrow> ho_ops ho = ops \<Longrightarrow> quiet ho (snd r)"
  by (auto simp: agx_handoff_wait_cacheflush_def not_le split: if_splits dest: flush_loop_sound)

end

end
