(* ===== verification/Handoff_Firmware.thy ===== *)
theory Handoff_Firmware
  imports Handoff_Machine Handoff_Party
begin

text \<open>
  What the firmware threads of the test machine do to each cell of the handoff structure, the invariant of their lock
  protocol, and the interpretation of \<open>handoff_party\<close> on the machine: with any schedule, an access of the driver keeps its lock byte,
  stays in the structure, and the firmware does not enter while it is excluded.
\<close>

section \<open>What the firmware does to the cells\<close>

lemma put_fields [simp]:
  "hs_fw (put8 off x m) = hs_fw m" "hs_fw (put32 off y m) = hs_fw m" "hs_fw (put64 off z m) = hs_fw m"
  "hs_flushed (put8 off x m) = hs_flushed m" "hs_flushed (put32 off y m) = hs_flushed m" "hs_flushed (put64 off z m) = hs_flushed m"
  "hs_magic_seen (put8 off x m) = hs_magic_seen m" "hs_magic_seen (put32 off y m) = hs_magic_seen m"
  "hs_magic_seen (put64 off z m) = hs_magic_seen m" "hs_flush_seen (put8 off x m) = hs_flush_seen m"
  "hs_flush_seen (put32 off y m) = hs_flush_seen m" "hs_flush_seen (put64 off z m) = hs_flush_seen m"
  "hs_sched (put8 off x m) = hs_sched m" "hs_sched (put32 off y m) = hs_sched m" "hs_sched (put64 off z m) = hs_sched m"
  "hs_time (put8 off x m) = hs_time m" "hs_time (put32 off y m) = hs_time m" "hs_time (put64 off z m) = hs_time m"
  "hs_fault (put8 off x m) = hs_fault m" "hs_fault (put32 off y m) = hs_fault m" "hs_fault (put64 off z m) = hs_fault m"
  by (simp_all add: put8_def put32_def put64_def)

lemma bytes_cells:
  assumes "hs_bytes m' = hs_bytes m"
  shows "ap_flag m' = ap_flag m" "fw_flag m' = fw_flag m" "turn_cell m' = turn_cell m" "magic_ap m' = magic_ap m"
    "magic_fw m' = magic_fw m" "slot m' = slot m"
proof -
  show "slot m' = slot m" by (rule ext) (simp add: slot_def get64_def assms)
qed (simp_all add: cell_defs get8_def get32_def get64_def assms)

lemma field_cells [simp]:
  "ap_flag (m\<lparr>hs_fw := p\<rparr>) = ap_flag m" "fw_flag (m\<lparr>hs_fw := p\<rparr>) = fw_flag m" "turn_cell (m\<lparr>hs_fw := p\<rparr>) = turn_cell m"
  "magic_ap (m\<lparr>hs_fw := p\<rparr>) = magic_ap m" "magic_fw (m\<lparr>hs_fw := p\<rparr>) = magic_fw m" "slot (m\<lparr>hs_fw := p\<rparr>) = slot m"
  "ap_flag (m\<lparr>hs_flushed := l\<rparr>) = ap_flag m" "fw_flag (m\<lparr>hs_flushed := l\<rparr>) = fw_flag m" "turn_cell (m\<lparr>hs_flushed := l\<rparr>) = turn_cell m"
  "magic_ap (m\<lparr>hs_flushed := l\<rparr>) = magic_ap m" "magic_fw (m\<lparr>hs_flushed := l\<rparr>) = magic_fw m" "slot (m\<lparr>hs_flushed := l\<rparr>) = slot m"
  "ap_flag (m\<lparr>hs_magic_seen := b\<rparr>) = ap_flag m" "fw_flag (m\<lparr>hs_magic_seen := b\<rparr>) = fw_flag m"
  "turn_cell (m\<lparr>hs_magic_seen := b\<rparr>) = turn_cell m" "magic_ap (m\<lparr>hs_magic_seen := b\<rparr>) = magic_ap m"
  "magic_fw (m\<lparr>hs_magic_seen := b\<rparr>) = magic_fw m" "slot (m\<lparr>hs_magic_seen := b\<rparr>) = slot m"
  "ap_flag (m\<lparr>hs_flush_seen := g\<rparr>) = ap_flag m" "fw_flag (m\<lparr>hs_flush_seen := g\<rparr>) = fw_flag m"
  "turn_cell (m\<lparr>hs_flush_seen := g\<rparr>) = turn_cell m" "magic_ap (m\<lparr>hs_flush_seen := g\<rparr>) = magic_ap m"
  "magic_fw (m\<lparr>hs_flush_seen := g\<rparr>) = magic_fw m" "slot (m\<lparr>hs_flush_seen := g\<rparr>) = slot m"
  "ap_flag (m\<lparr>hs_time := t\<rparr>) = ap_flag m" "fw_flag (m\<lparr>hs_time := t\<rparr>) = fw_flag m" "turn_cell (m\<lparr>hs_time := t\<rparr>) = turn_cell m"
  "magic_ap (m\<lparr>hs_time := t\<rparr>) = magic_ap m" "magic_fw (m\<lparr>hs_time := t\<rparr>) = magic_fw m" "slot (m\<lparr>hs_time := t\<rparr>) = slot m"
  "ap_flag (m\<lparr>hs_fault := b\<rparr>) = ap_flag m" "fw_flag (m\<lparr>hs_fault := b\<rparr>) = fw_flag m" "turn_cell (m\<lparr>hs_fault := b\<rparr>) = turn_cell m"
  "magic_ap (m\<lparr>hs_fault := b\<rparr>) = magic_ap m" "magic_fw (m\<lparr>hs_fault := b\<rparr>) = magic_fw m" "slot (m\<lparr>hs_fault := b\<rparr>) = slot m"
  by (rule bytes_cells, simp)+

text \<open>The steps of the firmware in terms of the cells.\<close>

lemmas fw_lock_cells = fw_lock_step_def [folded ap_flag_def turn_cell_def]

lemma fw_lock_frame:
  "ap_flag (fw_lock_step m) = ap_flag m" "magic_ap (fw_lock_step m) = magic_ap m" "magic_fw (fw_lock_step m) = magic_fw m"
  "c < AGX_HANDOFF_FLUSH_SLOTS \<Longrightarrow> slot (fw_lock_step m) c = slot m c"
  "hs_magic_seen (fw_lock_step m) = hs_magic_seen m" "hs_flush_seen (fw_lock_step m) = hs_flush_seen m"
  "hs_flushed (fw_lock_step m) = hs_flushed m" "hs_sched (fw_lock_step m) = hs_sched m"
  "hs_time (fw_lock_step m) = hs_time m" "hs_fault (fw_lock_step m) = hs_fault m"
  by (simp_all add: fw_lock_cells handoff_cell split: fw_pc.split)

lemma fw_magic_frame:
  "ap_flag (fw_magic_step m) = ap_flag m" "fw_flag (fw_magic_step m) = fw_flag m" "turn_cell (fw_magic_step m) = turn_cell m"
  "magic_ap (fw_magic_step m) = magic_ap m"
  "c < AGX_HANDOFF_FLUSH_SLOTS \<Longrightarrow> slot (fw_magic_step m) c = slot m c" "hs_fw (fw_magic_step m) = hs_fw m"
  "hs_flush_seen (fw_magic_step m) = hs_flush_seen m"
  "hs_flushed (fw_magic_step m) = hs_flushed m" "hs_sched (fw_magic_step m) = hs_sched m"
  "hs_time (fw_magic_step m) = hs_time m" "hs_fault (fw_magic_step m) = hs_fault m"
  by (simp_all add: fw_magic_step_def handoff_cell)

lemma fw_flush_frame:
  "ap_flag (fw_flush_step d m) = ap_flag m" "fw_flag (fw_flush_step d m) = fw_flag m" "turn_cell (fw_flush_step d m) = turn_cell m"
  "magic_ap (fw_flush_step d m) = magic_ap m" "magic_fw (fw_flush_step d m) = magic_fw m" "hs_fw (fw_flush_step d m) = hs_fw m"
  "hs_magic_seen (fw_flush_step d m) = hs_magic_seen m"
  "hs_sched (fw_flush_step d m) = hs_sched m" "hs_time (fw_flush_step d m) = hs_time m" "hs_fault (fw_flush_step d m) = hs_fault m"
  by (simp_all add: fw_flush_step_def handoff_cell)

text \<open>A thread that has seen its slot busy finishes it; it touches no other slot.\<close>

lemma fw_flush_slot:
  assumes "c < AGX_HANDOFF_FLUSH_SLOTS"
  shows "slot (fw_flush_step d m) c = (if c = d \<and> hs_flush_seen m c then (AGX_HANDOFF_FLUSH_DONE, snd (slot m c)) else slot m c)"
    "hs_flush_seen (fw_flush_step d m) c =
      (if c = d then \<not> hs_flush_seen m c \<and> fst (slot m c) = AGX_HANDOFF_FLUSH_BUSY else hs_flush_seen m c)"
    "hs_flushed (fw_flush_step d m) =
      (if d < AGX_HANDOFF_FLUSH_SLOTS \<and> hs_flush_seen m d then hs_flushed m @ [(d, snd (slot m d))] else hs_flushed m)"
  using assms by (auto simp: fw_flush_step_def handoff_cell not_le) (auto simp: slot_def)

text \<open>A slot is at rest when it is not busy and its thread is not about to store.\<close>

definition slot_rests :: "handoff_sys \<Rightarrow> u32 \<Rightarrow> bool" where
  "slot_rests m c \<longleftrightarrow> fst (slot m c) \<noteq> AGX_HANDOFF_FLUSH_BUSY \<and> \<not> hs_flush_seen m c"

definition slots_rest :: "handoff_sys \<Rightarrow> bool" where
  "slots_rest m \<longleftrightarrow> (\<forall>c<AGX_HANDOFF_FLUSH_SLOTS. slot_rests m c)"

lemma flush_constants [simp]:
  "AGX_HANDOFF_FLUSH_BUSY \<noteq> 0" "AGX_HANDOFF_FLUSH_DONE \<noteq> 0" "AGX_HANDOFF_FLUSH_BUSY \<noteq> AGX_HANDOFF_FLUSH_DONE"
  "0 \<noteq> AGX_HANDOFF_FLUSH_BUSY" "AGX_HANDOFF_FLUSH_DONE \<noteq> AGX_HANDOFF_FLUSH_BUSY"
  by (simp_all add: AGX_HANDOFF_FLUSH_BUSY_def AGX_HANDOFF_FLUSH_DONE_def)

lemma put_rests [handoff_cell]:
  assumes "c < AGX_HANDOFF_FLUSH_SLOTS" "d < AGX_HANDOFF_FLUSH_SLOTS"
  shows "slot_rests (put64 (AGX_HANDOFF_OFF_FLUSH_STATE c) v m) d =
      (if d = c then v \<noteq> AGX_HANDOFF_FLUSH_BUSY \<and> \<not> hs_flush_seen m c else slot_rests m d)"
    "slot_rests (put64 (AGX_HANDOFF_OFF_FLUSH_ADDR c) v m) d = slot_rests m d"
    "slot_rests (put64 (AGX_HANDOFF_OFF_FLUSH_SIZE c) v m) d = slot_rests m d"
  using assms by (auto simp: slot_rests_def handoff_cell)

lemma put_magic_rests [handoff_cell]:
  "d < AGX_HANDOFF_FLUSH_SLOTS \<Longrightarrow> slot_rests (put64 AGX_HANDOFF_OFF_MAGIC_AP v m) d = slot_rests m d"
  by (simp add: slot_rests_def handoff_cell)

lemma rests_unseen: "slot_rests m c \<Longrightarrow> \<not> hs_flush_seen m c"
  by (simp add: slot_rests_def)

lemma move_rests:
  assumes "c < AGX_HANDOFF_FLUSH_SLOTS" "slot_rests m c"
  shows "slot (fw_move_step y m) c = slot m c" "slot_rests (fw_move_step y m) c"
    "filter (\<lambda>f. fst f = c) (hs_flushed (fw_move_step y m)) = filter (\<lambda>f. fst f = c) (hs_flushed m)"
proof -
  have "slot (fw_move_step y m) c = slot m c \<and> slot_rests (fw_move_step y m) c \<and>
      filter (\<lambda>f. fst f = c) (hs_flushed (fw_move_step y m)) = filter (\<lambda>f. fst f = c) (hs_flushed m)"
    using assms by (cases y) (auto simp: slot_rests_def fw_lock_frame fw_magic_frame fw_flush_slot)
  then show "slot (fw_move_step y m) c = slot m c" "slot_rests (fw_move_step y m) c"
    "filter (\<lambda>f. fst f = c) (hs_flushed (fw_move_step y m)) = filter (\<lambda>f. fst f = c) (hs_flushed m)" by simp_all
qed

lemma run_rests:
  assumes "c < AGX_HANDOFF_FLUSH_SLOTS" "slot_rests m c"
  shows "slot (fw_run m) c = slot m c" "slot_rests (fw_run m) c"
    "filter (\<lambda>f. fst f = c) (hs_flushed (fw_run m)) = filter (\<lambda>f. fst f = c) (hs_flushed m)"
proof -
  have "slot (fold fw_move_step xs m) c = slot m c \<and> slot_rests (fold fw_move_step xs m) c \<and>
      filter (\<lambda>f. fst f = c) (hs_flushed (fold fw_move_step xs m)) = filter (\<lambda>f. fst f = c) (hs_flushed m)" for xs
    using assms(2) by (induction xs arbitrary: m) (simp_all add: move_rests [OF assms(1)])
  then show "slot (fw_run m) c = slot m c" "slot_rests (fw_run m) c"
    "filter (\<lambda>f. fst f = c) (hs_flushed (fw_run m)) = filter (\<lambda>f. fst f = c) (hs_flushed m)"
    using assms(2) by (simp_all add: fw_run_def slot_rests_def)
qed

section \<open>The lock protocol of the firmware\<close>

definition fw_holds :: "fw_pc \<Rightarrow> bool" where
  "fw_holds p \<longleftrightarrow> p = Fw_inside \<or> p = Fw_give \<or> p = Fw_release"

definition fw_flag_ok :: "handoff_sys \<Rightarrow> bool" where
  "fw_flag_ok m \<longleftrightarrow> fw_flag m = (if hs_fw m = Fw_raise \<or> hs_fw m = Fw_wait \<or> hs_fw m = Fw_reraise then 0 else 1)"

definition sys_ok :: "handoff_sys \<Rightarrow> bool" where
  "sys_ok m \<longleftrightarrow> fw_flag_ok m \<and> \<not> hs_fault m"

definition ap_excludes :: "handoff_sys \<Rightarrow> bool" where
  "ap_excludes m \<longleftrightarrow> ap_flag m = 1 \<and> \<not> fw_holds (hs_fw m)"

abbreviation sys_calm :: "handoff_sys \<Rightarrow> handoff_sys \<Rightarrow> bool" where
  "sys_calm \<equiv> calm sys_ok ap_flag ap_excludes"

lemma fw_lock_flag: "fw_flag_ok m \<Longrightarrow> fw_flag_ok (fw_lock_step m)"
  by (simp add: fw_flag_ok_def fw_lock_cells handoff_cell split: fw_pc.splits)

lemma fw_lock_excluded: "ap_excludes m \<Longrightarrow> ap_excludes (fw_lock_step m)"
  by (cases "hs_fw m") (simp_all add: ap_excludes_def fw_holds_def fw_lock_cells handoff_cell)

lemma calm_fields:
  "fw_flag m' = fw_flag m \<Longrightarrow> ap_flag m' = ap_flag m \<Longrightarrow> hs_fw m' = hs_fw m \<Longrightarrow> hs_fault m' = hs_fault m \<Longrightarrow> sys_calm m m'"
  by (simp add: calm_def sys_ok_def fw_flag_ok_def ap_excludes_def)

lemma fw_move_calm: "sys_calm m (fw_move_step x m)"
proof (cases x)
  case Move_lock
  then show ?thesis by (simp add: calm_def sys_ok_def fw_lock_frame fw_lock_flag fw_lock_excluded)
qed (simp_all add: calm_fields fw_magic_frame fw_flush_frame)

lemma fw_moves_calm: "sys_calm m (fold fw_move_step xs m)"
  by (induction xs arbitrary: m) (auto intro: calm_trans fw_move_calm)

lemma fw_run_calm: "sys_calm m (fw_run m)"
  unfolding fw_run_def by (rule calm_trans [OF fw_moves_calm [of m "hs_sched m (hs_time m)"]]) (simp add: calm_fields)

lemma touch_calm:
  assumes "unat off + n \<le> unat AGX_HANDOFF_SIZE" "unat off mod n = 0"
  shows "sys_calm m (touch n off m)"
  unfolding touch_def Let_def by (rule calm_trans [OF fw_run_calm]) (use assms in \<open>simp add: calm_fields\<close>)

lemma offsets_in_bounds:
  "unat AGX_HANDOFF_OFF_LOCK_AP + 1 \<le> unat AGX_HANDOFF_SIZE" "unat AGX_HANDOFF_OFF_LOCK_FW + 1 \<le> unat AGX_HANDOFF_SIZE"
  "unat AGX_HANDOFF_OFF_TURN + 4 \<le> unat AGX_HANDOFF_SIZE" "unat AGX_HANDOFF_OFF_TURN mod 4 = 0"
  "handoff_off64 off \<Longrightarrow> unat off + 8 \<le> unat AGX_HANDOFF_SIZE" "handoff_off64 off \<Longrightarrow> unat off mod 8 = 0"
proof -
  assume "handoff_off64 off"
  then show "unat off + 8 \<le> unat AGX_HANDOFF_SIZE" "unat off mod 8 = 0"
    by (auto simp: handoff_off64_def unat_offsets unat_slot_offsets slot_less mod_eq_0_iff_dvd)
qed (simp_all add: unat_offsets)

lemma put_calm:
  "sys_calm m (put32 AGX_HANDOFF_OFF_TURN y m)" "handoff_off64 off \<Longrightarrow> sys_calm m (put64 off z m)"
  by (auto simp: calm_fields handoff_cell handoff_off64_def)

text \<open>The machine keeps the contract of the lock, for every schedule, together with whatever the firmware and the lock cells do not touch.\<close>

lemma calm_and: "calm ok ap ex m m' \<Longrightarrow> (P m \<Longrightarrow> P m') \<Longrightarrow> calm (\<lambda>m. ok m \<and> P m) ap ex m m'"
  by (auto simp: calm_def)

lemma machine_lock_party:
  assumes move: "\<And>m y. P m \<Longrightarrow> P (fw_move_step y m)"
    and fields: "\<And>m t. P (m\<lparr>hs_time := t\<rparr>) = P m" "\<And>m b. P (m\<lparr>hs_fault := b\<rparr>) = P m"
    and cells: "\<And>m v. P (put8 AGX_HANDOFF_OFF_LOCK_AP v m) = P m" "\<And>m v. P (put32 AGX_HANDOFF_OFF_TURN v m) = P m"
  shows "handoff_lock_party kOps (\<lambda>m. sys_ok m \<and> P m) ap_flag ap_excludes"
proof
  have "P (fold fw_move_step xs m)" if "P m" for xs m using that by (induction xs arbitrary: m) (simp_all add: move)
  then have run: "P m \<Longrightarrow> P (fw_run m)" for m by (simp add: fw_run_def fields)
  then have tch: "P m \<Longrightarrow> P (touch n off m)" for m n off by (simp add: touch_def Let_def fields)
  note touch = calm_and [where P = P, OF touch_calm tch]
  show "calm (\<lambda>m. sys_ok m \<and> P m) ap_flag ap_excludes m (snd (ho_read8 kOps m AGX_HANDOFF_OFF_LOCK_FW))" for m
    by (simp add: kOps_def Let_def touch offsets_in_bounds [simplified])
  show "calm (\<lambda>m. sys_ok m \<and> P m) ap_flag ap_excludes m (snd (ho_read32 kOps m AGX_HANDOFF_OFF_TURN))" for m
    by (simp add: kOps_def Let_def touch offsets_in_bounds)
  show "calm (\<lambda>m. sys_ok m \<and> P m) ap_flag ap_excludes m (snd (ho_read64 kOps m AGX_HANDOFF_OFF_MAGIC_FW))" for m
    by (simp add: kOps_def Let_def touch offsets_in_bounds)
  show "calm (\<lambda>m. sys_ok m \<and> P m) ap_flag ap_excludes m (ho_write32 kOps m AGX_HANDOFF_OFF_TURN v)" for m v
    by (simp add: kOps_def calm_trans [OF touch calm_and [OF put_calm(1)]] cells offsets_in_bounds)
  show "calm (\<lambda>m. sys_ok m \<and> P m) ap_flag ap_excludes m (f m)" if "ho_relax kOps = Some f" for f m
    using that calm_and [where P = P, OF fw_run_calm run] by (auto simp: kOps_def)
  show "calm (\<lambda>m. sys_ok m \<and> P m) ap_flag ap_excludes m (f m)" if "ho_barrier kOps = Some f" for f m
    using that by (auto simp: kOps_def)
  show "(sys_ok (ho_write8 kOps m AGX_HANDOFF_OFF_LOCK_AP b) \<and> P (ho_write8 kOps m AGX_HANDOFF_OFF_LOCK_AP b))
      \<and> ap_flag (ho_write8 kOps m AGX_HANDOFF_OFF_LOCK_AP b) = b" if "sys_ok m \<and> P m" for m b
    using that touch [of AGX_HANDOFF_OFF_LOCK_AP 1 m]
    by (simp add: kOps_def calm_def sys_ok_def fw_flag_ok_def handoff_cell cells offsets_in_bounds [simplified])
  show "ap_excludes m'"
    if "sys_ok m \<and> P m" "ap_flag m = 1" "ho_read8 kOps m AGX_HANDOFF_OFF_LOCK_FW = (0, m')" for m m'
  proof -
    from that(3) have m': "m' = touch 1 AGX_HANDOFF_OFF_LOCK_FW m" and "fw_flag m' = 0"
      by (auto simp: kOps_def Let_def fw_flag_def)
    moreover have "sys_ok m'" "ap_flag m' = 1"
      using touch_calm [of AGX_HANDOFF_OFF_LOCK_FW 1 m] that by (auto simp: m' calm_def offsets_in_bounds [simplified])
    ultimately show ?thesis by (auto simp: sys_ok_def fw_flag_ok_def ap_excludes_def fw_holds_def split: if_splits)
  qed
qed

interpretation fake_ho: handoff_party kOps sys_ok ap_flag ap_excludes
proof (intro handoff_party.intro handoff_party_axioms.intro)
  show "handoff_lock_party kOps sys_ok ap_flag ap_excludes"
    using machine_lock_party [of "\<lambda>_. True"] by simp
  show "calm sys_ok ap_flag ap_excludes m (snd (ho_read64 kOps m off))" if "handoff_off64 off" for off m
    using that by (simp add: kOps_def Let_def touch_calm offsets_in_bounds)
  show "calm sys_ok ap_flag ap_excludes m (ho_write64 kOps m off v)" if "handoff_off64 off" for off m v
    using that by (simp add: kOps_def calm_trans [OF touch_calm put_calm(2)] offsets_in_bounds)
qed

text \<open>The lock leaves slots at rest alone.\<close>

interpretation rest_ho: handoff_lock_party kOps "\<lambda>m. sys_ok m \<and> slots_rest m" ap_flag ap_excludes
proof (rule machine_lock_party)
  show "slots_rest m \<Longrightarrow> slots_rest (fw_move_step y m)" for m y by (simp add: slots_rest_def move_rests)
qed (auto simp: slots_rest_def slot_rests_def handoff_cell)

end
