(* ===== verification/Handoff_Progress.thy ===== *)
theory Handoff_Progress
  imports Handoff_Firmware
begin

text \<open>
  Progress of the firmware under a schedule that gives each of its threads a move within every \<open>K\<close> accesses of the AP. The
  locale \<open>fw_progress\<close> says when a rank shrinks with the moves of one thread; it is interpreted for the thread that
  lets the AP in, the one that gives the turn back, the one that answers the magic number and the one that flushes a slot. With
  these the spinning loops of the driver are shown to end with success.
\<close>

section \<open>Schedules\<close>

definition fair :: "nat \<Rightarrow> fw_move \<Rightarrow> (nat \<Rightarrow> fw_move list) \<Rightarrow> bool" where
  "fair K x s \<longleftrightarrow> (\<forall>n. \<exists>i<K. x \<in> set (s (n + i)))"

definition live :: "nat \<Rightarrow> (handoff_sys \<Rightarrow> bool) \<Rightarrow> (handoff_sys \<Rightarrow> nat) \<Rightarrow> fw_move \<Rightarrow> nat \<Rightarrow> handoff_sys \<Rightarrow> bool" where
  "live K I rank x k m \<longleftrightarrow> I m \<and> fair K x (hs_sched m) \<and>
     (rank m = 0 \<or> (\<exists>i<K. x \<in> set (hs_sched m (hs_time m + i)) \<and> rank m * K + i \<le> k))"

lemma live_start: "I m \<Longrightarrow> fair K x (hs_sched m) \<Longrightarrow> rank m \<le> r \<Longrightarrow> (r + 1) * K \<le> k \<Longrightarrow> live K I rank x k m"
proof -
  assume I: "I m" and f: "fair K x (hs_sched m)" and r: "rank m \<le> r" "(r + 1) * K \<le> k"
  from f obtain i where i: "i < K" "x \<in> set (hs_sched m (hs_time m + i))" unfolding fair_def by blast
  have "rank m * K \<le> r * K" "r * K + K \<le> k" using r by (simp_all add: algebra_simps)
  then have "rank m * K + i \<le> k" using i(1) by linarith
  with I f i show ?thesis unfolding live_def by blast
qed

lemma live_done: "live K I rank x 0 m \<Longrightarrow> rank m = 0"
  by (auto simp: live_def)

lemma live_mono: "live K I rank x k m \<Longrightarrow> k \<le> k' \<Longrightarrow> live K I rank x k' m"
  by (auto simp: live_def)

lemma fw_moves_frame:
  "hs_sched (fold fw_move_step xs m) = hs_sched m" "hs_time (fold fw_move_step xs m) = hs_time m"
proof (induction xs arbitrary: m)
  case (Cons y ys)
  { case 1 then show ?case using Cons by (cases y) (simp_all add: fw_lock_frame fw_magic_frame fw_flush_frame) }
  { case 2 then show ?case using Cons by (cases y) (simp_all add: fw_lock_frame fw_magic_frame fw_flush_frame) }
qed simp_all

locale fw_progress =
  fixes I :: "handoff_sys \<Rightarrow> bool" and rank :: "handoff_sys \<Rightarrow> nat" and x :: fw_move
  assumes keeps: "I m \<Longrightarrow> I (fw_move_step y m)"
    and mono: "I m \<Longrightarrow> rank (fw_move_step y m) \<le> rank m"
    and progress: "I m \<Longrightarrow> 0 < rank m \<Longrightarrow> rank (fw_move_step x m) < rank m"
    and timeless: "I (m\<lparr>hs_time := t\<rparr>) = I m" "rank (m\<lparr>hs_time := t\<rparr>) = rank m"
begin

lemma moves_keep: "I m \<Longrightarrow> I (fold fw_move_step xs m) \<and> rank (fold fw_move_step xs m) \<le> rank m"
  by (induction xs arbitrary: m) (auto intro: order_trans keeps mono)

lemma moves_progress:
  "I m \<Longrightarrow> x \<in> set xs \<Longrightarrow> rank m = 0 \<or> rank (fold fw_move_step xs m) < rank m"
proof (induction xs arbitrary: m)
  case (Cons y ys)
  show ?case
  proof (cases "y = x")
    case True
    then show ?thesis
      using Cons.prems progress [of m] moves_keep [OF keeps [OF Cons.prems(1)], of ys x] by fastforce
  next
    case False
    then show ?thesis
      using Cons.prems Cons.IH [OF keeps [OF Cons.prems(1)], of y] mono [OF Cons.prems(1), of y]
        moves_keep [OF keeps [OF Cons.prems(1)], of ys y] by fastforce
  qed
qed simp

lemma run_live:
  assumes "live K I rank x k m"
  shows "live K I rank x (k - 1) (fw_run m)"
proof -
  let ?xs = "hs_sched m (hs_time m)"
  let ?r = "rank (fold fw_move_step ?xs m)"
  have I: "I (fold fw_move_step ?xs m)" and le: "?r \<le> rank m"
    using assms moves_keep [of m ?xs] by (auto simp: live_def)
  have run: "I (fw_run m)" "rank (fw_run m) = ?r" "hs_sched (fw_run m) = hs_sched m" "hs_time (fw_run m) = hs_time m + 1"
    using I by (simp_all add: fw_run_def timeless fw_moves_frame)
  have fair: "fair K x (hs_sched m)" using assms by (simp add: live_def)
  show ?thesis
  proof (cases "?r = 0")
    case True
    then show ?thesis using run fair by (simp add: live_def)
  next
    case False
    with assms le obtain i where i: "i < K" "x \<in> set (hs_sched m (hs_time m + i))" "rank m * K + i \<le> k"
      by (auto simp: live_def)
    show ?thesis
    proof (cases i)
      case 0
      with i assms moves_progress [of m ?xs] False le have "?r < rank m" by (auto simp: live_def)
      then have "(?r + 1) * K \<le> rank m * K" by (intro mult_right_mono) simp_all
      moreover obtain j where "j < K" "x \<in> set (hs_sched m (hs_time m + 1 + j))" using fair unfolding fair_def by blast
      ultimately show ?thesis using run fair i 0 by (auto simp: live_def algebra_simps intro!: exI [of _ j])
    next
      case (Suc j)
      have "?r * K \<le> rank m * K" using le by simp
      then have "?r * K + j \<le> k - 1" using i(3) Suc by linarith
      then show ?thesis using run fair i Suc by (auto simp: live_def intro!: exI [of _ j])
    qed
  qed
qed

end

section \<open>The threads\<close>

text \<open>While the AP claims the lock and the turn is its own, the firmware steps back until it waits.\<close>

definition claim_inv :: "u64 \<Rightarrow> handoff_sys \<Rightarrow> bool" where
  "claim_inv g m \<longleftrightarrow> sys_ok m \<and> ap_flag m = 1 \<and> turn_cell m = 0 \<and> magic_ap m = g"

definition claim_rank :: "handoff_sys \<Rightarrow> nat" where
  "claim_rank m = (case hs_fw m of Fw_wait \<Rightarrow> 0 | Fw_drop \<Rightarrow> 1 | Fw_turn \<Rightarrow> 2 | Fw_check \<Rightarrow> 3 | Fw_raise \<Rightarrow> 4
     | Fw_reraise \<Rightarrow> 4 | Fw_release \<Rightarrow> 5 | Fw_give \<Rightarrow> 6 | Fw_inside \<Rightarrow> 7)"

text \<open>While the AP has stepped back, the firmware goes through its section and gives the turn away.\<close>

definition yield_inv :: "u64 \<Rightarrow> handoff_sys \<Rightarrow> bool" where
  "yield_inv g m \<longleftrightarrow> sys_ok m \<and> ap_flag m = 0 \<and> magic_ap m = g"

definition yield_rank :: "handoff_sys \<Rightarrow> nat" where
  "yield_rank m = (if turn_cell m = 0 then 0 else case hs_fw m of Fw_give \<Rightarrow> 1 | Fw_inside \<Rightarrow> 2 | Fw_check \<Rightarrow> 3
     | Fw_turn \<Rightarrow> 4 | Fw_raise \<Rightarrow> 4 | Fw_reraise \<Rightarrow> 4 | Fw_wait \<Rightarrow> 5 | Fw_release \<Rightarrow> 5 | Fw_drop \<Rightarrow> 6)"

definition magic_inv :: "handoff_sys \<Rightarrow> bool" where
  "magic_inv m \<longleftrightarrow> sys_ok m \<and> magic_ap m = AGX_HANDOFF_MAGIC"

definition magic_rank :: "handoff_sys \<Rightarrow> nat" where
  "magic_rank m = (if magic_fw m = AGX_HANDOFF_MAGIC then 0 else if hs_magic_seen m then 1 else 2)"

text \<open>A slot that was handed over with an address and a size: still busy, or flushed once more than before.\<close>

definition flush_inv :: "u32 \<Rightarrow> u64 \<times> u64 \<Rightarrow> (u32 \<times> u64 \<times> u64) list \<Rightarrow> handoff_sys \<Rightarrow> bool" where
  "flush_inv c a l m \<longleftrightarrow> sys_ok m \<and> c < AGX_HANDOFF_FLUSH_SLOTS \<and>
     (slot m c = (AGX_HANDOFF_FLUSH_BUSY, a) \<and> filter (\<lambda>f. fst f = c) (hs_flushed m) = l \<or>
      slot m c = (AGX_HANDOFF_FLUSH_DONE, a) \<and> \<not> hs_flush_seen m c \<and> filter (\<lambda>f. fst f = c) (hs_flushed m) = l @ [(c, a)])"

definition flush_rank :: "u32 \<Rightarrow> handoff_sys \<Rightarrow> nat" where
  "flush_rank c m = (if fst (slot m c) \<noteq> AGX_HANDOFF_FLUSH_BUSY then 0 else if hs_flush_seen m c then 1 else 2)"

lemma sys_ok_move: "sys_ok m \<Longrightarrow> sys_ok (fw_move_step y m)"
  using fw_move_calm by (auto simp: calm_def)

lemma sys_ok_time [simp]: "sys_ok (m\<lparr>hs_time := t\<rparr>) = sys_ok m"
  by (simp add: sys_ok_def fw_flag_ok_def)

interpretation claim: fw_progress "claim_inv g" claim_rank Move_lock
proof
  fix m y
  assume c: "claim_inv g m"
  show "claim_inv g (fw_move_step y m)"
    using c sys_ok_move [of m y]
    by (cases y) (auto simp: claim_inv_def fw_lock_frame fw_magic_frame fw_flush_frame fw_lock_cells handoff_cell split: fw_pc.splits)
  have lock: "claim_rank (fw_lock_step m) = claim_rank m - 1"
    using c by (simp add: claim_inv_def claim_rank_def fw_lock_cells handoff_cell split: fw_pc.splits)
  then show "claim_rank (fw_move_step y m) \<le> claim_rank m"
    by (cases y) (simp_all add: claim_rank_def fw_magic_frame fw_flush_frame)
  show "0 < claim_rank m \<Longrightarrow> claim_rank (fw_move_step Move_lock m) < claim_rank m" using lock by simp
qed (simp_all add: claim_inv_def claim_rank_def)

interpretation yields: fw_progress "yield_inv g" yield_rank Move_lock
proof
  fix m y
  assume c: "yield_inv g m"
  show "yield_inv g (fw_move_step y m)"
    using c sys_ok_move [of m y] by (cases y) (auto simp: yield_inv_def fw_lock_frame fw_magic_frame fw_flush_frame)
  have lock: "yield_rank (fw_lock_step m) \<le> yield_rank m - 1"
    using c by (simp add: yield_inv_def yield_rank_def fw_lock_cells handoff_cell split: fw_pc.splits)
  then show "yield_rank (fw_move_step y m) \<le> yield_rank m"
    by (cases y) (simp_all add: yield_rank_def fw_magic_frame fw_flush_frame)
  show "0 < yield_rank m \<Longrightarrow> yield_rank (fw_move_step Move_lock m) < yield_rank m" using lock by simp
qed (simp_all add: yield_inv_def yield_rank_def)

interpretation magic: fw_progress magic_inv magic_rank Move_magic
proof
  fix m y
  assume c: "magic_inv m"
  show "magic_inv (fw_move_step y m)"
    using c sys_ok_move [of m y] by (cases y) (auto simp: magic_inv_def fw_lock_frame fw_magic_frame fw_flush_frame)
  have m: "magic_rank (fw_magic_step m) \<le> magic_rank m - 1"
    using c by (simp add: magic_inv_def magic_rank_def magic_ap_def [symmetric] fw_magic_step_def handoff_cell)
  then show "magic_rank (fw_move_step y m) \<le> magic_rank m"
    by (cases y) (simp_all add: magic_rank_def fw_lock_frame fw_flush_frame)
  show "0 < magic_rank m \<Longrightarrow> magic_rank (fw_move_step Move_magic m) < magic_rank m" using m by simp
qed (simp_all add: magic_inv_def magic_rank_def)

interpretation flush: fw_progress "flush_inv c a l" "flush_rank c" "Move_flush c"
proof
  fix m y
  assume i: "flush_inv c a l m"
  then have c: "c < AGX_HANDOFF_FLUSH_SLOTS" and ok: "sys_ok (fw_move_step y m)"
    using sys_ok_move by (auto simp: flush_inv_def)
  show "flush_inv c a l (fw_move_step y m)"
    using i ok c by (cases y) (auto simp: flush_inv_def fw_lock_frame fw_magic_frame fw_flush_slot [OF c])
  show "flush_rank c (fw_move_step y m) \<le> flush_rank c m"
    using i c by (cases y) (auto simp: flush_inv_def flush_rank_def fw_lock_frame fw_magic_frame fw_flush_slot [OF c])
  show "0 < flush_rank c m \<Longrightarrow> flush_rank c (fw_move_step (Move_flush c) m) < flush_rank c m"
    using i c by (auto simp: flush_rank_def fw_flush_slot [OF c] split: if_splits)
qed (simp_all add: flush_inv_def flush_rank_def)

section \<open>The driver on the machine\<close>

named_theorems handoff_run "accesses of the driver on the machine"

lemma touch_run: "unat off + n \<le> unat AGX_HANDOFF_SIZE \<Longrightarrow> unat off mod n = 0 \<Longrightarrow> touch n off m = fw_run m"
  by (simp add: touch_def Let_def)

lemma machine_access [handoff_run]:
  assumes "ho_ops ho = kOps"
  shows "rd8 ho AGX_HANDOFF_OFF_LOCK_FW = (fw_flag (fw_run (ho_ctx ho)), ho\<lparr>ho_ctx := fw_run (ho_ctx ho)\<rparr>)"
    "rd32 ho AGX_HANDOFF_OFF_TURN = (turn_cell (fw_run (ho_ctx ho)), ho\<lparr>ho_ctx := fw_run (ho_ctx ho)\<rparr>)"
    "rd64 ho AGX_HANDOFF_OFF_MAGIC_FW = (magic_fw (fw_run (ho_ctx ho)), ho\<lparr>ho_ctx := fw_run (ho_ctx ho)\<rparr>)"
    "c < AGX_HANDOFF_FLUSH_SLOTS \<Longrightarrow>
       rd64 ho (AGX_HANDOFF_OFF_FLUSH_STATE c) = (fst (slot (fw_run (ho_ctx ho)) c), ho\<lparr>ho_ctx := fw_run (ho_ctx ho)\<rparr>)"
    "wr8 ho AGX_HANDOFF_OFF_LOCK_AP x = ho\<lparr>ho_ctx := put8 AGX_HANDOFF_OFF_LOCK_AP x (fw_run (ho_ctx ho))\<rparr>"
    "wr32 ho AGX_HANDOFF_OFF_TURN y = ho\<lparr>ho_ctx := put32 AGX_HANDOFF_OFF_TURN y (fw_run (ho_ctx ho))\<rparr>"
    "handoff_off64 off \<Longrightarrow> wr64 ho off z = ho\<lparr>ho_ctx := put64 off z (fw_run (ho_ctx ho))\<rparr>"
    "agx_handoff_relax ho = ho\<lparr>ho_ctx := fw_run (ho_ctx ho)\<rparr>" "agx_handoff_barrier ho = ho"
  using assms
  by (simp_all add: rd8_def rd32_def rd64_def wr8_def wr32_def wr64_def agx_handoff_relax_def agx_handoff_barrier_def
      kOps_def Let_def touch_run offsets_in_bounds offsets_in_bounds [simplified]
      fw_flag_def turn_cell_def magic_fw_def slot_def)

lemma run_sched [simp]: "hs_sched (fw_run m) = hs_sched m"
  by (simp add: fw_run_def fw_moves_frame)

section \<open>Loops that succeed\<close>

definition spin_room :: "u32 \<Rightarrow> u32 \<Rightarrow> nat \<Rightarrow> bool" where
  "spin_room max_spins spins k \<longleftrightarrow> max_spins = 0 \<or> unat spins + k \<le> unat max_spins"

lemma spin_room_step:
  assumes "spin_room max_spins spins (Suc k)"
  obtains spins' where "spin max_spins spins = (False, spins')" "spin_room max_spins spins' k"
proof (cases "max_spins = 0")
  case True
  then show ?thesis using that [of spins] by (simp add: spin_def spin_room_def)
next
  case False
  have "unat max_spins < 2 ^ 32" by (rule order_less_le_trans [OF unsigned_less]) simp
  then have "unat (spins + 1) = unat spins + 1"
    using assms False by (simp add: spin_room_def unat_word_ariths)
  then show ?thesis using assms False that [of "spins + 1"]
    by (simp add: spin_room_def spin_def word_less_nat_alt)
qed

lemma spin_room_mono: "spin_room mx s k \<Longrightarrow> k' \<le> k \<Longrightarrow> spin_room mx s k'"
  by (auto simp: spin_room_def)

lemma lock_turn_live:
  assumes "live K (yield_inv g) yield_rank Move_lock k (ho_ctx ho)" "ho_ops ho = kOps" "spin_room mx s (k + j)"
  shows "\<exists>s' m. lock_turn mx s ho = Some (False, s', ho\<lparr>ho_ctx := m\<rparr>) \<and> spin_room mx s' j \<and> yield_inv g m
    \<and> turn_cell m = 0 \<and> hs_sched m = hs_sched (ho_ctx ho)"
  using assms
proof (induction k arbitrary: ho s)
  case (0 ho)
  let ?m = "fw_run (ho_ctx ho)"
  note r = yields.run_live [OF 0(1), simplified]
  have t: "turn_cell ?m = 0"
    using live_done [OF r] by (auto simp: yield_rank_def split: if_splits fw_pc.splits)
  then have "lock_turn mx s ho = Some (False, s, ho\<lparr>ho_ctx := ?m\<rparr>)"
    using 0(2) by (subst lock_turn.simps) (simp add: handoff_run)
  with t r 0 show ?case by (auto simp: live_def intro!: exI [of _ ?m])
next
  case (Suc k ho)
  let ?m = "fw_run (ho_ctx ho)"
  note r = yields.run_live [OF Suc.prems(1), simplified]
  show ?case
  proof (cases "turn_cell ?m = 0")
    case True
    then have "lock_turn mx s ho = Some (False, s, ho\<lparr>ho_ctx := ?m\<rparr>)"
      using Suc.prems(2) by (subst lock_turn.simps) (simp add: handoff_run)
    with True r Suc.prems(3) show ?thesis by (auto simp: live_def elim: spin_room_mono intro!: exI [of _ ?m])
  next
    case False
    obtain s' where s': "spin mx s = (False, s')" "spin_room mx s' (k + j)"
      using spin_room_step Suc.prems(3) by (metis add_Suc)
    let ?ho = "ho\<lparr>ho_ctx := fw_run ?m\<rparr>"
    have l: "live K (yield_inv g) yield_rank Move_lock k (ho_ctx ?ho)"
      using live_mono [OF yields.run_live [OF r], of k] by simp
    have "lock_turn mx s ho = lock_turn mx s' ?ho"
      using Suc.prems(2) False s'(1) by (subst lock_turn.simps) (simp add: handoff_run)
    with Suc.IH [OF l _ s'(2)] Suc.prems(2) show ?thesis by simp
  qed
qed

lemma claim_enters: "claim_inv g m \<Longrightarrow> claim_rank m = 0 \<Longrightarrow> fw_flag m = 0"
  by (auto simp: claim_inv_def sys_ok_def fw_flag_ok_def claim_rank_def split: fw_pc.splits)

lemma lock_loop_enters:
  assumes "ho_ops ho = kOps" "fw_flag (fw_run (ho_ctx ho)) = 0"
  shows "lock_loop mx s ho = Some (0, ho\<lparr>ho_ctx := fw_run (ho_ctx ho), ho_locked := True\<rparr>)"
  using assms by (subst lock_loop.simps) (simp add: handoff_run)

lemma lock_loop_again:
  assumes "ho_ops ho = kOps" "fw_flag (fw_run (ho_ctx ho)) \<noteq> 0" "spin mx s' = (False, s'')"
    and "lock_yield mx s (ho\<lparr>ho_ctx := fw_run (ho_ctx ho)\<rparr>) = Some (False, s', ho\<lparr>ho_ctx := m\<rparr>)"
  shows "lock_loop mx s ho = lock_loop mx s'' (ho\<lparr>ho_ctx := fw_run m\<rparr>)"
  using assms by (subst lock_loop.simps) (simp add: handoff_run)

lemma lock_loop_live:
  assumes "live K (claim_inv g) claim_rank Move_lock k (ho_ctx ho)" "ho_ops ho = kOps" "spin_room mx s k"
  shows "\<exists>m. lock_loop mx s ho = Some (0, ho\<lparr>ho_ctx := m, ho_locked := True\<rparr>) \<and> magic_ap m = g \<and> hs_sched m = hs_sched (ho_ctx ho)"
  using assms
proof (induction k arbitrary: ho s)
  case (0 ho)
  note r = claim.run_live [OF 0(1), simplified]
  then have "fw_flag (fw_run (ho_ctx ho)) = 0"
    using live_done [OF r] claim_enters by (auto simp: live_def)
  from lock_loop_enters [OF 0(2) this] r show ?case
    by (auto simp: live_def claim_inv_def intro!: exI [of _ "fw_run (ho_ctx ho)"])
next
  case (Suc k ho)
  let ?m = "fw_run (ho_ctx ho)"
  note r = claim.run_live [OF Suc.prems(1), simplified]
  note r2 = claim.run_live [OF r]
  show ?case
  proof (cases "fw_flag ?m = 0")
    case True
    from lock_loop_enters [OF Suc.prems(2) this] r show ?thesis
      by (auto simp: live_def claim_inv_def intro!: exI [of _ ?m])
  next
    case False
    obtain s' where s': "spin mx s = (False, s')" "spin_room mx s' k"
      using spin_room_step Suc.prems(3) by metis
    let ?ho = "ho\<lparr>ho_ctx := fw_run (fw_run ?m)\<rparr>"
    have l: "live K (claim_inv g) claim_rank Move_lock k (ho_ctx ?ho)"
      using live_mono [OF claim.run_live [OF r2], of k] by simp
    have "turn_cell (fw_run ?m) = 0" using r2 by (simp add: live_def claim_inv_def)
    then have y: "lock_yield mx s (ho\<lparr>ho_ctx := ?m\<rparr>) = Some (False, s, ho\<lparr>ho_ctx := fw_run ?m\<rparr>)"
      using Suc.prems(2) by (simp add: lock_yield_def handoff_run)
    from lock_loop_again [OF Suc.prems(2) False s'(1) y] Suc.IH [OF l _ s'(2)] Suc.prems(2) show ?thesis by simp
  qed
qed

lemma run_keeps: "sys_ok m \<Longrightarrow> sys_ok (fw_run m)" "sys_ok m \<Longrightarrow> ap_flag (fw_run m) = ap_flag m"
  using fw_run_calm [of m] by (auto simp: calm_def)

lemma run_magic_ap [simp]: "magic_ap (fw_run m) = magic_ap m"
proof -
  have "magic_ap (fold fw_move_step xs m) = magic_ap m" for xs
  proof (induction xs arbitrary: m)
    case (Cons y ys)
    then show ?case by (cases y) (simp_all add: fw_lock_frame fw_magic_frame fw_flush_frame)
  qed simp
  then show ?thesis by (simp add: fw_run_def)
qed

lemma put_ap_ok: "sys_ok m \<Longrightarrow> sys_ok (put8 AGX_HANDOFF_OFF_LOCK_AP b m)"
  by (simp add: sys_ok_def fw_flag_ok_def handoff_cell)

lemma rank_bounds: "claim_rank m \<le> 7" "yield_rank m \<le> 6"
  by (simp_all add: claim_rank_def yield_rank_def split: fw_pc.split)

lemma claim_starts:
  assumes "claim_inv g m" "fair K Move_lock (hs_sched m)"
  shows "live K (claim_inv g) claim_rank Move_lock (8 * K) (fw_run m)"
  by (rule live_mono [OF claim.run_live [OF live_start [where I = "claim_inv g", OF assms rank_bounds(1) order_refl]]]) simp

lemma yield_turn_kept:
  assumes "yield_inv g m" "turn_cell m = 0" "fair K Move_lock (hs_sched m)"
  shows "turn_cell (fw_run m) = 0"
proof -
  have "live K (yield_inv g) yield_rank Move_lock 0 m" using assms by (simp add: live_def yield_rank_def)
  from live_done [OF yields.run_live [OF this, simplified]] show ?thesis
    by (auto simp: yield_rank_def split: if_splits fw_pc.splits)
qed

text \<open>The first pass of the loop when the firmware has its byte set: wherever the turn is, a claim follows.\<close>

lemma lock_yield_live:
  assumes "sys_ok m" "ap_flag m = 1" "ho_ops ho = kOps" "fair K Move_lock (hs_sched m)" "spin_room mx 0 (16 * K)" "0 < K"
  shows "\<exists>s' m'. lock_yield mx 0 (ho\<lparr>ho_ctx := m\<rparr>) = Some (False, s', ho\<lparr>ho_ctx := m'\<rparr>) \<and> spin_room mx s' (8 * K + 1)
    \<and> claim_inv (magic_ap m) m' \<and> hs_sched m' = hs_sched m"
proof (cases "turn_cell (fw_run m) = 0")
  case True
  then have "lock_yield mx 0 (ho\<lparr>ho_ctx := m\<rparr>) = Some (False, 0, ho\<lparr>ho_ctx := fw_run m\<rparr>)"
    using assms(3) by (simp add: lock_yield_def handoff_run)
  moreover have "claim_inv (magic_ap m) (fw_run m)" using True assms(1,2) by (simp add: claim_inv_def run_keeps)
  moreover have "spin_room mx 0 (8 * K + 1)" by (rule spin_room_mono [OF assms(5)]) (use assms(6) in simp)
  ultimately show ?thesis by (intro exI [of _ "0 :: u32"] exI [of _ "fw_run m"]) simp
next
  case False
  let ?g = "magic_ap m"
  let ?m = "put8 AGX_HANDOFF_OFF_LOCK_AP 0 (fw_run (fw_run m))"
  have y: "yield_inv ?g ?m" using assms(1) by (simp add: yield_inv_def run_keeps put_ap_ok handoff_cell)
  have l: "live K (yield_inv ?g) yield_rank Move_lock (7 * K) (ho_ctx (ho\<lparr>ho_ctx := ?m\<rparr>))"
    using live_start [where I = "yield_inv ?g", OF y _ rank_bounds(2) order_refl, of K Move_lock] assms(4) by simp
  have "spin_room mx 0 (7 * K + (8 * K + 1))" by (rule spin_room_mono [OF assms(5)]) (use assms(6) in simp)
  from lock_turn_live [OF l _ this] assms(3) obtain s' m1 where t:
    "lock_turn mx 0 (ho\<lparr>ho_ctx := ?m\<rparr>) = Some (False, s', ho\<lparr>ho_ctx := m1\<rparr>)" "spin_room mx s' (8 * K + 1)"
    "yield_inv ?g m1" "turn_cell m1 = 0" "hs_sched m1 = hs_sched m" by auto
  let ?m2 = "put8 AGX_HANDOFF_OFF_LOCK_AP 1 (fw_run m1)"
  have "lock_yield mx 0 (ho\<lparr>ho_ctx := m\<rparr>) = Some (False, s', ho\<lparr>ho_ctx := ?m2\<rparr>)"
    using assms(3) False t(1) by (simp add: lock_yield_def handoff_run)
  moreover have "claim_inv ?g ?m2"
    using t(3-5) yield_turn_kept [OF t(3,4), of K] assms(4)
    by (simp add: claim_inv_def yield_inv_def run_keeps put_ap_ok handoff_cell)
  ultimately show ?thesis using t by (intro exI [of _ s'] exI [of _ ?m2]) simp
qed

lemma lock_live:
  assumes "sys_ok (ho_ctx ho)" "ho_ops ho = kOps" "fair K Move_lock (hs_sched (ho_ctx ho))" "spin_room mx 0 (16 * K)"
  shows "\<exists>m. agx_handoff_lock ho mx = Some (0, ho\<lparr>ho_ctx := m, ho_locked := True\<rparr>) \<and> magic_ap m = magic_ap (ho_ctx ho)
    \<and> hs_sched m = hs_sched (ho_ctx ho)"
proof -
  let ?m0 = "put8 AGX_HANDOFF_OFF_LOCK_AP 1 (fw_run (ho_ctx ho))"
  let ?h0 = "ho\<lparr>ho_ctx := ?m0\<rparr>"
  have K: "0 < K" using assms(3) by (cases K) (auto simp: fair_def)
  have lock: "agx_handoff_lock ho mx = lock_loop mx 0 ?h0" using assms(2) by (simp add: agx_handoff_lock_def handoff_run)
  have ok: "sys_ok ?m0" "ap_flag ?m0 = 1" using assms(1) by (simp_all add: run_keeps put_ap_ok handoff_cell)
  show ?thesis
  proof (cases "fw_flag (fw_run ?m0) = 0")
    case True
    from lock_loop_enters [of ?h0 mx 0] True lock assms(2) show ?thesis
      by (auto simp: handoff_cell intro!: exI [of _ "fw_run ?m0"])
  next
    case False
    obtain s' m' where y: "lock_yield mx 0 (?h0\<lparr>ho_ctx := fw_run ?m0\<rparr>) = Some (False, s', ?h0\<lparr>ho_ctx := m'\<rparr>)"
      "spin_room mx s' (8 * K + 1)" "claim_inv (magic_ap (ho_ctx ho)) m'" "hs_sched m' = hs_sched (ho_ctx ho)"
      using lock_yield_live [of "fw_run ?m0" ?h0 K mx] ok assms K by (auto simp: run_keeps handoff_cell)
    obtain s'' where s: "spin mx s' = (False, s'')" "spin_room mx s'' (8 * K)"
      using spin_room_step y(2) by (metis Suc_eq_plus1)
    let ?h1 = "?h0\<lparr>ho_ctx := fw_run m'\<rparr>"
    have l: "live K (claim_inv (magic_ap (ho_ctx ho))) claim_rank Move_lock (8 * K) (ho_ctx ?h1)"
      using claim_starts [OF y(3), of K] y(4) assms(3) by simp
    have "agx_handoff_lock ho mx = lock_loop mx s'' ?h1"
      using lock_loop_again [of ?h0 mx s' s'' 0 m'] False s(1) y(1) lock assms(2) by simp
    with lock_loop_live [OF l _ s(2)] assms(2) y(4) show ?thesis by simp
  qed
qed

section \<open>The magic exchange and the slots\<close>

lemma magic_loop_live:
  assumes "live K magic_inv magic_rank Move_magic k (ho_ctx ho)" "ho_ops ho = kOps" "spin_room mx s k"
  shows "\<exists>m. magic_loop mx s ho = Some (False, ho\<lparr>ho_ctx := m\<rparr>)"
  using assms
proof (induction k arbitrary: ho s)
  case (0 ho)
  from live_done [OF magic.run_live [OF 0(1), simplified]] 0(2) show ?case
    by (subst magic_loop.simps) (auto simp: handoff_run magic_rank_def split: if_splits)
next
  case (Suc k ho)
  let ?m = "fw_run (ho_ctx ho)"
  show ?case
  proof (cases "magic_fw ?m = AGX_HANDOFF_MAGIC")
    case True
    then show ?thesis using Suc.prems(2) by (subst magic_loop.simps) (auto simp: handoff_run)
  next
    case False
    obtain s' where s': "spin mx s = (False, s')" "spin_room mx s' k" using spin_room_step Suc.prems(3) by metis
    have l: "live K magic_inv magic_rank Move_magic k (ho_ctx (ho\<lparr>ho_ctx := fw_run ?m\<rparr>))"
      using live_mono [OF magic.run_live [OF magic.run_live [OF Suc.prems(1)]], of k] by simp
    have "magic_loop mx s ho = magic_loop mx s' (ho\<lparr>ho_ctx := fw_run ?m\<rparr>)"
      using Suc.prems(2) False s'(1) by (subst magic_loop.simps) (simp add: handoff_run)
    with Suc.IH [OF l _ s'(2)] Suc.prems(2) show ?thesis by simp
  qed
qed

lemma clear_slot_clears:
  assumes "ho_ops ho = kOps" "c < AGX_HANDOFF_FLUSH_SLOTS" "slots_rest (ho_ctx ho)"
  shows "slots_rest (ho_ctx (clear_slot c ho))" "slot (ho_ctx (clear_slot c ho)) c = (0, 0, 0)"
    "d < AGX_HANDOFF_FLUSH_SLOTS \<Longrightarrow> slot (ho_ctx ho) d = (0, 0, 0) \<Longrightarrow> slot (ho_ctx (clear_slot c ho)) d = (0, 0, 0)"
proof -
  have r: "slot_rests (ho_ctx ho) e" if "e < AGX_HANDOFF_FLUSH_SLOTS" for e using assms(3) that by (simp add: slots_rest_def)
  note s = clear_slot_def handoff_run handoff_cell run_rests r rests_unseen assms
  show "slots_rest (ho_ctx (clear_slot c ho))" by (simp add: slots_rest_def s)
  show "slot (ho_ctx (clear_slot c ho)) c = (0, 0, 0)" by (simp add: s)
  show "slot (ho_ctx (clear_slot c ho)) d = (0, 0, 0)" if "d < AGX_HANDOFF_FLUSH_SLOTS" "slot (ho_ctx ho) d = (0, 0, 0)"
    using that by (simp add: s)
qed

lemma clear_slots_clear:
  "ho_ops ho = kOps \<Longrightarrow> \<forall>c\<in>set cs. c < AGX_HANDOFF_FLUSH_SLOTS \<Longrightarrow> slots_rest (ho_ctx ho) \<Longrightarrow> d < AGX_HANDOFF_FLUSH_SLOTS \<Longrightarrow>
   d \<in> set cs \<or> slot (ho_ctx ho) d = (0, 0, 0) \<Longrightarrow> slot (ho_ctx (fold clear_slot cs ho)) d = (0, 0, 0)"
proof (induction cs arbitrary: ho)
  case (Cons c cs)
  note clr = clear_slot_clears [OF Cons.prems(1) _ Cons.prems(3), of c]
  have "ho_ops (clear_slot c ho) = kOps" using Cons.prems(1) by (simp add: clear_slot_def wr64_def)
  moreover have "d \<in> set cs \<or> slot (ho_ctx (clear_slot c ho)) d = (0, 0, 0)" using Cons.prems clr by auto
  ultimately show ?case using Cons clr by simp
qed simp

lemma every_slot_listed: "d < AGX_HANDOFF_FLUSH_SLOTS \<Longrightarrow> d \<in> set (map of_nat [0..<unat AGX_HANDOFF_FLUSH_SLOTS])"
  by (auto simp: word_less_nat_alt intro!: image_eqI [of _ _ "unat d"])

lemma wait_firmware_clears:
  assumes "agx_handoff_wait_firmware ho mx = Some (0, ho')" "ho_ops ho = kOps" "sys_ok (ho_ctx ho)" "slots_rest (ho_ctx ho)"
    and d: "d < AGX_HANDOFF_FLUSH_SLOTS"
  shows "slot (ho_ctx ho') d = (0, 0, 0)"
proof -
  let ?h0 = "wr64 ho AGX_HANDOFF_OFF_MAGIC_AP AGX_HANDOFF_MAGIC"
  have ok: "sys_ok (ho_ctx ?h0)"
    using fake_ho.quietD [OF fake_ho.slot_quiet(2) [of ho AGX_HANDOFF_OFF_MAGIC_AP AGX_HANDOFF_MAGIC]] assms by simp
  have h0: "ho_ops ?h0 = kOps \<and> sys_ok (ho_ctx ?h0) \<and> slots_rest (ho_ctx ?h0)"
    using ok assms(2,4) by (simp add: handoff_run slots_rest_def handoff_cell run_rests)
  from assms(1) obtain r1 h1 where l: "agx_handoff_lock ?h0 mx = Some (r1, h1)"
    by (auto simp: agx_handoff_wait_firmware_def bind_eq_Some_conv)
  have h1: "ho_ops h1 = kOps \<and> sys_ok (ho_ctx h1) \<and> slots_rest (ho_ctx h1)" using rest_ho.lock_sound [OF l h0] by simp
  from assms(1) l obtain over h2 where r1: "r1 = 0" and mg: "magic_loop mx 0 h1 = Some (over, h2)"
    by (auto simp: agx_handoff_wait_firmware_def bind_eq_Some_conv split: if_splits)
  have u: "ho_ops (agx_handoff_unlock h2) = kOps" "slots_rest (ho_ctx (agx_handoff_unlock h2))"
    using rest_ho.magic_loop_sound [OF mg h1] rest_ho.unlock_sound [of h2] by simp_all
  have "\<not> over" using assms(1) l r1 mg by (auto simp: agx_handoff_wait_firmware_def AGX_ETIMEDOUT_def)
  with assms(1) l r1 mg have "ho' = (fold clear_slot (map of_nat [0..<unat AGX_HANDOFF_FLUSH_SLOTS]) (agx_handoff_unlock h2))
      \<lparr>ho_initialized := True\<rparr>"
    by (simp add: agx_handoff_wait_firmware_def Let_def)
  then show ?thesis
    using clear_slots_clear [OF u(1) slots_below u(2) d] every_slot_listed [OF d] by simp
qed

lemma wait_firmware_live:
  assumes "ho_ops ho = kOps" "sys_ok (ho_ctx ho)" "fair K Move_lock (hs_sched (ho_ctx ho))"
    "fair K Move_magic (hs_sched (ho_ctx ho))" "spin_room mx 0 (16 * K)"
  shows "\<exists>ho'. agx_handoff_wait_firmware ho mx = Some (0, ho')"
proof -
  let ?m0 = "put64 AGX_HANDOFF_OFF_MAGIC_AP AGX_HANDOFF_MAGIC (fw_run (ho_ctx ho))"
  let ?h0 = "ho\<lparr>ho_ctx := ?m0\<rparr>"
  have ok: "sys_ok ?m0" using run_keeps(1) [OF assms(2)] put_calm(2) [of AGX_HANDOFF_OFF_MAGIC_AP] by (simp add: calm_def)
  obtain m where m: "agx_handoff_lock ?h0 mx = Some (0, ?h0\<lparr>ho_ctx := m, ho_locked := True\<rparr>)"
    "magic_ap m = AGX_HANDOFF_MAGIC" "hs_sched m = hs_sched (ho_ctx ho)"
    using lock_live [of ?h0 K mx] ok assms by (auto simp: handoff_cell)
  let ?h1 = "?h0\<lparr>ho_ctx := m, ho_locked := True\<rparr>"
  have "sys_ok m" using fake_ho.lock_sound [OF m(1)] ok assms(1) by simp
  then have "live K magic_inv magic_rank Move_magic (3 * K) (ho_ctx ?h1)"
    using m assms(4) live_start [of magic_inv m K Move_magic magic_rank 2 "3 * K"] by (simp add: magic_inv_def magic_rank_def)
  from magic_loop_live [OF this] assms(1) spin_room_mono [OF assms(5), of "3 * K"]
  obtain m' where "magic_loop mx 0 ?h1 = Some (False, ?h1\<lparr>ho_ctx := m'\<rparr>)" by auto
  with m(1) assms(1) show ?thesis by (simp add: agx_handoff_wait_firmware_def handoff_run Let_def)
qed

end
