(* ===== verification/Handoff_Theorems.thy ===== *)
theory Handoff_Theorems
  imports Handoff_Progress
begin

text \<open>
  The properties of the handoff: exclusion of the two parties and bounds of every access in all reachable states, return of every
  wait, success of the lock and of the magic exchange under a fair firmware, and the life of a flush slot. A state is reachable
  when the driver calls lock and the magic exchange only while it does not hold the lock; the firmware moves between and inside the
  calls in any order.
\<close>

section \<open>Reachable states\<close>

inductive ho_reach :: "handoff_sys agx_handoff \<Rightarrow> bool" where
  reach_init: "ho_reach (agx_handoff_init kOps (fake_handoff sched))"
| reach_firmware: "ho_reach ho \<Longrightarrow> ho_reach (ho\<lparr>ho_ctx := fw_move_step x (ho_ctx ho)\<rparr>)"
| reach_lock: "ho_reach ho \<Longrightarrow> \<not> ho_locked ho \<Longrightarrow> agx_handoff_lock ho n = Some (r, ho') \<Longrightarrow> ho_reach ho'"
| reach_unlock: "ho_reach ho \<Longrightarrow> ho_reach (agx_handoff_unlock ho)"
| reach_wait_firmware:
    "ho_reach ho \<Longrightarrow> \<not> ho_locked ho \<Longrightarrow> agx_handoff_wait_firmware ho n = Some (r, ho') \<Longrightarrow> ho_reach ho'"
| reach_prepare: "ho_reach ho \<Longrightarrow> ho_reach (snd (agx_handoff_prepare_cacheflush ho c base bytes))"
| reach_wait: "ho_reach ho \<Longrightarrow> agx_handoff_wait_cacheflush ho c n = Some (r, ho') \<Longrightarrow> ho_reach ho'"
| reach_complete: "ho_reach ho \<Longrightarrow> ho_reach (snd (agx_handoff_complete_cacheflush ho c))"
| reach_prepare_unmap: "ho_reach ho \<Longrightarrow> ho_reach (snd (agx_handoff_prepare_unmap ho c base bytes))"
| reach_complete_unmap: "ho_reach ho \<Longrightarrow> ho_reach (snd (agx_handoff_complete_unmap ho c))"

definition ho_ok :: "handoff_sys agx_handoff \<Rightarrow> bool" where
  "ho_ok ho \<longleftrightarrow> ho_ops ho = kOps \<and> sys_ok (ho_ctx ho) \<and>
     (if ho_locked ho then ap_excludes (ho_ctx ho) else ap_flag (ho_ctx ho) = 0)"

lemma ho_okD: "ho_ok ho \<Longrightarrow> ho_ops ho = kOps" "ho_ok ho \<Longrightarrow> sys_ok (ho_ctx ho)"
  "ho_ok ho \<Longrightarrow> \<not> ho_locked ho \<Longrightarrow> ap_flag (ho_ctx ho) = 0"
  by (auto simp: ho_ok_def)

lemma quiet_ok: "ho_ok ho \<Longrightarrow> calm_ho sys_ok ap_flag ap_excludes ho ho' \<Longrightarrow> ho_ok ho'"
  using fake_ho.quietD [of ho ho'] by (auto simp: ho_ok_def ap_excludes_def split: if_splits)

lemma load_zero [simp]: "load_le n (\<lambda>_. 0) off = 0"
  by (induction n arbitrary: off) simp_all

lemma fake_handoff_slots: "slot (fake_handoff sched) c = (0, 0, 0)"
  by (simp add: slot_def get64_def fake_handoff_def)

lemma fake_handoff_rests: "slot_rests (ho_ctx (agx_handoff_init kOps (fake_handoff sched))) c"
  by (simp add: slot_rests_def fake_handoff_slots agx_handoff_init_def) (simp add: fake_handoff_def)

lemma fake_handoff_ok: "ho_ok (agx_handoff_init kOps (fake_handoff sched))"
  by (simp add: ho_ok_def agx_handoff_init_def fake_handoff_def sys_ok_def fw_flag_ok_def cell_defs get8_def)

lemma ho_reach_ok: "ho_reach ho \<Longrightarrow> ho_ok ho"
proof (induction rule: ho_reach.induct)
  case (reach_init sched)
  show ?case by (rule fake_handoff_ok)
next
  case (reach_firmware ho x)
  then show ?case using fw_move_calm by (auto elim!: quiet_ok simp: calm_ho_def)
next
  case (reach_lock ho n r ho')
  then show ?case using fake_ho.lock_sound [of ho n r ho'] by (auto simp: ho_ok_def)
next
  case (reach_unlock ho)
  then show ?case using fake_ho.unlock_sound [of ho] by (auto simp: ho_ok_def)
next
  case (reach_wait_firmware ho n r ho')
  then show ?case using fake_ho.wait_firmware_sound [of ho n r ho'] by (auto simp: ho_ok_def)
next
  case (reach_wait ho c n r ho')
  then have "ho_ops ho = kOps" by (simp add: ho_ok_def)
  from quiet_ok [OF reach_wait.IH] fake_ho.wait_cacheflush_quiet [OF reach_wait(2) this] show ?case by simp
qed (blast intro: quiet_ok ho_okD fake_ho.prepare_quiet fake_ho.complete_quiet)+

section \<open>Flush slots on the machine\<close>

lemma flush_loop_live:
  assumes "live K (flush_inv c a l) (flush_rank c) (Move_flush c) k (ho_ctx ho)" "ho_ops ho = kOps" "spin_room mx s k"
  shows "\<exists>m. flush_loop c mx s ho = Some (0, ho\<lparr>ho_ctx := m\<rparr>) \<and> slot m c = (AGX_HANDOFF_FLUSH_DONE, a) \<and> slot_rests m c
    \<and> filter (\<lambda>f. fst f = c) (hs_flushed m) = l @ [(c, a)]"
  using assms
proof (induction k arbitrary: ho s)
  case (0 ho)
  let ?m = "fw_run (ho_ctx ho)"
  note r = flush.run_live [OF 0(1), simplified]
  have c: "c < AGX_HANDOFF_FLUSH_SLOTS" using 0 by (simp add: live_def flush_inv_def)
  have n: "fst (slot ?m c) \<noteq> AGX_HANDOFF_FLUSH_BUSY" using live_done [OF r] by (simp add: flush_rank_def split: if_splits)
  have "flush_loop c mx s ho = Some (0, ho\<lparr>ho_ctx := ?m\<rparr>)"
    using 0(2) c n by (subst flush_loop.simps) (simp add: handoff_run)
  with r n show ?case by (auto simp: live_def flush_inv_def slot_rests_def intro!: exI [of _ ?m])
next
  case (Suc k ho)
  let ?m = "fw_run (ho_ctx ho)"
  note r = flush.run_live [OF Suc.prems(1), simplified]
  have c: "c < AGX_HANDOFF_FLUSH_SLOTS" using Suc.prems by (simp add: live_def flush_inv_def)
  show ?case
  proof (cases "fst (slot ?m c) = AGX_HANDOFF_FLUSH_BUSY")
    case False
    then have "flush_loop c mx s ho = Some (0, ho\<lparr>ho_ctx := ?m\<rparr>)"
      using Suc.prems(2) c by (subst flush_loop.simps) (simp add: handoff_run)
    with r False show ?thesis by (auto simp: live_def flush_inv_def slot_rests_def intro!: exI [of _ ?m])
  next
    case True
    obtain s' where s': "spin mx s = (False, s')" "spin_room mx s' k" using spin_room_step Suc.prems(3) by metis
    have l: "live K (flush_inv c a l) (flush_rank c) (Move_flush c) k (ho_ctx (ho\<lparr>ho_ctx := fw_run ?m\<rparr>))"
      using live_mono [OF flush.run_live [OF r], of k] by simp
    have "flush_loop c mx s ho = flush_loop c mx s' (ho\<lparr>ho_ctx := fw_run ?m\<rparr>)"
      using Suc.prems(2) c True s'(1) by (subst flush_loop.simps) (simp add: handoff_run)
    with Suc.IH [OF l _ s'(2)] Suc.prems(2) show ?thesis by simp
  qed
qed

text \<open>A completed or refused call on a slot that the firmware has no business with.\<close>

lemma complete_done:
  assumes "ho_ops ho = kOps" "c < AGX_HANDOFF_FLUSH_SLOTS" "slot (ho_ctx ho) c = (AGX_HANDOFF_FLUSH_DONE, a)" "slot_rests (ho_ctx ho) c"
  shows "\<exists>m. agx_handoff_complete_cacheflush ho c = (0, ho\<lparr>ho_ctx := m\<rparr>)
    \<and> agx_handoff_complete_unmap ho c = (0, ho\<lparr>ho_ctx := m\<rparr>) \<and> slot m c = (0, a) \<and> slot_rests m c
    \<and> filter (\<lambda>f. fst f = c) (hs_flushed m) = filter (\<lambda>f. fst f = c) (hs_flushed (ho_ctx ho))"
  using assms linorder_not_le [THEN iffD2, OF assms(2)]
  by (intro exI [of _ "put64 (AGX_HANDOFF_OFF_FLUSH_STATE c) 0 (fw_run (fw_run (ho_ctx ho)))"])
    (simp add: agx_handoff_complete_cacheflush_def agx_handoff_complete_unmap_def handoff_run handoff_cell run_rests
      rests_unseen)

lemma complete_refused:
  assumes "ho_ops ho = kOps" "c < AGX_HANDOFF_FLUSH_SLOTS" "fst (slot (ho_ctx ho) c) = 0" "slot_rests (ho_ctx ho) c"
  shows "fst (agx_handoff_complete_cacheflush ho c) = AGX_EINVAL" "fst (agx_handoff_complete_unmap ho c) = AGX_EINVAL"
  using assms
  by (simp_all add: agx_handoff_complete_cacheflush_def agx_handoff_complete_unmap_def handoff_run run_rests)

lemma prepare_done:
  assumes "ho_ops ho = kOps" "c < AGX_HANDOFF_FLUSH_SLOTS" "fst (slot (ho_ctx ho) c) = 0" "slot_rests (ho_ctx ho) c"
  shows "\<exists>m. agx_handoff_prepare_cacheflush ho c base bytes = (0, ho\<lparr>ho_ctx := m\<rparr>)
      \<and> slot m c = (AGX_HANDOFF_FLUSH_BUSY, base, bytes)
      \<and> filter (\<lambda>f. fst f = c) (hs_flushed m) = filter (\<lambda>f. fst f = c) (hs_flushed (ho_ctx ho)) \<and> hs_sched m = hs_sched (ho_ctx ho)"
    "\<exists>m. agx_handoff_prepare_unmap ho c base bytes = (0, ho\<lparr>ho_ctx := m\<rparr>)
      \<and> slot m c = (AGX_HANDOFF_FLUSH_DONE, AGX_HANDOFF_UNMAP_TAG OR (base AND AGX_HANDOFF_UNMAP_ADDR_MASK), bytes) \<and> slot_rests m c
      \<and> filter (\<lambda>f. fst f = c) (hs_flushed m) = filter (\<lambda>f. fst f = c) (hs_flushed (ho_ctx ho)) \<and> hs_sched m = hs_sched (ho_ctx ho)"
proof -
  let ?m = "\<lambda>x a. put64 (AGX_HANDOFF_OFF_FLUSH_STATE c) x (fw_run (put64 (AGX_HANDOFF_OFF_FLUSH_SIZE c) bytes
      (fw_run (put64 (AGX_HANDOFF_OFF_FLUSH_ADDR c) a (fw_run (fw_run (ho_ctx ho)))))))"
  note n = linorder_not_le [THEN iffD2, OF assms(2)]
  have p: "agx_handoff_prepare_cacheflush ho c base bytes = (0, ho\<lparr>ho_ctx := ?m AGX_HANDOFF_FLUSH_BUSY base\<rparr>)"
    using assms n by (simp add: agx_handoff_prepare_cacheflush_def handoff_run run_rests Let_def)
  have u: "agx_handoff_prepare_unmap ho c base bytes =
      (0, ho\<lparr>ho_ctx := ?m AGX_HANDOFF_FLUSH_DONE (AGX_HANDOFF_UNMAP_TAG OR (base AND AGX_HANDOFF_UNMAP_ADDR_MASK))\<rparr>)"
    using assms n by (simp add: agx_handoff_prepare_unmap_def handoff_run run_rests Let_def)
  note s = assms handoff_cell run_rests rests_unseen
  show "\<exists>m. agx_handoff_prepare_cacheflush ho c base bytes = (0, ho\<lparr>ho_ctx := m\<rparr>)
      \<and> slot m c = (AGX_HANDOFF_FLUSH_BUSY, base, bytes)
      \<and> filter (\<lambda>f. fst f = c) (hs_flushed m) = filter (\<lambda>f. fst f = c) (hs_flushed (ho_ctx ho)) \<and> hs_sched m = hs_sched (ho_ctx ho)"
    by (rule exI [of _ "?m AGX_HANDOFF_FLUSH_BUSY base"]) (simp add: p s)
  show "\<exists>m. agx_handoff_prepare_unmap ho c base bytes = (0, ho\<lparr>ho_ctx := m\<rparr>)
      \<and> slot m c = (AGX_HANDOFF_FLUSH_DONE, AGX_HANDOFF_UNMAP_TAG OR (base AND AGX_HANDOFF_UNMAP_ADDR_MASK), bytes) \<and> slot_rests m c
      \<and> filter (\<lambda>f. fst f = c) (hs_flushed m) = filter (\<lambda>f. fst f = c) (hs_flushed (ho_ctx ho)) \<and> hs_sched m = hs_sched (ho_ctx ho)"
    by (rule exI [of _ "?m AGX_HANDOFF_FLUSH_DONE (AGX_HANDOFF_UNMAP_TAG OR (base AND AGX_HANDOFF_UNMAP_ADDR_MASK))"])
      (simp add: u s)
qed

text \<open>A slot that is taken, whether busy or finished by now, is refused.\<close>

lemma prepare_refused:
  assumes "ho_ops ho = kOps" "flush_inv c a l (ho_ctx ho) \<or>
      c < AGX_HANDOFF_FLUSH_SLOTS \<and> slot_rests (ho_ctx ho) c \<and> fst (slot (ho_ctx ho) c) = AGX_HANDOFF_FLUSH_DONE"
  shows "fst (agx_handoff_prepare_cacheflush ho c base bytes) = AGX_EINVAL"
    "fst (agx_handoff_prepare_unmap ho c base bytes) = AGX_EINVAL"
proof -
  have c: "c < AGX_HANDOFF_FLUSH_SLOTS" using assms(2) by (auto simp: flush_inv_def)
  have "flush_inv c a l (fw_run (ho_ctx ho))" if "flush_inv c a l (ho_ctx ho)"
    using flush.moves_keep [OF that] by (simp add: fw_run_def flush.timeless)
  with assms(2) run_rests(1) [OF c, of "ho_ctx ho"] have "fst (slot (fw_run (ho_ctx ho)) c) \<noteq> 0"
    by (auto simp: flush_inv_def)
  with assms(1) c show "fst (agx_handoff_prepare_cacheflush ho c base bytes) = AGX_EINVAL"
    "fst (agx_handoff_prepare_unmap ho c base bytes) = AGX_EINVAL"
    by (simp_all add: agx_handoff_prepare_cacheflush_def agx_handoff_prepare_unmap_def handoff_run)
qed

lemma unmap_tag_bits:
  "(AGX_HANDOFF_UNMAP_TAG OR (base AND AGX_HANDOFF_UNMAP_ADDR_MASK)) AND AGX_HANDOFF_UNMAP_ADDR_MASK = take_bit 48 base"
  "(AGX_HANDOFF_UNMAP_TAG OR (base AND AGX_HANDOFF_UNMAP_ADDR_MASK)) AND NOT AGX_HANDOFF_UNMAP_ADDR_MASK = AGX_HANDOFF_UNMAP_TAG"
proof -
  have m: "AGX_HANDOFF_UNMAP_ADDR_MASK = mask 48" by (simp add: AGX_HANDOFF_UNMAP_ADDR_MASK_def mask_eq_exp_minus_1)
  have t: "AGX_HANDOFF_UNMAP_TAG = push_bit 48 0xdead" by (simp add: AGX_HANDOFF_UNMAP_TAG_def)
  show "(AGX_HANDOFF_UNMAP_TAG OR (base AND AGX_HANDOFF_UNMAP_ADDR_MASK)) AND AGX_HANDOFF_UNMAP_ADDR_MASK = take_bit 48 base"
    by (rule bit_word_eqI) (auto simp: m t bit_simps simp del: push_bit_numeral)
  show "(AGX_HANDOFF_UNMAP_TAG OR (base AND AGX_HANDOFF_UNMAP_ADDR_MASK)) AND NOT AGX_HANDOFF_UNMAP_ADDR_MASK = AGX_HANDOFF_UNMAP_TAG"
    by (rule bit_word_eqI) (auto simp: m t bit_simps simp del: push_bit_numeral)
qed

text \<open>The machine of the tests with a firmware that makes the same moves before every access.\<close>

abbreviation test_handoff :: "fw_move list \<Rightarrow> handoff_sys agx_handoff" where
  "test_handoff xs \<equiv> agx_handoff_init kOps (fake_handoff (\<lambda>_. xs))"

lemma reach_test: "ho_reach (test_handoff xs)"
  by (rule reach_init)

lemma test_unlocked: "\<not> ho_locked (test_handoff xs)"
  by (simp add: agx_handoff_init_def)

lemma test_fair: "x \<in> set xs \<Longrightarrow> fair 1 x (hs_sched (ho_ctx (test_handoff xs)))"
  by (simp add: fair_def agx_handoff_init_def fake_handoff_def)

text \<open>With the largest limit the counter wraps to 0 before it passes the limit: a lock against a firmware that never leaves does not return.\<close>

lemma run_nothing: "hs_sched m = (\<lambda>_. []) \<Longrightarrow> fw_run m = m\<lparr>hs_time := hs_time m + 1\<rparr>"
  by (simp add: fw_run_def)

lemma lock_largest_limit:
  assumes "ho_ops ho = kOps" "hs_sched (ho_ctx ho) = (\<lambda>_. [])" "fw_flag (ho_ctx ho) = 1" "turn_cell (ho_ctx ho) = 0"
  shows "agx_handoff_lock ho 0xffffffff = None"
proof -
  let ?stuck = "\<lambda>h. ho_ops h = kOps \<and> hs_sched (ho_ctx h) = (\<lambda>_. []) \<and> fw_flag (ho_ctx h) = 1 \<and> turn_cell (ho_ctx h) = 0"
  have "mx = 0xffffffff \<longrightarrow> ?stuck h \<longrightarrow> False" if "lock_loop mx s h = Some r" for mx s h and r :: "int \<times> handoff_sys agx_handoff"
  proof (rule lock_loop.raw_induct [where P = "\<lambda>mx _ h _. mx = 0xffffffff \<longrightarrow> ?stuck h \<longrightarrow> False", OF _ that], intro impI)
    fix loop mx s h r
    assume IH: "\<And>mx s h r. loop mx s h = Some r \<Longrightarrow> mx = 0xffffffff \<longrightarrow> ?stuck h \<longrightarrow> False"
      and step: "(let (fw, h) = rd8 h AGX_HANDOFF_OFF_LOCK_FW
        in if fw = 0 then Some (0, (agx_handoff_barrier h)\<lparr>ho_locked := True\<rparr>)
           else do {
             (over, s, h) \<leftarrow> lock_yield mx s h;
             if over then Some (AGX_ETIMEDOUT, h)
             else let (over, s) = spin mx s
                  in if over then Some (AGX_ETIMEDOUT, agx_handoff_barrier (wr8 h AGX_HANDOFF_OFF_LOCK_AP 0))
                     else loop mx s (agx_handoff_relax h)
           }) = Some r"
      and mx: "mx = 0xffffffff" and st: "?stuck h"
    have "\<not> (0xffffffff :: u32) < x" for x by (simp add: word_less_nat_alt not_less) (use unsigned_less [of x, where ?'a = nat] in simp)
    with step st IH [of mx "s + 1" "h\<lparr>ho_ctx := ho_ctx h\<lparr>hs_time := Suc (Suc (Suc (hs_time (ho_ctx h))))\<rparr>\<rparr>" r] show False by (auto simp: mx handoff_run run_nothing lock_yield_def spin_def)
  qed
  from this [of "0xffffffff" 0 "agx_handoff_barrier (wr8 ho AGX_HANDOFF_OFF_LOCK_AP 1)"] assms show ?thesis
    by (cases "agx_handoff_lock ho 0xffffffff") (auto simp: agx_handoff_lock_def handoff_run run_nothing handoff_cell)
qed

lemma lock_stuck_reachable: "\<exists>stuck. ho_reach stuck \<and> \<not> ho_locked stuck \<and> agx_handoff_lock stuck 0xffffffff = None"
proof -
  let ?h = "(test_handoff [])\<lparr>ho_ctx := fw_move_step Move_lock (ho_ctx (test_handoff []))\<rparr>"
  have "agx_handoff_lock ?h 0xffffffff = None"
    by (rule lock_largest_limit)
      (simp_all add: agx_handoff_init_def fake_handoff_def fw_lock_cells handoff_cell, simp add: turn_cell_def get32_def)
  moreover have "ho_reach ?h" by (rule reach_firmware [OF reach_test])
  ultimately show ?thesis using test_unlocked [of "[]"] by (intro exI [of _ ?h]) simp
qed

section \<open>Properties\<close>

text \<open>C3. Mutual exclusion and bounds: in every reachable state, while the AP holds the handoff lock the firmware is not between entering its
  section and clearing its byte, the byte of the AP is set exactly while it holds the lock, and no access so far was outside the
  structure or misaligned.\<close>

theorem handoff_mutual_exclusion:
  assumes "ho_reach ho"
  shows "(ho_locked ho \<longrightarrow> \<not> fw_holds (hs_fw (ho_ctx ho))) \<and> ap_flag (ho_ctx ho) = (if ho_locked ho then 1 else 0)
    \<and> \<not> hs_fault (ho_ctx ho)"
  using ho_reach_ok [OF assms] by (auto simp: ho_ok_def ap_excludes_def sys_ok_def)

theorem handoff_mutual_exclusion_witness:
  "\<exists>ho. ho_reach ho \<and> ho_locked ho \<and> \<not> fw_holds (hs_fw (ho_ctx ho)) \<and> ap_flag (ho_ctx ho) = 1 \<and> \<not> hs_fault (ho_ctx ho)"
proof -
  let ?ho = "test_handoff [Move_lock]"
  obtain ho' where l: "agx_handoff_lock ?ho 16 = Some (0, ho')" "ho_locked ho'"
    using lock_live [of ?ho 1 16] ho_okD [OF fake_handoff_ok] test_fair [of Move_lock "[Move_lock]"]
    by (auto simp: spin_room_def)
  then have "ho_reach ho'" by (auto intro: reach_lock reach_test simp: test_unlocked)
  with l(2) handoff_mutual_exclusion [of ho'] show ?thesis by auto
qed

text \<open>C17. Every wait of the handoff returns when its limit is neither 0 nor the largest 32-bit number, whatever the firmware does: the
  lock is taken or the byte of the AP is clear again; the magic exchange ends unlocked, and with every slot cleared when it
  succeeds and no flush was under way; a wait for a flush reports success, a timeout, or a context number out of range. The largest limit is a real
  exception: from some reachable state a lock with it never returns.\<close>

theorem handoff_returns:
  assumes "ho_reach ho" "\<not> ho_locked ho" "0 < n" "n < 0xffffffff"
  shows "(\<exists>r ho'. agx_handoff_lock ho n = Some (r, ho') \<and>
      (r = 0 \<and> ho_locked ho' \<and> ap_excludes (ho_ctx ho') \<or> r = AGX_ETIMEDOUT \<and> \<not> ho_locked ho' \<and> ap_flag (ho_ctx ho') = 0)) \<and>
    (\<exists>r ho'. agx_handoff_wait_firmware ho n = Some (r, ho') \<and> \<not> ho_locked ho' \<and> ap_flag (ho_ctx ho') = 0 \<and>
      (r = 0 \<and> ho_initialized ho' \<and> (slots_rest (ho_ctx ho) \<longrightarrow> (\<forall>c<AGX_HANDOFF_FLUSH_SLOTS. slot (ho_ctx ho') c = (0, 0, 0))) \<or>
       r = AGX_ETIMEDOUT \<and> ho_initialized ho' = ho_initialized ho)) \<and>
    (\<exists>r ho'. agx_handoff_wait_cacheflush ho c n = Some (r, ho') \<and>
      (if c \<ge> AGX_HANDOFF_FLUSH_SLOTS then r = AGX_EINVAL \<and> ho' = ho else r = 0 \<or> r = AGX_ETIMEDOUT)) \<and>
    (\<exists>stuck. ho_reach stuck \<and> \<not> ho_locked stuck \<and> agx_handoff_lock stuck 0xffffffff = None)"
proof (intro conjI)
  note ok = ho_okD [OF ho_reach_ok [OF assms(1)]]
  obtain r ho' where l: "agx_handoff_lock ho n = Some (r, ho')" using lock_returns [OF assms(3,4)] by meson
  with fake_ho.lock_sound [OF l] ok(1,2) assms(2) show "\<exists>r ho'. agx_handoff_lock ho n = Some (r, ho') \<and>
      (r = 0 \<and> ho_locked ho' \<and> ap_excludes (ho_ctx ho') \<or> r = AGX_ETIMEDOUT \<and> \<not> ho_locked ho' \<and> ap_flag (ho_ctx ho') = 0)"
    by auto
  obtain r ho' where f: "agx_handoff_wait_firmware ho n = Some (r, ho')" using wait_firmware_returns [OF assms(3,4)] by meson
  have "r = 0 \<longrightarrow> slots_rest (ho_ctx ho) \<longrightarrow> (\<forall>c<AGX_HANDOFF_FLUSH_SLOTS. slot (ho_ctx ho') c = (0, 0, 0))"
    using wait_firmware_clears [OF _ ok(1,2)] f by auto
  with f fake_ho.wait_firmware_sound [OF f] ok(1,2) assms(2)
  show "\<exists>r ho'. agx_handoff_wait_firmware ho n = Some (r, ho') \<and> \<not> ho_locked ho' \<and> ap_flag (ho_ctx ho') = 0 \<and>
      (r = 0 \<and> ho_initialized ho' \<and> (slots_rest (ho_ctx ho) \<longrightarrow> (\<forall>c<AGX_HANDOFF_FLUSH_SLOTS. slot (ho_ctx ho') c = (0, 0, 0))) \<or>
       r = AGX_ETIMEDOUT \<and> ho_initialized ho' = ho_initialized ho)"
    by auto
  show "\<exists>r ho'. agx_handoff_wait_cacheflush ho c n = Some (r, ho') \<and>
      (if c \<ge> AGX_HANDOFF_FLUSH_SLOTS then r = AGX_EINVAL \<and> ho' = ho else r = 0 \<or> r = AGX_ETIMEDOUT)"
    using flush_loop_returns [OF assms(3,4), of 0 c ho] by (auto simp: agx_handoff_wait_cacheflush_def)
  show "\<exists>stuck. ho_reach stuck \<and> \<not> ho_locked stuck \<and> agx_handoff_lock stuck 0xffffffff = None"
    by (rule lock_stuck_reachable)
qed

theorem handoff_returns_witness:
  "(\<exists>r ho'. agx_handoff_lock (test_handoff []) 2000 = Some (r, ho') \<and> (r = 0 \<or> r = AGX_ETIMEDOUT)) \<and>
   (\<exists>r ho'. agx_handoff_wait_firmware (test_handoff []) 2000 = Some (r, ho') \<and> (r = 0 \<or> r = AGX_ETIMEDOUT)) \<and>
   (\<exists>r ho'. agx_handoff_wait_cacheflush (test_handoff []) 0x41 2000 = Some (r, ho') \<and> r = AGX_EINVAL)"
proof -
  have "(0x41 :: u32) \<ge> AGX_HANDOFF_FLUSH_SLOTS" by (simp add: AGX_HANDOFF_FLUSH_SLOTS_def)
  with handoff_returns [OF reach_test [of "[]"] test_unlocked, of 2000 "0x41"] show ?thesis by auto
qed

text \<open>C7. Liveness: when the firmware threads get a move within every \<open>K\<close> accesses, a lock with no limit, or with a limit of at least
  \<open>16 K\<close> spins, succeeds from every reachable state, and so does the magic exchange.\<close>

theorem handoff_lock_live:
  assumes "ho_reach ho" "fair K Move_lock (hs_sched (ho_ctx ho))" "n = 0 \<or> 16 * K \<le> unat n"
  shows "(\<exists>ho'. agx_handoff_lock ho n = Some (0, ho') \<and> ho_locked ho') \<and>
    (fair K Move_magic (hs_sched (ho_ctx ho)) \<longrightarrow>
       (\<exists>ho'. agx_handoff_wait_firmware ho n = Some (0, ho') \<and> ho_initialized ho'))"
proof -
  note ok = ho_okD [OF ho_reach_ok [OF assms(1)]]
  have room: "spin_room n 0 (16 * K)" using assms(3) by (auto simp: spin_room_def)
  from lock_live [OF ok(2,1) assms(2) room] have "\<exists>ho'. agx_handoff_lock ho n = Some (0, ho') \<and> ho_locked ho'" by auto
  moreover have "\<exists>ho'. agx_handoff_wait_firmware ho n = Some (0, ho') \<and> ho_initialized ho'"
    if mg: "fair K Move_magic (hs_sched (ho_ctx ho))"
  proof -
    obtain ho' where f: "agx_handoff_wait_firmware ho n = Some (0, ho')"
      using wait_firmware_live [OF ok(1,2) assms(2) mg room] by blast
    with fake_ho.wait_firmware_sound [OF f] ok(1,2) show ?thesis by (auto simp: AGX_ETIMEDOUT_def)
  qed
  ultimately show ?thesis by blast
qed

theorem handoff_lock_live_witness:
  "(\<exists>ho'. agx_handoff_lock (test_handoff [Move_lock, Move_magic]) 0 = Some (0, ho') \<and> ho_locked ho') \<and>
   (\<exists>ho'. agx_handoff_wait_firmware (test_handoff [Move_lock, Move_magic]) 0 = Some (0, ho') \<and> ho_initialized ho')"
  using handoff_lock_live [OF reach_test, of 1 "[Move_lock, Move_magic]" 0]
    test_fair [of Move_lock "[Move_lock, Move_magic]"] test_fair [of Move_magic "[Move_lock, Move_magic]"] by simp

text \<open>C14. The life of a cache flush: on an idle slot with no flush under way the request is stored and the slot is busy; a second request is refused; when the flush thread
  gets a move within every \<open>K\<close> accesses the wait succeeds, by then the firmware has flushed exactly the requested range,
  once; completing the slot makes it idle and a second completion is refused.\<close>

theorem cacheflush_cycle:
  assumes "ho_reach ho" "c < AGX_HANDOFF_FLUSH_SLOTS" "fst (slot (ho_ctx ho) c) = AGX_HANDOFF_FLUSH_IDLE"
    and "fair K (Move_flush c) (hs_sched (ho_ctx ho))" "n = 0 \<or> 3 * K \<le> unat n" and rest: "slot_rests (ho_ctx ho) c"
  shows "\<exists>ho1 ho2 ho3.
    agx_handoff_prepare_cacheflush ho c base bytes = (0, ho1) \<and> slot (ho_ctx ho1) c = (AGX_HANDOFF_FLUSH_BUSY, base, bytes) \<and>
    fst (agx_handoff_prepare_cacheflush ho1 c base' bytes') = AGX_EINVAL \<and>
    agx_handoff_wait_cacheflush ho1 c n = Some (0, ho2) \<and> slot (ho_ctx ho2) c = (AGX_HANDOFF_FLUSH_DONE, base, bytes) \<and>
    agx_handoff_complete_cacheflush ho2 c = (0, ho3) \<and> slot (ho_ctx ho3) c = (AGX_HANDOFF_FLUSH_IDLE, base, bytes) \<and>
    fst (agx_handoff_complete_cacheflush ho3 c) = AGX_EINVAL \<and>
    filter (\<lambda>f. fst f = c) (hs_flushed (ho_ctx ho3)) = filter (\<lambda>f. fst f = c) (hs_flushed (ho_ctx ho)) @ [(c, base, bytes)]"
proof -
  note ok = ho_reach_ok [OF assms(1)]
  note ops = ho_okD(1) [OF ok]
  let ?l = "filter (\<lambda>f. fst f = c) (hs_flushed (ho_ctx ho))"
  have idle: "fst (slot (ho_ctx ho) c) = 0" using assms(3) by (simp add: AGX_HANDOFF_FLUSH_IDLE_def)
  obtain m1 where p: "agx_handoff_prepare_cacheflush ho c base bytes = (0, ho\<lparr>ho_ctx := m1\<rparr>)"
    "slot m1 c = (AGX_HANDOFF_FLUSH_BUSY, base, bytes)" "filter (\<lambda>f. fst f = c) (hs_flushed m1) = ?l" "hs_sched m1 = hs_sched (ho_ctx ho)"
    using prepare_done(1) [OF ops assms(2) idle rest] by metis
  let ?h1 = "ho\<lparr>ho_ctx := m1\<rparr>"
  have "sys_ok m1" using ho_okD(2) [OF quiet_ok [OF ok fake_ho.prepare_quiet(1) [OF ops, of c base bytes]]] p(1) by simp
  then have inv: "flush_inv c (base, bytes) ?l m1" using p assms(2) by (simp add: flush_inv_def)
  then have l: "live K (flush_inv c (base, bytes) ?l) (flush_rank c) (Move_flush c) (3 * K) (ho_ctx ?h1)"
    using live_start [where I = "flush_inv c (base, bytes) ?l" and rank = "flush_rank c" and r = 2] p(4) assms(4)
    by (simp add: flush_rank_def)
  have ops1: "ho_ops ?h1 = kOps" using ops by simp
  have room: "spin_room n 0 (3 * K)" using assms(5) by (auto simp: spin_room_def)
  obtain m2 where w: "flush_loop c n 0 ?h1 = Some (0, ho\<lparr>ho_ctx := m2\<rparr>)" "slot m2 c = (AGX_HANDOFF_FLUSH_DONE, base, bytes)"
    "slot_rests m2 c"
    "filter (\<lambda>f. fst f = c) (hs_flushed m2) = ?l @ [(c, base, bytes)]"
    using flush_loop_live [OF l ops1 room] by auto
  let ?h2 = "ho\<lparr>ho_ctx := m2\<rparr>"
  obtain m3 where d: "agx_handoff_complete_cacheflush ?h2 c = (0, ho\<lparr>ho_ctx := m3\<rparr>)" "slot m3 c = (0, base, bytes)"
    "slot_rests m3 c"
    "filter (\<lambda>f. fst f = c) (hs_flushed m3) = ?l @ [(c, base, bytes)]"
    using complete_done [of ?h2 c] ops assms(2) w by auto
  have "agx_handoff_wait_cacheflush ?h1 c n = Some (0, ?h2)"
    using w(1) assms(2) by (simp add: agx_handoff_wait_cacheflush_def linorder_not_le [symmetric])
  moreover have "fst (agx_handoff_prepare_cacheflush ?h1 c base' bytes') = AGX_EINVAL"
    using prepare_refused(1) [OF ops1, of c "(base, bytes)" ?l] inv by simp
  moreover have "fst (agx_handoff_complete_cacheflush (ho\<lparr>ho_ctx := m3\<rparr>) c) = AGX_EINVAL"
    by (rule complete_refused(1)) (use ops assms(2) d(2,3) in simp_all)
  ultimately show ?thesis
    using p(1,2) w(2) d by (intro exI [of _ ?h1] exI [of _ ?h2] exI [of _ "ho\<lparr>ho_ctx := m3\<rparr>"])
      (simp add: AGX_HANDOFF_FLUSH_IDLE_def)
qed

theorem cacheflush_cycle_witness:
  "\<exists>ho1 ho2 ho3. agx_handoff_prepare_cacheflush (test_handoff [Move_flush 0x40]) 0x40 0x1000 0x4000 = (0, ho1)
     \<and> agx_handoff_wait_cacheflush ho1 0x40 5000000 = Some (0, ho2) \<and> agx_handoff_complete_cacheflush ho2 0x40 = (0, ho3)
     \<and> filter (\<lambda>f. fst f = 0x40) (hs_flushed (ho_ctx ho3)) = [(0x40, 0x1000, 0x4000)]"
proof -
  let ?ho = "test_handoff [Move_flush 0x40]"
  have c: "(0x40 :: u32) < AGX_HANDOFF_FLUSH_SLOTS" by (simp add: AGX_HANDOFF_FLUSH_SLOTS_def)
  have s: "fst (slot (ho_ctx ?ho) 0x40) = AGX_HANDOFF_FLUSH_IDLE" "hs_flushed (ho_ctx ?ho) = []"
    by (simp_all add: fake_handoff_slots AGX_HANDOFF_FLUSH_IDLE_def agx_handoff_init_def) (simp add: fake_handoff_def)
  from cacheflush_cycle [OF reach_test c s(1), of 1 5000000 "0x1000" "0x4000" 0 0] test_fair [of "Move_flush 0x40" "[Move_flush 0x40]"] fake_handoff_rests
  show ?thesis using s(2) by fastforce
qed

text \<open>C39. The life of an unmap request. A context number out of range is refused by all five calls on slots without an access, whatever the
  memory holds. In a reachable state, on an idle slot with no flush under way, the request is stored as finished at once, with the tag above the
  low 48 bits of the address; a second request is refused; the firmware never flushes it; completing it makes the slot idle again.\<close>

theorem unmap_cycle:
  shows "(AGX_HANDOFF_FLUSH_SLOTS \<le> c \<longrightarrow>
      agx_handoff_prepare_cacheflush any c base bytes = (AGX_EINVAL, any) \<and> agx_handoff_wait_cacheflush any c n = Some (AGX_EINVAL, any)
      \<and> agx_handoff_complete_cacheflush any c = (AGX_EINVAL, any)
      \<and> agx_handoff_prepare_unmap any c base bytes = (AGX_EINVAL, any) \<and> agx_handoff_complete_unmap any c = (AGX_EINVAL, any)) \<and>
    (c < AGX_HANDOFF_FLUSH_SLOTS \<longrightarrow> ho_reach ho \<longrightarrow> fst (slot (ho_ctx ho) c) = AGX_HANDOFF_FLUSH_IDLE \<longrightarrow>
     slot_rests (ho_ctx ho) c \<longrightarrow> (\<exists>ho1 ho2 addr. agx_handoff_prepare_unmap ho c base bytes = (0, ho1)
      \<and> slot (ho_ctx ho1) c = (AGX_HANDOFF_FLUSH_DONE, addr, bytes)
      \<and> addr AND AGX_HANDOFF_UNMAP_ADDR_MASK = take_bit 48 base \<and> addr AND NOT AGX_HANDOFF_UNMAP_ADDR_MASK = AGX_HANDOFF_UNMAP_TAG
      \<and> fst (agx_handoff_prepare_unmap ho1 c base' bytes') = AGX_EINVAL
      \<and> agx_handoff_complete_unmap ho1 c = (0, ho2) \<and> slot (ho_ctx ho2) c = (AGX_HANDOFF_FLUSH_IDLE, addr, bytes)
      \<and> filter (\<lambda>f. fst f = c) (hs_flushed (ho_ctx ho2)) = filter (\<lambda>f. fst f = c) (hs_flushed (ho_ctx ho))))"
proof (intro conjI impI)
  assume c: "c < AGX_HANDOFF_FLUSH_SLOTS" and reach: "ho_reach ho"
    and free: "fst (slot (ho_ctx ho) c) = AGX_HANDOFF_FLUSH_IDLE" and rest: "slot_rests (ho_ctx ho) c"
  note ops = ho_okD(1) [OF ho_reach_ok [OF reach]]
  let ?a = "AGX_HANDOFF_UNMAP_TAG OR (base AND AGX_HANDOFF_UNMAP_ADDR_MASK)"
  let ?l = "filter (\<lambda>f. fst f = c) (hs_flushed (ho_ctx ho))"
  have idle: "fst (slot (ho_ctx ho) c) = 0" using free by (simp add: AGX_HANDOFF_FLUSH_IDLE_def)
  obtain m1 where p: "agx_handoff_prepare_unmap ho c base bytes = (0, ho\<lparr>ho_ctx := m1\<rparr>)"
    "slot m1 c = (AGX_HANDOFF_FLUSH_DONE, ?a, bytes)" "slot_rests m1 c" "filter (\<lambda>f. fst f = c) (hs_flushed m1) = ?l"
    using prepare_done(2) [OF ops c idle rest] by metis
  let ?h1 = "ho\<lparr>ho_ctx := m1\<rparr>"
  obtain m2 where d: "agx_handoff_complete_unmap ?h1 c = (0, ho\<lparr>ho_ctx := m2\<rparr>)" "slot m2 c = (0, ?a, bytes)"
    "filter (\<lambda>f. fst f = c) (hs_flushed m2) = ?l"
    using complete_done [of ?h1 c] ops c p by auto
  have "fst (agx_handoff_prepare_unmap ?h1 c base' bytes') = AGX_EINVAL"
    by (rule prepare_refused(2)) (use ops c p(2,3) in simp_all)
  then show "\<exists>ho1 ho2 addr. agx_handoff_prepare_unmap ho c base bytes = (0, ho1)
      \<and> slot (ho_ctx ho1) c = (AGX_HANDOFF_FLUSH_DONE, addr, bytes)
      \<and> addr AND AGX_HANDOFF_UNMAP_ADDR_MASK = take_bit 48 base \<and> addr AND NOT AGX_HANDOFF_UNMAP_ADDR_MASK = AGX_HANDOFF_UNMAP_TAG
      \<and> fst (agx_handoff_prepare_unmap ho1 c base' bytes') = AGX_EINVAL
      \<and> agx_handoff_complete_unmap ho1 c = (0, ho2) \<and> slot (ho_ctx ho2) c = (AGX_HANDOFF_FLUSH_IDLE, addr, bytes)
      \<and> filter (\<lambda>f. fst f = c) (hs_flushed (ho_ctx ho2)) = ?l"
    using p d unmap_tag_bits [of base]
    by (intro exI [of _ ?h1] exI [of _ "ho\<lparr>ho_ctx := m2\<rparr>"] exI [of _ ?a]) (simp add: AGX_HANDOFF_FLUSH_IDLE_def)
qed (simp_all add: agx_handoff_prepare_cacheflush_def agx_handoff_complete_cacheflush_def agx_handoff_prepare_unmap_def
    agx_handoff_complete_unmap_def agx_handoff_wait_cacheflush_def)

theorem unmap_cycle_witness:
  "(\<exists>ho1 ho2 addr. agx_handoff_prepare_unmap (test_handoff []) 2 0x12345000 0x2000 = (0, ho1)
     \<and> slot (ho_ctx ho1) 2 = (AGX_HANDOFF_FLUSH_DONE, addr, 0x2000) \<and> addr AND AGX_HANDOFF_UNMAP_ADDR_MASK = 0x12345000
     \<and> agx_handoff_complete_unmap ho1 2 = (0, ho2)) \<and>
   agx_handoff_prepare_unmap (test_handoff []) 0x41 0x12345000 0x2000 = (AGX_EINVAL, test_handoff [])"
proof -
  have c: "(2 :: u32) < AGX_HANDOFF_FLUSH_SLOTS" "AGX_HANDOFF_FLUSH_SLOTS \<le> 0x41" by (simp_all add: AGX_HANDOFF_FLUSH_SLOTS_def)
  have s: "fst (slot (ho_ctx (test_handoff [])) 2) = AGX_HANDOFF_FLUSH_IDLE"
    by (simp add: fake_handoff_slots AGX_HANDOFF_FLUSH_IDLE_def agx_handoff_init_def)
  have b: "take_bit 48 (0x12345000 :: u64) = 0x12345000" by simp
  from unmap_cycle [of 2 "test_handoff []" "0x12345000" "0x2000" 0 "test_handoff []" 0 0] c(1) reach_test s fake_handoff_rests b
  have "\<exists>ho1 ho2 addr. agx_handoff_prepare_unmap (test_handoff []) 2 0x12345000 0x2000 = (0, ho1)
     \<and> slot (ho_ctx ho1) 2 = (AGX_HANDOFF_FLUSH_DONE, addr, 0x2000) \<and> addr AND AGX_HANDOFF_UNMAP_ADDR_MASK = 0x12345000
     \<and> agx_handoff_complete_unmap ho1 2 = (0, ho2)" by metis
  with unmap_cycle [of "0x41" "test_handoff []" "0x12345000" "0x2000"] c(2) show ?thesis by blast
qed

end
