(* ===== verification/Trace.thy ===== *)
theory Trace
  imports Debugfs
begin

text \<open>
  The trace tools of \<^verbatim>\<open>tools/trace\<close>: the record format of \<^verbatim>\<open>agxtrace.hpp\<close>, the program that dumps a
  trace file as a table and the one that replays it and reports anomalies. A file is a list of bytes, the structs are read as the
  little endian host lays them out, and a program maps its arguments and the readable files to its exit status and
  the lines it writes to standard output and standard error. The counters of the replay are natural numbers: a file has fewer
  than 2^64 records, so the counters of type \<^verbatim>\<open>size_t\<close> do not wrap.
\<close>

section \<open>The file format\<close>

record trace_record =
  tr_timestampns :: u64
  tr_endpoint :: u32
  tr_flags :: u32
  tr_data0 :: u64

definition endpointmanagement :: u32 where "endpointmanagement = 0x00"
definition endpointsystemlimit :: u32 where "endpointsystemlimit = 0x20"
definition endpointfirmware :: u32 where "endpointfirmware = 0x20"
definition endpointdoorbell :: u32 where "endpointdoorbell = 0x21"

definition magic :: "u8 list" where
  "magic = map of_nat [97, 103, 120, 116, 114, 99, 49, 0]"

fun le_word :: "u8 list \<Rightarrow> 'a :: len word" where
  "le_word [] = 0"
| "le_word (b # bs) = ucast b OR push_bit 8 (le_word bs)"

definition le_bytes :: "nat \<Rightarrow> 'a :: len word \<Rightarrow> u8 list" where
  "le_bytes n w = map (\<lambda>i. ucast (drop_bit (8 * i) w)) [0..<n]"

text \<open>\<^verbatim>\<open>in.read(&rec, sizeof(rec))\<close>: a whole record, or the end of the file.\<close>

definition read_record :: "u8 list \<Rightarrow> (trace_record \<times> u8 list) option" where
  "read_record bs =
     (if length bs < 24 then None
      else Some (\<lparr>tr_timestampns = le_word (take 8 bs), tr_endpoint = le_word (take 4 (drop 8 bs)),
                  tr_flags = le_word (take 4 (drop 12 bs)), tr_data0 = le_word (take 8 (drop 16 bs))\<rparr>, drop 24 bs))"

text \<open>The stream after the header, if the header is the magic.\<close>

definition readheader :: "u8 list \<Rightarrow> u8 list option" where
  "readheader bs = (if length bs < 8 then None else if take 8 bs = magic then Some (drop 8 bs) else None)"

lemma read_record_shorter: "read_record bs = Some (r, bs') \<Longrightarrow> length bs' < length bs"
  by (auto simp: read_record_def split: if_splits)

section \<open>The programs\<close>

record replay =
  rp_previous :: "trace_record option"
  rp_total :: nat
  rp_anomalies :: nat
  rp_management :: nat
  rp_system :: nat
  rp_doorbell :: nat
  rp_firmware :: nat
  rp_unknown :: nat
  rp_cerr :: "string list"

definition replay_init :: replay where
  "replay_init = \<lparr>rp_previous = None, rp_total = 0, rp_anomalies = 0, rp_management = 0, rp_system = 0, rp_doorbell = 0,
     rp_firmware = 0, rp_unknown = 0, rp_cerr = []\<rparr>"

definition line_backwards :: "nat \<Rightarrow> string" where
  "line_backwards n = ''anomaly at record '' @ fmt_u n @ '' timestamp went backwards''"

definition line_unknown :: "nat \<Rightarrow> u32 \<Rightarrow> string" where
  "line_unknown n ep = ''anomaly at record '' @ fmt_u n @ '' endpoint 0x'' @ fmt_base 16 (unat ep) @ '' is not a known endpoint''"

definition replay_time :: "trace_record \<Rightarrow> replay \<Rightarrow> replay" where
  "replay_time r p = (case rp_previous p of
     None \<Rightarrow> p
   | Some q \<Rightarrow> if tr_timestampns r < tr_timestampns q
       then p\<lparr>rp_cerr := rp_cerr p @ [line_backwards (rp_total p)], rp_anomalies := rp_anomalies p + 1\<rparr> else p)"

definition replay_endpoint :: "trace_record \<Rightarrow> replay \<Rightarrow> replay" where
  "replay_endpoint r p =
     (if tr_endpoint r = endpointmanagement then p\<lparr>rp_management := rp_management p + 1\<rparr>
      else if tr_endpoint r < endpointsystemlimit then p\<lparr>rp_system := rp_system p + 1\<rparr>
      else if tr_endpoint r = endpointdoorbell then p\<lparr>rp_doorbell := rp_doorbell p + 1\<rparr>
      else if tr_endpoint r = endpointfirmware then p\<lparr>rp_firmware := rp_firmware p + 1\<rparr>
      else p\<lparr>rp_cerr := rp_cerr p @ [line_unknown (rp_total p) (tr_endpoint r)], rp_unknown := rp_unknown p + 1,
             rp_anomalies := rp_anomalies p + 1\<rparr>)"

function replay_loop :: "u8 list \<Rightarrow> replay \<Rightarrow> replay" where
  "replay_loop bs p = (case read_record bs of
     None \<Rightarrow> p
   | Some (r, bs) \<Rightarrow>
       let p = p\<lparr>rp_total := rp_total p + 1\<rparr>; p = replay_time r p; p = replay_endpoint r p
       in replay_loop bs (p\<lparr>rp_previous := Some r\<rparr>))"
  by pat_completeness auto
termination by (relation "measure (length \<circ> fst)") (auto dest: read_record_shorter)

declare replay_loop.simps [simp del]

definition replay_cout :: "replay \<Rightarrow> string list" where
  "replay_cout p = [
     ''replayed '' @ fmt_u (rp_total p) @ '' records'',
     ''management endpoint messages '' @ fmt_u (rp_management p),
     ''system endpoint messages '' @ fmt_u (rp_system p),
     ''doorbell endpoint messages '' @ fmt_u (rp_doorbell p),
     ''firmware endpoint messages '' @ fmt_u (rp_firmware p),
     ''unknown endpoint messages '' @ fmt_u (rp_unknown p),
     ''anomalies '' @ fmt_u (rp_anomalies p)]"

text \<open>What both programs do before the first record: the arguments, the file, the header.\<close>

definition open_trace :: "string list \<Rightarrow> (string \<Rightarrow> u8 list option) \<Rightarrow> string + u8 list" where
  "open_trace argv files =
     (if length argv \<noteq> 2 then Inl (''usage '' @ hd argv @ '' trace file path'')
      else case files (argv ! 1) of
        None \<Rightarrow> Inl ''could not open trace file''
      | Some bs \<Rightarrow> (case readheader bs of
          None \<Rightarrow> Inl ''trace file has an unexpected header''
        | Some bs \<Rightarrow> Inr bs))"

definition agxtracereplay :: "string list \<Rightarrow> (string \<Rightarrow> u8 list option) \<Rightarrow> int \<times> string list \<times> string list" where
  "agxtracereplay argv files = (case open_trace argv files of
     Inl e \<Rightarrow> (1, [], [e])
   | Inr bs \<Rightarrow> let p = replay_loop bs replay_init
       in (if rp_anomalies p = 0 then 0 else 1, replay_cout p, rp_cerr p))"

text \<open>\<^verbatim>\<open>std::left << std::setw(n)\<close>\<close>

definition setw :: "nat \<Rightarrow> string \<Rightarrow> string" where
  "setw n s = s @ replicate (n - length s) CHR '' ''"

definition dump_row :: "trace_record \<Rightarrow> string" where
  "dump_row r = setw 20 (fmt_u (unat (tr_timestampns r))) @ setw 12 (''0x'' @ fmt_base 16 (unat (tr_endpoint r)))
     @ setw 12 (''0x'' @ fmt_base 16 (unat (tr_flags r))) @ ''0x'' @ fmt_base 16 (unat (tr_data0 r))"

function dump_loop :: "u8 list \<Rightarrow> string list" where
  "dump_loop bs = (case read_record bs of None \<Rightarrow> [] | Some (r, bs) \<Rightarrow> dump_row r # dump_loop bs)"
  by pat_completeness auto
termination by (relation "measure length") (auto dest: read_record_shorter)

declare dump_loop.simps [simp del]

definition agxtracedump :: "string list \<Rightarrow> (string \<Rightarrow> u8 list option) \<Rightarrow> int \<times> string list \<times> string list" where
  "agxtracedump argv files = (case open_trace argv files of
     Inl e \<Rightarrow> (1, [], [e])
   | Inr bs \<Rightarrow> let rows = dump_loop bs
       in (0, (setw 20 ''timestampns'' @ setw 12 ''endpoint'' @ setw 12 ''flags'' @ ''data0'') # rows
                @ ['''', fmt_u (length rows) @ '' records''], []))"

section \<open>Writing and reading a trace\<close>

definition encode_record :: "trace_record \<Rightarrow> u8 list" where
  "encode_record r = le_bytes 8 (tr_timestampns r) @ le_bytes 4 (tr_endpoint r) @ le_bytes 4 (tr_flags r) @ le_bytes 8 (tr_data0 r)"

definition trace_file :: "trace_record list \<Rightarrow> u8 list \<Rightarrow> u8 list" where
  "trace_file rs tail = magic @ concat (map encode_record rs) @ tail"

lemma length_le_bytes [simp]: "length (le_bytes n w) = n"
  by (simp add: le_bytes_def)

lemma bit_le_word:
  "bit (le_word bs :: 'a :: len word) i \<longleftrightarrow> i < LENGTH('a) \<and> i div 8 < length bs \<and> bit (bs ! (i div 8)) (i mod 8)"
proof (induction bs arbitrary: i)
  case (Cons b bs)
  show ?case
  proof (cases "i < 8")
    case False
    then have "i div 8 = Suc ((i - 8) div 8)" "i mod 8 = (i - 8) mod 8" by (simp_all add: le_div_geq le_mod_geq)
    with False Cons [of "i - 8"] show ?thesis by (auto simp: bit_simps dest: bit_imp_le_length)
  qed (simp add: bit_simps)
qed simp

lemma le_word_bytes: "LENGTH('a) = 8 * n \<Longrightarrow> le_word (le_bytes n w) = (w :: 'a :: len word)"
  by (rule bit_word_eqI) (auto simp: bit_le_word le_bytes_def bit_simps div_less_iff_less_mult mult.commute)

lemma le_bytes_word:
  assumes "LENGTH('a) = 8 * n" "length bs = n"
  shows "le_bytes n (le_word bs :: 'a :: len word) = bs"
proof (rule nth_equalityI)
  fix i assume "i < length (le_bytes n (le_word bs :: 'a word))"
  then have i: "i < n" by simp
  have "bit (drop_bit (8 * i) (le_word bs) :: 'a word) j = bit (bs ! i) j" if "j < 8" for j
    using i that assms by (simp add: bit_simps bit_le_word)
  then show "le_bytes n (le_word bs :: 'a word) ! i = bs ! i"
    using i assms by (auto simp: le_bytes_def bit_simps intro!: bit_word_eqI)
qed (simp add: assms)

lemma read_encoded [simp]: "read_record (encode_record r @ bs) = Some (r, bs)"
  by (simp add: read_record_def encode_record_def le_word_bytes)

lemma read_tail [simp]: "length tail < 24 \<Longrightarrow> read_record tail = None"
  by (simp add: read_record_def)

lemma encode_read: "read_record bs = Some (r, bs') \<Longrightarrow> bs = encode_record r @ bs'"
proof -
  assume r: "read_record bs = Some (r, bs')"
  then have "encode_record r = take 8 bs @ take 4 (drop 8 bs) @ take 4 (drop 12 bs) @ take 8 (drop 16 bs)" "bs' = drop 24 bs"
    by (auto simp: read_record_def encode_record_def le_bytes_word split: if_splits)
  moreover have "take 8 bs @ take 4 (drop 8 bs) @ take 4 (drop 12 bs) @ take 8 (drop 16 bs) = take 24 bs"
    by (simp add: take_drop [symmetric] flip: take_add append_assoc)
  ultimately show ?thesis by (metis append_take_drop_id)
qed

text \<open>Every file with the header is a trace of records with at most a broken one at the end.\<close>

lemma trace_file_exists:
  assumes "readheader bs = Some b"
  shows "\<exists>rs tail. bs = trace_file rs tail \<and> length tail < 24"
proof -
  have "\<exists>rs tail. b = concat (map encode_record rs) @ tail \<and> length tail < 24"
  proof (induction b rule: length_induct)
    case (1 b)
    show ?case
    proof (cases "read_record b")
      case None
      then have "length b < 24" by (simp add: read_record_def split: if_splits)
      then show ?thesis by (intro exI [of _ "[]"] exI [of _ b]) simp
    next
      case (Some a)
      then obtain r b' where r: "read_record b = Some (r, b')" by (cases a) auto
      with 1 read_record_shorter obtain rs tail where "b' = concat (map encode_record rs) @ tail" "length tail < 24" by blast
      with encode_read [OF r] show ?thesis by (intro exI [of _ "r # rs"] exI [of _ tail]) simp
    qed
  qed
  moreover have "bs = magic @ b" using assms by (auto simp: readheader_def split: if_splits) (metis append_take_drop_id)
  ultimately show ?thesis by (auto simp: trace_file_def)
qed

section \<open>Reference\<close>

text \<open>The lines on standard error, one per anomaly, for the records that follow record number \<open>n\<close>.\<close>

fun replay_errors :: "nat \<Rightarrow> trace_record option \<Rightarrow> trace_record list \<Rightarrow> string list" where
  "replay_errors n q [] = []"
| "replay_errors n q (r # rs) =
     (case q of None \<Rightarrow> [] | Some q \<Rightarrow> if tr_timestampns r < tr_timestampns q then [line_backwards (Suc n)] else [])
     @ (if tr_endpoint r \<le> endpointdoorbell then [] else [line_unknown (Suc n) (tr_endpoint r)])
     @ replay_errors (Suc n) (Some r) rs"

definition count_records :: "(u32 \<Rightarrow> bool) \<Rightarrow> trace_record list \<Rightarrow> nat" where
  "count_records P rs = length (filter (\<lambda>r. P (tr_endpoint r)) rs)"

lemma count_records_simps [simp]:
  "count_records P [] = 0" "count_records P (r # rs) = (if P (tr_endpoint r) then 1 else 0) + count_records P rs"
  by (simp_all add: count_records_def)

lemmas endpoint_defs = endpointmanagement_def endpointsystemlimit_def endpointfirmware_def endpointdoorbell_def

text \<open>One endpoint is in one class, with every comparison the program makes.\<close>

lemma endpoint_cases:
  obtains (management) "ep = endpointmanagement" "ep < endpointsystemlimit" "ep \<noteq> endpointfirmware" "ep \<noteq> endpointdoorbell"
      "\<not> endpointmanagement < ep" "\<not> endpointdoorbell < ep" "ep \<le> endpointdoorbell"
  | (system) "ep \<noteq> endpointmanagement" "ep < endpointsystemlimit" "ep \<noteq> endpointfirmware" "ep \<noteq> endpointdoorbell"
      "endpointmanagement < ep" "\<not> endpointdoorbell < ep" "ep \<le> endpointdoorbell"
  | (firmware) "ep = endpointfirmware" "ep \<noteq> endpointmanagement" "\<not> ep < endpointsystemlimit" "ep \<noteq> endpointdoorbell"
      "\<not> endpointdoorbell < ep" "ep \<le> endpointdoorbell"
  | (doorbell) "ep = endpointdoorbell" "ep \<noteq> endpointmanagement" "\<not> ep < endpointsystemlimit" "ep \<noteq> endpointfirmware"
      "\<not> endpointdoorbell < ep" "ep \<le> endpointdoorbell"
  | (unknown) "ep \<noteq> endpointmanagement" "\<not> ep < endpointsystemlimit" "ep \<noteq> endpointfirmware" "ep \<noteq> endpointdoorbell"
      "endpointdoorbell < ep" "\<not> ep \<le> endpointdoorbell"
proof -
  have "unat ep = 0 \<or> 0 < unat ep \<and> unat ep < 32 \<or> unat ep = 32 \<or> unat ep = 33 \<or> 33 < unat ep" by linarith
  then show thesis
    using management system firmware doorbell unknown
    by (simp add: endpoint_defs word_le_nat_alt word_less_nat_alt word_unat_eq_iff) linarith
qed

lemma replay_errors_step: "replay_errors n q (r # rs) = replay_errors n q [r] @ replay_errors (Suc n) (Some r) rs"
  by simp

definition replay_after :: "trace_record list \<Rightarrow> replay \<Rightarrow> replay" where
  "replay_after rs p =
    p\<lparr>rp_previous := (if rs = [] then rp_previous p else Some (last rs)), rp_total := rp_total p + length rs,
      rp_anomalies := rp_anomalies p + length (replay_errors (rp_total p) (rp_previous p) rs),
      rp_management := rp_management p + count_records (\<lambda>ep. ep = endpointmanagement) rs,
      rp_system := rp_system p + count_records (\<lambda>ep. endpointmanagement < ep \<and> ep < endpointsystemlimit) rs,
      rp_doorbell := rp_doorbell p + count_records (\<lambda>ep. ep = endpointdoorbell) rs,
      rp_firmware := rp_firmware p + count_records (\<lambda>ep. ep = endpointfirmware) rs,
      rp_unknown := rp_unknown p + count_records (\<lambda>ep. endpointdoorbell < ep) rs,
      rp_cerr := rp_cerr p @ replay_errors (rp_total p) (rp_previous p) rs\<rparr>"

lemma replay_step:
  "(replay_endpoint r (replay_time r (p\<lparr>rp_total := rp_total p + 1\<rparr>)))\<lparr>rp_previous := Some r\<rparr> = replay_after [r] p"
  by (cases "tr_endpoint r" rule: endpoint_cases; cases "rp_previous p")
    (simp_all add: replay_time_def replay_endpoint_def replay_after_def)

lemma replay_after_Cons: "replay_after rs (replay_after [r] p) = replay_after (r # rs) p"
  by (simp add: replay_after_def replay_errors_step [of _ _ r rs] del: replay_errors.simps(2))

lemma replay_loop_refines:
  "length tail < 24 \<Longrightarrow> replay_loop (concat (map encode_record rs) @ tail) p = replay_after rs p"
proof (induction rs arbitrary: p)
  case Nil
  then show ?case by (subst replay_loop.simps) (simp add: replay_after_def)
next
  case (Cons r rs)
  have "replay_loop (concat (map encode_record (r # rs)) @ tail) p =
      replay_loop (concat (map encode_record rs) @ tail)
        ((replay_endpoint r (replay_time r (p\<lparr>rp_total := rp_total p + 1\<rparr>)))\<lparr>rp_previous := Some r\<rparr>)"
    by (subst replay_loop.simps) (simp add: Let_def)
  with Cons show ?case by (simp only: replay_step replay_after_Cons)
qed

lemma dump_loop_refines: "length tail < 24 \<Longrightarrow> dump_loop (concat (map encode_record rs) @ tail) = map dump_row rs"
proof (induction rs)
  case Nil
  then show ?case by (subst dump_loop.simps) simp
next
  case (Cons r rs)
  then show ?case by (subst dump_loop.simps) simp
qed

lemma replay_errors_none:
  "replay_errors n q rs = [] \<longleftrightarrow> (\<forall>r\<in>set rs. tr_endpoint r \<le> endpointdoorbell)
     \<and> sorted_wrt (\<le>) (map tr_timestampns (case q of None \<Rightarrow> rs | Some q \<Rightarrow> q # rs))"
proof (induction rs arbitrary: n q)
  case (Cons r rs)
  show ?case
    by (cases q) (auto simp: Cons.IH not_less intro: order_trans)
qed (simp split: option.split)

lemma open_trace_file:
  "files f = Some (trace_file rs tail) \<Longrightarrow> open_trace [prog, f] files = Inr (concat (map encode_record rs) @ tail)"
  by (simp add: open_trace_def trace_file_def readheader_def magic_def)

section \<open>Rows of the table\<close>

lemma fmt_base_length: "2 \<le> b \<Longrightarrow> n < b ^ k \<Longrightarrow> 0 < k \<Longrightarrow> length (fmt_base b n) \<le> k"
proof (induction b n arbitrary: k rule: fmt_base.induct)
  case (1 b n)
  show ?case
  proof (cases "n < b")
    case True
    then show ?thesis using 1 by (subst fmt_base.simps) simp
  next
    case False
    then obtain j where j: "k = Suc j" "0 < j" using 1 by (cases k; cases "k - 1") auto
    have "n div b < b ^ j" using 1 j by (simp add: less_mult_imp_div_less mult.commute)
    with 1 False j have "length (fmt_base b (n div b)) \<le> j" by simp
    then show ?thesis using False 1 j by (subst fmt_base.simps) simp
  qed
qed

lemma no_space: "2 \<le> b \<Longrightarrow> b \<le> 16 \<Longrightarrow> CHR '' '' \<notin> set (fmt_base b n)"
proof
  assume b: "2 \<le> b" "b \<le> 16" and "CHR '' '' \<in> set (fmt_base b n)"
  then obtain m where "m < 16" "CHR '' '' = digit m" using fmt_chars by blast
  then have "(of_char (digit m) :: nat) = of_char (CHR '' '')" by metis
  then have "(of_char (digit m) :: nat) = 32" by simp
  with \<open>m < 16\<close> show False by (simp add: of_char_digit split: if_splits)
qed

lemma setw_inject:
  assumes "CHR '' '' \<notin> set s" "CHR '' '' \<notin> set u" "setw n s = setw n u"
  shows "s = u"
proof -
  have "takeWhile (\<lambda>c. c \<noteq> CHR '' '') (setw n v) = v" if "CHR '' '' \<notin> set v" for v
  proof -
    have "takeWhile (\<lambda>c. c \<noteq> CHR '' '') (v @ replicate k CHR '' '') = v" for k
      using that by (induction v) (auto simp: takeWhile_replicate)
    then show ?thesis by (simp add: setw_def)
  qed
  then show ?thesis using assms by metis
qed

lemma dump_row_inject: "dump_row r = dump_row q \<Longrightarrow> r = q"
proof -
  assume e: "dump_row r = dump_row q"
  have len: "length (setw n s) = n" if "length s \<le> n" for n s using that by (simp add: setw_def)
  have t: "length (setw 20 (fmt_u (unat x))) = 20" for x :: u64
    using fmt_base_length [of 10 "unat x" 20] unsigned_less [of x, where ?'a = nat] by (intro len) (simp add: fmt_u_def)
  have h: "length (setw 12 (''0x'' @ fmt_base 16 (unat x))) = 12" for x :: u32
    using fmt_base_length [of 16 "unat x" 8] unsigned_less [of x, where ?'a = nat] by (intro len) simp
  have parts: "setw 20 (fmt_u (unat (tr_timestampns r))) = setw 20 (fmt_u (unat (tr_timestampns q)))"
    "setw 12 (''0x'' @ fmt_base 16 (unat (tr_endpoint r))) = setw 12 (''0x'' @ fmt_base 16 (unat (tr_endpoint q)))"
    "setw 12 (''0x'' @ fmt_base 16 (unat (tr_flags r))) = setw 12 (''0x'' @ fmt_base 16 (unat (tr_flags q)))"
    "fmt_base 16 (unat (tr_data0 r)) = fmt_base 16 (unat (tr_data0 q))"
    using e t h by (simp_all add: dump_row_def)
  have x: "unat a = unat b" if "fmt_base 16 (unat a) = fmt_base 16 (unat b)" for a b :: "'a :: len word"
  proof -
    have "parse_base 16 (fmt_base 16 n) = n" for n by (rule parse_fmt) simp_all
    then show ?thesis using that by metis
  qed
  have "fmt_u (unat (tr_timestampns r)) = fmt_u (unat (tr_timestampns q))"
    by (rule setw_inject [OF _ _ parts(1)]) (simp_all add: fmt_u_def no_space)
  moreover have "fmt_base 16 (unat (tr_endpoint r)) = fmt_base 16 (unat (tr_endpoint q))"
    using setw_inject [OF _ _ parts(2)] by (simp add: no_space)
  moreover have "fmt_base 16 (unat (tr_flags r)) = fmt_base 16 (unat (tr_flags q))"
    using setw_inject [OF _ _ parts(3)] by (simp add: no_space)
  ultimately show ?thesis
    using x [of "tr_endpoint r"] x [of "tr_flags r"] x [OF parts(4)]
    by (intro trace_record.equality) (simp_all add: word_unat_eq_iff fmt_inject)
qed

section \<open>Properties\<close>

text \<open>C40. Both trace programs on a file of records, with a broken record at the end or none: the replay counts the records by class and
  writes one line per anomaly, its status is 0 exactly when no timestamp goes backwards and every endpoint is known; the
  dump prints one row per record, and different records give different rows.\<close>

theorem trace_programs:
  assumes "length tail < 24" and "files f = Some (trace_file rs tail)"
  shows "(let (status, cout, cerr) = agxtracereplay [prog, f] files
      in (status = 0 \<longleftrightarrow> sorted (map tr_timestampns rs) \<and> (\<forall>r\<in>set rs. tr_endpoint r \<le> 0x21)) \<and> (status \<noteq> 0 \<longrightarrow> status = 1)
         \<and> cerr = replay_errors 0 None rs
         \<and> cout = [''replayed '' @ fmt_u (length rs) @ '' records'',
             ''management endpoint messages '' @ fmt_u (count_records (\<lambda>ep. ep = 0) rs),
             ''system endpoint messages '' @ fmt_u (count_records (\<lambda>ep. 0 < ep \<and> ep < 0x20) rs),
             ''doorbell endpoint messages '' @ fmt_u (count_records (\<lambda>ep. ep = 0x21) rs),
             ''firmware endpoint messages '' @ fmt_u (count_records (\<lambda>ep. ep = 0x20) rs),
             ''unknown endpoint messages '' @ fmt_u (count_records (\<lambda>ep. 0x21 < ep) rs),
             ''anomalies '' @ fmt_u (length (replay_errors 0 None rs))]) \<and>
    (\<exists>head. agxtracedump [prog, f] files = (0, head # map dump_row rs @ [[], fmt_u (length rs) @ '' records''], [])) \<and>
    inj dump_row"
proof -
  note o = open_trace_file [of files f rs tail prog, OF assms(2)]
  have "replay_errors 0 None rs = [] \<longleftrightarrow> sorted (map tr_timestampns rs) \<and> (\<forall>r\<in>set rs. tr_endpoint r \<le> 0x21)"
    by (auto simp: replay_errors_none endpointdoorbell_def)
  then show ?thesis
    by (auto simp: agxtracereplay_def agxtracedump_def o replay_loop_refines [OF assms(1)] dump_loop_refines [OF assms(1)]
        replay_after_def replay_init_def replay_cout_def endpoint_defs Let_def inj_def dump_row_inject)
qed

theorem trace_programs_witness:
  "\<exists>cout cerr. agxtracereplay [''agxtracereplay'', ''t'']
     [''t'' \<mapsto> trace_file [\<lparr>tr_timestampns = 5, tr_endpoint = 0x20, tr_flags = 0, tr_data0 = 7\<rparr>,
                         \<lparr>tr_timestampns = 6, tr_endpoint = 0x21, tr_flags = 0, tr_data0 = 8\<rparr>] [1, 2]] = (0, cout, cerr)"
proof -
  let ?rs = "[\<lparr>tr_timestampns = 5, tr_endpoint = 0x20, tr_flags = 0, tr_data0 = 7\<rparr>,
    \<lparr>tr_timestampns = 6, tr_endpoint = 0x21, tr_flags = 0, tr_data0 = 8\<rparr>] :: trace_record list"
  from trace_programs [of "[1, 2]" "[''t'' \<mapsto> trace_file ?rs [1, 2]]" "''t''" ?rs "''agxtracereplay''"] show ?thesis
    by (cases "agxtracereplay [''agxtracereplay'', ''t''] [''t'' \<mapsto> trace_file ?rs [1, 2]]") auto
qed

end
