(* ===== verification/Sptm.thy ===== *)
theory Sptm
  imports Wire
begin

text \<open>
  The data the headers of the secure page table monitor and of the trusted execution monitor declare:
  \<^verbatim>\<open>sptm.h\<close>, \<^verbatim>\<open>sptmregisters.h\<close>, \<^verbatim>\<open>sptmdispatch.h\<close>, \<^verbatim>\<open>sptmbootregions.h\<close>, \<^verbatim>\<open>sptmgpuiouat.h\<close> and
  \<^verbatim>\<open>txm.h\<close>. An enumeration is the list of its constants with their values, in the order of the
  header; a structure is a \<open>ctype\<close>, the list of its members with their C types. The layout of a
  structure (offsets, size and alignment) is computed by the rules of the LP64 ABI the module is
  built for: a member starts at the next multiple of its alignment, the size is rounded up to the
  alignment of the whole. The lemmas show that this layout is well formed for every structure and that
  the headers' own assertions and strides hold of it. The portability test of the headers
  (\<^verbatim>\<open>tests/portable_c.c\<close>, the same checks as \<^verbatim>\<open>portable_cpp.cpp\<close>) is run at the end.
\<close>

section \<open>C types and their layout\<close>

type_synonym enum_table = "(string \<times> nat) list"

text \<open>The first argument of \<open>C_struct\<close> is the alignment an \<^verbatim>\<open>aligned\<close> attribute asks for, 0 without one.\<close>

datatype ctype =
    C_u8 | C_u32 | C_u64 | C_int | C_ptr
  | C_array nat ctype
  | C_struct nat "(string \<times> ctype) list"

function (sequential) calign :: "ctype \<Rightarrow> nat" and members_align :: "(string \<times> ctype) list \<Rightarrow> nat" where
  "calign C_u8 = 1"
| "calign C_u32 = 4"
| "calign C_u64 = 8"
| "calign C_int = 4"
| "calign C_ptr = 8"
| "calign (C_array n t) = calign t"
| "calign (C_struct a fs) = max a (members_align fs)"
| "members_align [] = 1"
| "members_align ((m, t) # fs) = max (calign t) (members_align fs)"
  by pat_completeness auto
termination
  by (relation "measure (case_sum size (size_list (size_prod (\<lambda>_. 0) size)))") auto

definition round_up :: "nat \<Rightarrow> nat \<Rightarrow> nat" where
  "round_up n a = (n + a - 1) div a * a"

function (sequential) csize :: "ctype \<Rightarrow> nat" and members_end :: "nat \<Rightarrow> (string \<times> ctype) list \<Rightarrow> nat" where
  "csize C_u8 = 1"
| "csize C_u32 = 4"
| "csize C_u64 = 8"
| "csize C_int = 4"
| "csize C_ptr = 8"
| "csize (C_array n t) = n * csize t"
| "csize (C_struct a fs) = round_up (members_end 0 fs) (calign (C_struct a fs))"
| "members_end off [] = off"
| "members_end off ((m, t) # fs) = members_end (round_up off (calign t) + csize t) fs"
  by pat_completeness auto
termination
  by (relation "measure (case_sum size (\<lambda>(_, fs). size_list (size_prod (\<lambda>_. 0) size) fs))") auto

text \<open>The members of a structure with their offsets, and \<^verbatim>\<open>offsetof\<close>.\<close>

fun layout :: "nat \<Rightarrow> (string \<times> ctype) list \<Rightarrow> (string \<times> nat \<times> ctype) list" where
  "layout off [] = []"
| "layout off ((m, t) # fs) = (m, round_up off (calign t), t) # layout (round_up off (calign t) + csize t) fs"

fun offsetof :: "ctype \<Rightarrow> string \<Rightarrow> nat option" where
  "offsetof (C_struct a fs) m = map_option fst (map_of (layout 0 fs) m)"
| "offsetof _ m = None"

text \<open>A well-formed layout: the members are apart and in order and lie inside the structure; each is
  aligned in every object of the structure, the objects of an array included.\<close>

fun apart :: "(string \<times> nat \<times> ctype) list \<Rightarrow> nat \<Rightarrow> bool" where
  "apart [] limit = True"
| "apart ((m, off, t) # l) limit \<longleftrightarrow>
     off + csize t \<le> limit \<and> list_all (\<lambda>(m', off', t'). m' \<noteq> m \<and> off + csize t \<le> off') l \<and> apart l limit"

fun well_laid :: "ctype \<Rightarrow> bool" where
  "well_laid (C_struct a fs) \<longleftrightarrow>
     apart (layout 0 fs) (csize (C_struct a fs)) \<and>
     list_all (\<lambda>(m, off, t). calign t dvd off \<and> calign t dvd calign (C_struct a fs)) (layout 0 fs) \<and>
     calign (C_struct a fs) dvd csize (C_struct a fs)"
| "well_laid t \<longleftrightarrow> calign t dvd csize t"

text \<open>What C requires of a declaration: alignments that are powers of two and distinct member names.\<close>

fun power_of_two :: "nat \<Rightarrow> bool" where
  "power_of_two 0 = False"
| "power_of_two (Suc 0) = True"
| "power_of_two n \<longleftrightarrow> even n \<and> power_of_two (n div 2)"

function (sequential) declared :: "ctype \<Rightarrow> bool" and members_declared :: "(string \<times> ctype) list \<Rightarrow> bool" where
  "declared (C_array n t) \<longleftrightarrow> declared t"
| "declared (C_struct a fs) \<longleftrightarrow> (a = 0 \<or> power_of_two a) \<and> distinct (map fst fs) \<and> members_declared fs"
| "declared _ \<longleftrightarrow> True"
| "members_declared [] \<longleftrightarrow> True"
| "members_declared ((m, t) # fs) \<longleftrightarrow> declared t \<and> members_declared fs"
  by pat_completeness auto
termination
  by (relation "measure (case_sum size (size_list (size_prod (\<lambda>_. 0) size)))") auto

section \<open>\<^verbatim>\<open>sptm.h\<close>: call descriptors\<close>

definition SPTM_DOMAIN_SHIFT :: nat where "SPTM_DOMAIN_SHIFT = 48"
definition SPTM_TABLEID_SHIFT :: nat where "SPTM_TABLEID_SHIFT = 32"
definition SPTM_TABLEID_MASK :: u32 where "SPTM_TABLEID_MASK = 0xf"

definition SPTM_CALL_DESC :: "u32 \<Rightarrow> u32 \<Rightarrow> u64" where
  "SPTM_CALL_DESC domain table_id =
     push_bit SPTM_DOMAIN_SHIFT (ucast domain) OR push_bit SPTM_TABLEID_SHIFT (ucast (table_id AND SPTM_TABLEID_MASK))"

definition sptm_domain :: enum_table where
  "sptm_domain = [
     (''SPTM_DOMAIN_SPTM'', 0),
     (''SPTM_DOMAIN_BOOTKCX'', 1),
     (''SPTM_DOMAIN_TXM'', 2)]"

definition sptm_self_table :: enum_table where
  "sptm_self_table = [
     (''SPTM_TABLE_SELF_0'', 0),
     (''SPTM_TABLE_SELF_1'', 1),
     (''SPTM_TABLE_SELF_2'', 2),
     (''SPTM_TABLE_SELF_10'', 10)]"

section \<open>\<^verbatim>\<open>sptmregisters.h\<close> and \<^verbatim>\<open>sptmdispatch.h\<close>\<close>

definition sptmSysRegEncodings :: enum_table where
  "sptmSysRegEncodings = [
     (''sysRegGxfStatusEl1'', 0),
     (''sysRegGxfConfigEl1'', 1),
     (''sysRegGxfEntryEl1'', 2),
     (''sysRegGxfPabEntryEl1'', 3),
     (''sysRegGxfConfigEl12'', 4),
     (''sysRegGxfEntryEl12'', 5),
     (''sysRegGxfPabEntryEl12'', 6),
     (''sysRegTpidrGl1'', 7),
     (''sysRegVbarGl1'', 8),
     (''sysRegSpsrGl1'', 9),
     (''sysRegAspsrGl1'', 10),
     (''sysRegEsrGl1'', 11),
     (''sysRegElrGl1'', 12),
     (''sysRegFarGl1'', 13),
     (''sysRegTpidrGl2'', 14),
     (''sysRegSpGl12'', 15),
     (''sysRegSprrConfigEl1'', 16),
     (''sysRegSprrPermEl0'', 17),
     (''sysRegSprrPermEl1'', 18)]"

definition agxVec128 :: ctype where
  "agxVec128 = C_struct 16 [
     (''lo'', C_u64),
     (''hi'', C_u64)]"

definition sptmPerCpuState :: ctype where
  "sptmPerCpuState = C_struct 0 [
     (''reserved0x000'', C_array 1104 C_u8),
     (''savedX0'', C_u64),
     (''savedX1'', C_u64),
     (''savedX2'', C_u64),
     (''savedX3'', C_u64),
     (''savedX4'', C_u64),
     (''savedX5'', C_u64),
     (''savedX6'', C_u64),
     (''savedX7'', C_u64),
     (''savedX8'', C_u64),
     (''savedX9'', C_u64),
     (''savedX10'', C_u64),
     (''savedX11'', C_u64),
     (''savedX12'', C_u64),
     (''savedX13'', C_u64),
     (''savedX14'', C_u64),
     (''savedX15'', C_u64),
     (''savedX16'', C_u64),
     (''savedX17'', C_u64),
     (''savedX18'', C_u64),
     (''savedX19'', C_u64),
     (''savedX20'', C_u64),
     (''savedX21'', C_u64),
     (''savedX22'', C_u64),
     (''savedX23'', C_u64),
     (''savedX24'', C_u64),
     (''savedX25'', C_u64),
     (''savedX26'', C_u64),
     (''savedX27'', C_u64),
     (''savedX28'', C_u64),
     (''savedX29'', C_u64),
     (''savedX30'', C_u64),
     (''savedElrGl1'', C_u64),
     (''savedSpsrGl1'', C_u32),
     (''padA'', C_u32),
     (''savedFarGl1'', C_u64),
     (''savedEsrGl1'', C_u64),
     (''savedSpGl12'', C_u64),
     (''padB'', C_array 8 C_u8),
     (''savedQ0'', agxVec128),
     (''savedQ1'', agxVec128),
     (''savedQ2'', agxVec128),
     (''savedQ3'', agxVec128),
     (''savedQ4'', agxVec128),
     (''savedQ5'', agxVec128),
     (''savedQ6'', agxVec128),
     (''savedQ7'', agxVec128),
     (''savedQ8'', agxVec128),
     (''savedQ9'', agxVec128),
     (''savedQ10'', agxVec128),
     (''savedQ11'', agxVec128),
     (''savedQ12'', agxVec128),
     (''savedQ13'', agxVec128),
     (''savedQ14'', agxVec128),
     (''savedQ15'', agxVec128),
     (''savedQ16'', agxVec128),
     (''savedQ17'', agxVec128),
     (''savedQ18'', agxVec128),
     (''savedQ19'', agxVec128),
     (''savedQ20'', agxVec128),
     (''savedQ21'', agxVec128),
     (''savedQ22'', agxVec128),
     (''savedQ23'', agxVec128),
     (''savedQ24'', agxVec128),
     (''savedQ25'', agxVec128),
     (''savedQ26'', agxVec128),
     (''savedQ27'', agxVec128),
     (''savedQ28'', agxVec128),
     (''savedQ29'', agxVec128),
     (''savedQ30'', agxVec128),
     (''savedQ31'', agxVec128),
     (''savedFpsr'', C_u32),
     (''savedFpcr'', C_u32)]"

definition sptmDispatchTableEntry :: ctype where
  "sptmDispatchTableEntry = C_struct 0 [
     (''dispatchEntryPoint'', C_u64),
     (''permissions'', C_u64)]"

definition sptmStateTransition :: ctype where
  "sptmStateTransition = C_struct 0 [
     (''nextState'', C_u8),
     (''padA'', C_array 7 C_u8),
     (''actionMarker'', C_u64),
     (''actionFlags'', C_u8),
     (''padB'', C_array 7 C_u8),
     (''actionBits'', C_u64)]"

definition sptmDomainTableStride :: nat where "sptmDomainTableStride = 384"

definition sptmTableEntryStride :: nat where "sptmTableEntryStride = 24"

definition sptmStateRowStride :: nat where "sptmStateRowStride = 480"

definition sptmTransitionEntryStride :: nat where "sptmTransitionEntryStride = 32"

definition sptmMaxEventType :: nat where "sptmMaxEventType = 15"

definition sptmMaxState :: nat where "sptmMaxState = 23"

definition sptmMutableDomainLow :: nat where "sptmMutableDomainLow = 1"

definition sptmMutableDomainHigh :: nat where "sptmMutableDomainHigh = 3"

definition sptmDispatchEntryAddr :: u64 where "sptmDispatchEntryAddr = 0xfffffff02708053c"

definition sptmGenterDispatchEntryAddr :: u64 where "sptmGenterDispatchEntryAddr = 0xfffffff0270c0370"

definition sptmDispatchStateMachineAddr :: u64 where "sptmDispatchStateMachineAddr = 0xfffffff0270bfbc0"

definition sptmRegisterDispatchTableAddr :: u64 where "sptmRegisterDispatchTableAddr = 0xfffffff0270bf760"

definition sptmStateTransitionTableAddr :: u64 where "sptmStateTransitionTableAddr = 0xfffffff027015bb0"

definition sptmFixedDomainTableAddr :: u64 where "sptmFixedDomainTableAddr = 0xfffffff027078de0"

definition sptmMutableDomainTableAddr :: u64 where "sptmMutableDomainTableAddr = 0xfffffff027079560"

definition sptmDomainNameArrayAddr :: u64 where "sptmDomainNameArrayAddr = 0xfffffff027018950"

definition sptmSelfDispatchHandlerAddr :: u64 where "sptmSelfDispatchHandlerAddr = 0xfffffff0270c01e0"

definition sptmVecCurrentSp0SyncFaultAddr :: u64 where "sptmVecCurrentSp0SyncFaultAddr = 0xfffffff0270826c4"

definition sptmVecCurrentSp1SyncFaultAddr :: u64 where "sptmVecCurrentSp1SyncFaultAddr = 0xfffffff027082744"

definition sptmFaultReportEntryAddr :: u64 where "sptmFaultReportEntryAddr = 0xfffffff0270c04d8"

definition sptmFaultClassifierAddr :: u64 where "sptmFaultClassifierAddr = 0xfffffff0270c0aec"

definition sptmGl1VectorTableAddr :: u64 where "sptmGl1VectorTableAddr = 0xfffffff027084000"

definition sptmColdBootEntryAddr :: u64 where "sptmColdBootEntryAddr = 0xfffffff027088388"

definition sptmColdBootEntryEnd :: u64 where "sptmColdBootEntryEnd = 0xfffffff02708b7fc"

definition sptmSecondaryBootEntryAddr :: u64 where "sptmSecondaryBootEntryAddr = 0xfffffff02708b400"

definition sptmSecondaryBootSharedAddr :: u64 where "sptmSecondaryBootSharedAddr = 0xfffffff02708b40c"

definition sptmInitEntryAddr :: u64 where "sptmInitEntryAddr = 0xfffffff027097dd8"

definition sptmGxfSetupAddr :: u64 where "sptmGxfSetupAddr = 0xfffffff02708b8e8"

definition sptmGxfTestTargetAddr :: u64 where "sptmGxfTestTargetAddr = 0xfffffff02708b88c"

definition sptmLaunchTxmAddr :: u64 where "sptmLaunchTxmAddr = 0xfffffff0270810b8"

definition sptmTxmHandoffArgAddr :: u64 where "sptmTxmHandoffArgAddr = 0xfffffff0270dd380"

definition sptmPabEntryTargetAddr :: u64 where "sptmPabEntryTargetAddr = 0xfffffff027096e98"

section \<open>\<^verbatim>\<open>sptmbootregions.h\<close>\<close>

definition sptmBootRegion :: ctype where
  "sptmBootRegion = C_struct 0 [
     (''name'', C_ptr),
     (''typeCode'', C_int)]"

definition sptmBootRegionTable :: enum_table where
  "sptmBootRegionTable = [
     (''DeviceTree'', 11),
     (''SPTM-ro'', 2),
     (''SPTM-rx'', 4),
     (''SPTM-rw'', 2),
     (''SPTM-le'', 2),
     (''TXM-ro'', 40),
     (''TXM-rx'', 40),
     (''TXM-bx'', 5),
     (''TXM-rw'', 40),
     (''TXM-le'', 40),
     (''BootKC-ro'', 11),
     (''BootKC-rs'', 2),
     (''BootKC-rx'', 11),
     (''BootKC-rw'', 11),
     (''BootKC-le'', 11),
     (''AuxKC-rw'', 11),
     (''AuxKC-ro'', 11),
     (''AuxKC-rx'', 11),
     (''AuxKC-le'', 11),
     (''TrustCache'', 0),
     (''CL4-rx'', 59),
     (''CL4-ro'', 59),
     (''CL4-rw'', 59),
     (''CL4-le'', 59),
     (''CL4-dummypage'', 59),
     (''RAMDisk'', 11),
     (''RTBuddySeg'', 11),
     (''SEPFW'', 11),
     (''SEPPatches'', 11),
     (''uStuff'', 11),
     (''preoslog'', 11),
     (''SPTMDebug'', 11),
     (''BootArgs'', 11),
     (''ExclaveOSIntegrityCatalog'', 59),
     (''ExclaveOSTrustCache'', 59)]"

definition sptmBootRegionTableCount :: nat where "sptmBootRegionTableCount = 35"

section \<open>\<^verbatim>\<open>sptmgpuiouat.h\<close>\<close>

definition sptmUatIsEnabledAddr :: u64 where "sptmUatIsEnabledAddr = 0xfffffff0270966e4"

definition sptmUatBootstrapParseDtAddr :: u64 where "sptmUatBootstrapParseDtAddr = 0xfffffff027095850"

definition sptmUatRetypeInAddr :: u64 where "sptmUatRetypeInAddr = 0xfffffff0270957b8"

definition sptmUatRetypeOutAddr :: u64 where "sptmUatRetypeOutAddr = 0xfffffff027095730"

definition sptmUatPageType :: enum_table where
  "sptmUatPageType = [
     (''UAT_PAGE_TYPE_XNU_DEFAULT'', 11),
     (''UAT_PAGE_TYPE_XNU_IOMMU'', 23)]"

definition sptmUatRetypeInSubtype :: enum_table where
  "sptmUatRetypeInSubtype = [
     (''UAT_RETYPE_IN_SUB_0'', 0),
     (''UAT_RETYPE_IN_SUB_1'', 1),
     (''UAT_RETYPE_IN_SUB_4'', 4),
     (''UAT_RETYPE_IN_SUB_5'', 5)]"

definition sptmUatRetypeOutSubtype :: enum_table where
  "sptmUatRetypeOutSubtype = [
     (''UAT_RETYPE_OUT_SUB_0'', 0),
     (''UAT_RETYPE_OUT_SUB_3'', 3),
     (''UAT_RETYPE_OUT_SUB_4'', 4),
     (''UAT_RETYPE_OUT_SUB_5'', 5)]"

definition sptmUatDeviceTreeProps :: ctype where
  "sptmUatDeviceTreeProps = C_struct 0 [
     (''gfx_shared_region_base'', C_u64),
     (''gfx_shared_region_size'', C_u64),
     (''gfx_shared_l2_region_base'', C_u64),
     (''gfx_shared_l2_region_size'', C_u64),
     (''gpu_region_base'', C_u64),
     (''gpu_region_size'', C_u64),
     (''gfx_handoff_base'', C_u64),
     (''gfx_handoff_size'', C_u64),
     (''gpu_iouat_enabled'', C_u32),
     (''uat_enforce_gpu_carveout'', C_u32),
     (''uat_vaddr_size'', C_u8),
     (''uat_segment_limit'', C_u32),
     (''uat_mapping_limit'', C_u32)]"

section \<open>\<^verbatim>\<open>txm.h\<close>\<close>

definition txmInitEntryAddr :: u64 where "txmInitEntryAddr = 0xfffffff01701ff04"

definition txmDispatchEntryAddr :: u64 where "txmDispatchEntryAddr = 0xfffffff017026c68"

definition txmPageEnforcementAddr :: u64 where "txmPageEnforcementAddr = 0xfffffff017026a64"

definition txmCsEnforcementAddr :: u64 where "txmCsEnforcementAddr = 0xfffffff01701c8a8"

definition txmHopValidatorAddr :: u64 where "txmHopValidatorAddr = 0xfffffff017028768"

definition txmPanicAddr :: u64 where "txmPanicAddr = 0xfffffff01700586f"

definition txmHopFrameTag :: enum_table where
  "txmHopFrameTag = [
     (''TXM_HOP_FRAME_TAG'', 42)]"

definition txmPageEnforcementType :: enum_table where
  "txmPageEnforcementType = [
     (''TXM_PAGE_EXEC_CS'', 0),
     (''TXM_PAGE_EXEC_NOMAP'', 1),
     (''TXM_PAGE_UNMAP'', 2),
     (''TXM_PAGE_EXEC_DEBUG'', 3),
     (''TXM_PAGE_WRITE_DEBUG'', 4),
     (''TXM_PAGE_EXEC_SHARED'', 5)]"

definition txmCsEnforcementType :: enum_table where
  "txmCsEnforcementType = [
     (''TXM_CS_QUERY_EXEC'', 14),
     (''TXM_CS_QUERY_WRITE'', 15),
     (''TXM_CS_QUERY_SHARED'', 16)]"

definition txmCsEntitlement :: enum_table where
  "txmCsEntitlement = [
     (''TXM_CS_ENT_DEBUGGER'', 0),
     (''TXM_CS_ENT_DYNAMIC_CODESIG'', 1),
     (''TXM_CS_ENT_PLATFORM_ONLY'', 2)]"

definition txmPageError :: enum_table where
  "txmPageError = [
     (''TXM_PAGE_OK'', 0),
     (''TXM_PAGE_ERR_DISALLOWED'', 28),
     (''TXM_PAGE_ERR_DEBUG_EXEC'', 30),
     (''TXM_PAGE_ERR_WRITE_CS'', 31),
     (''TXM_PAGE_ERR_WRITE_NOMAP'', 32),
     (''TXM_PAGE_ERR_TRUST'', 34)]"

definition txmDispatchCallId :: enum_table where
  "txmDispatchCallId = [
     (''TXM_CALL_TRUST_CACHE_SETUP'', 1),
     (''TXM_CALL_TRUST_CACHE_INVAL'', 2),
     (''TXM_CALL_IMAGE4_DISPATCH'', 3),
     (''TXM_CALL_SECURE_TIME'', 4),
     (''TXM_CALL_LOCK_DOWN'', 5),
     (''TXM_CALL_TC_QUERY_0'', 6),
     (''TXM_CALL_TC_QUERY_1'', 7),
     (''TXM_CALL_TC_QUERY_2'', 8),
     (''TXM_CALL_CLEAR_0'', 9),
     (''TXM_CALL_CLEAR_1'', 10),
     (''TXM_CALL_TC_QUERY_3'', 11),
     (''TXM_CALL_PAGE_ENFORCE'', 12),
     (''TXM_CALL_IMAGE4_ADD'', 13),
     (''TXM_CALL_VERIFY_SIG'', 14),
     (''TXM_CALL_QUERY_CS'', 15),
     (''TXM_CALL_QUERY_PLATFORM_CS'', 16),
     (''TXM_CALL_EXEC_MAP'', 17),
     (''TXM_CALL_WRITE_MAP'', 18),
     (''TXM_CALL_QUERY_STATE'', 19),
     (''TXM_CALL_EXEC_MAP_EX'', 20),
     (''TXM_CALL_QUERY_STATE_EX'', 21),
     (''TXM_CALL_WRITE_MAP_EX'', 22),
     (''TXM_CALL_QUERY_TRUST'', 23),
     (''TXM_CALL_TC_LOOKUP'', 24),
     (''TXM_CALL_NOOP_25'', 25),
     (''TXM_CALL_ENTITLEMENT_CHECK'', 26),
     (''TXM_CALL_DEV_MODE_QUERY'', 27),
     (''TXM_CALL_ASSOC_SPAWN'', 28),
     (''TXM_CALL_ASSOC_EXEC'', 29),
     (''TXM_CALL_RESTRICT_EXEC'', 30),
     (''TXM_CALL_NOP'', 31),
     (''TXM_CALL_QUERY_BOOT_VARIANT'', 32),
     (''TXM_CALL_TC_FETCH'', 33),
     (''TXM_CALL_QUERY_LOCK_STATE'', 34),
     (''TXM_CALL_MAP_PAIR'', 35),
     (''TXM_CALL_MAP_WITH_FLAGS'', 36),
     (''TXM_CALL_TC_FETCH_EX'', 37),
     (''TXM_CALL_EXEC_REGION'', 38),
     (''TXM_CALL_QUERY_EXEC_REGION'', 39),
     (''TXM_CALL_WRITE_REGION'', 40),
     (''TXM_CALL_QUERY_WRITE_REGION'', 41),
     (''TXM_CALL_EXEC_REGION_EX'', 42),
     (''TXM_CALL_QUERY_TRUST_EX'', 43),
     (''TXM_CALL_AMFI_QUERY'', 44),
     (''TXM_CALL_SECURE_CHANNEL'', 45),
     (''TXM_CALL_MAX_SUPPORTED'', 45)]"

definition txmDispatchError :: enum_table where
  "txmDispatchError = [
     (''TXM_DISP_OK'', 0),
     (''TXM_DISP_ERR_UNSUPPORTED'', 38)]"


section \<open>\<^verbatim>\<open>tests/portable_c.c\<close>\<close>

definition enum_const :: "enum_table \<Rightarrow> string \<Rightarrow> nat" where
  "enum_const e m = the (map_of e m)"

text \<open>The exit code of the test; every line of the list is one of its checks, in order.\<close>

definition portable_main :: int where
  "portable_main =
     (let desc = SPTM_CALL_DESC (of_nat (enum_const sptm_domain ''SPTM_DOMAIN_TXM'')) 5;
          msg = agx_mbox_unpack 1 (agx_mbox_pack_msg1 0x21);
          failures = length (filter id
            [desc \<noteq> (push_bit 48 2 OR push_bit 32 5),
             msg_endpoint msg \<noteq> 0x21 \<or> msg_data msg \<noteq> 1,
             sptmUatRetypeInAddr \<noteq> 0xfffffff0270957b8,
             txmDispatchEntryAddr \<noteq> 0xfffffff017026c68,
             agx_gpu_msg_doorbell 0x10 \<noteq> 0x0083000000000010,
             sptmBootRegionTableCount \<noteq> 35,
             enum_const txmDispatchCallId ''TXM_CALL_MAX_SUPPORTED'' \<noteq> 45])
      in if failures \<noteq> 0 then 1 else 0)"

section \<open>Every declared structure is well laid out\<close>

lemma power_of_two_iff: "power_of_two n \<longleftrightarrow> (\<exists>k. n = 2 ^ k)"
proof (induction n rule: power_of_two.induct)
  case (3 n)
  show ?case
  proof
    assume "power_of_two (Suc (Suc n))"
    then obtain k where "even (Suc (Suc n))" "Suc (Suc n) div 2 = 2 ^ k"
      using 3 by auto
    then have "Suc (Suc n) = 2 ^ Suc k"
      by (metis dvd_mult_div_cancel power_Suc)
    then show "\<exists>k. Suc (Suc n) = 2 ^ k" ..
  next
    assume "\<exists>k. Suc (Suc n) = 2 ^ k"
    then obtain k where k: "Suc (Suc n) = 2 ^ k" ..
    then obtain j where j: "k = Suc j" by (cases k) auto
    then have "even (Suc (Suc n))" "Suc (Suc n) div 2 = 2 ^ j"
      using k by simp_all
    then show "power_of_two (Suc (Suc n))"
      using 3 by auto
  qed
qed (simp, metis One_nat_def power_0 power_of_two.simps(2))

lemma power_of_two_pos: "power_of_two n \<Longrightarrow> 0 < n"
  by (cases n) auto

lemma power_of_two_dvd: "power_of_two a \<Longrightarrow> power_of_two b \<Longrightarrow> a \<le> b \<Longrightarrow> a dvd b"
  by (auto simp: power_of_two_iff intro: le_imp_power_dvd)

lemma power_of_two_power: "power_of_two (2 ^ k)"
  by (auto simp: power_of_two_iff)

lemma power_of_two_lits: "power_of_two 4" "power_of_two 8" "power_of_two 16"
  using power_of_two_power [of 2] power_of_two_power [of 3] power_of_two_power [of 4] by simp_all

lemma calign_power_of_two:
  "declared t \<Longrightarrow> power_of_two (calign t)"
  "members_declared fs \<Longrightarrow> power_of_two (members_align fs)"
proof (induction t and fs rule: calign_members_align.induct)
  case (7 a fs)
  then show ?case by (cases "a \<le> members_align fs") (auto simp: max_def)
qed (auto simp: power_of_two_lits max_def)

lemma round_up_ge: "0 < a \<Longrightarrow> n \<le> round_up n a"
  using div_mult_mod_eq [of "n + a - 1" a] mod_less_divisor [of a "n + a - 1"]
  unfolding round_up_def by linarith

lemma round_up_dvd [simp]: "a dvd round_up n a"
  by (simp add: round_up_def)

lemma layout_from:
  assumes "members_declared fs"
  shows "list_all (\<lambda>(m, off', t). off \<le> off' \<and> m \<in> fst ` set fs) (layout off fs)"
  using assms
proof (induction off fs rule: layout.induct)
  case (2 off m t fs)
  then have "off \<le> round_up off (calign t)"
    by (auto intro: round_up_ge power_of_two_pos calign_power_of_two)
  with 2 show ?case by (fastforce simp: list_all_iff)
qed simp

lemma members_end_ge: "members_declared fs \<Longrightarrow> off \<le> members_end off fs"
proof (induction fs arbitrary: off)
  case (Cons f fs)
  obtain m t where f: "f = (m, t)" by (cases f)
  have "off \<le> round_up off (calign t)"
    using Cons.prems f by (auto intro: round_up_ge power_of_two_pos calign_power_of_two)
  moreover have "round_up off (calign t) + csize t \<le> members_end off (f # fs)"
    using Cons f by simp
  ultimately show ?case by linarith
qed simp

lemma layout_apart:
  assumes "members_declared fs" "distinct (map fst fs)" "members_end off fs \<le> limit"
  shows "apart (layout off fs) limit"
  using assms
proof (induction off fs rule: layout.induct)
  case (2 off m t fs)
  let ?e = "round_up off (calign t) + csize t"
  have "?e \<le> members_end ?e fs" using 2 by (auto intro: members_end_ge)
  moreover have "list_all (\<lambda>(m', off', t'). m' \<noteq> m \<and> ?e \<le> off') (layout ?e fs)"
    using layout_from [of fs ?e] 2 by (auto simp: list_all_iff)
  ultimately show ?case using 2 by auto
qed simp

lemma layout_aligned:
  assumes "members_declared fs" "power_of_two A" "members_align fs \<le> A"
  shows "list_all (\<lambda>(m, off, t). calign t dvd off \<and> calign t dvd A) (layout off fs)"
  using assms
  by (induction off fs rule: layout.induct) (auto intro: power_of_two_dvd calign_power_of_two)

text \<open>The rules of the ABI give a well-formed layout to every declaration C admits.\<close>

lemma declared_well_laid: "declared t \<Longrightarrow> well_laid t"
proof (induction t)
  case (C_array n t)
  then have "calign t dvd csize t" by (cases t) auto
  then show ?case by simp
next
  case (C_struct a fs)
  let ?S = "C_struct a fs"
  have p: "power_of_two (calign ?S)" using C_struct.prems by (rule calign_power_of_two)
  have "members_end 0 fs \<le> csize ?S"
    using round_up_ge [OF power_of_two_pos [OF p], of "members_end 0 fs"] by simp
  then have "apart (layout 0 fs) (csize ?S)"
    using C_struct.prems by (auto intro: layout_apart)
  moreover have "list_all (\<lambda>(m, off, t). calign t dvd off \<and> calign t dvd calign ?S) (layout 0 fs)"
    using C_struct.prems p by (auto intro: layout_aligned)
  ultimately show ?case by (simp del: calign.simps)
qed simp_all

section \<open>The structures and tables of the headers\<close>

lemmas sptm_struct_defs =
  agxVec128_def sptmPerCpuState_def sptmDispatchTableEntry_def sptmStateTransition_def sptmBootRegion_def
  sptmUatDeviceTreeProps_def

lemma sptm_structs_declared:
  "declared agxVec128" "declared sptmPerCpuState" "declared sptmDispatchTableEntry"
  "declared sptmStateTransition" "declared sptmBootRegion" "declared sptmUatDeviceTreeProps"
  by (simp_all add: sptm_struct_defs power_of_two_lits)

text \<open>The static assertions of \<^verbatim>\<open>sptmdispatch.h\<close>, and where the saved registers lie: 31 general registers of
  8 bytes from 0x450, 32 vector registers of 16 bytes from 0x580.\<close>

lemma agxVec128_size: "csize agxVec128 = 16" "calign agxVec128 = 16"
  by (simp_all add: agxVec128_def round_up_def)

lemma sptmPerCpuState_offsets:
  "offsetof sptmPerCpuState ''savedX0'' = Some 0x450"
  "offsetof sptmPerCpuState ''savedElrGl1'' = Some (0x450 + 31 * 8)"
  "offsetof sptmPerCpuState ''savedQ0'' = Some 0x580"
  "offsetof sptmPerCpuState ''savedFpsr'' = Some (0x580 + 32 * 16)"
  "csize sptmPerCpuState = 0x790"
  by (simp_all add: sptmPerCpuState_def agxVec128_size round_up_def)

lemma sptm_sizes:
  "csize sptmStateTransition = 32" "csize sptmDispatchTableEntry = 16" "csize sptmBootRegion = 16"
  "csize sptmUatDeviceTreeProps = 88"
  by (simp_all add: sptm_struct_defs round_up_def)

lemma sptmBootRegionTable_names: "distinct (map fst sptmBootRegionTable)"
  by (simp add: sptmBootRegionTable_def)

lemma sptm_enums_distinct:
  "list_all (\<lambda>e. distinct (map fst e) \<and> distinct (map snd e))
     [sptm_domain, sptm_self_table, sptmSysRegEncodings, sptmUatPageType, sptmUatRetypeInSubtype,
      sptmUatRetypeOutSubtype, txmPageEnforcementType, txmCsEnforcementType, txmCsEntitlement, txmPageError,
      txmDispatchError]"
  by (simp add: sptm_domain_def sptm_self_table_def sptmSysRegEncodings_def sptmUatPageType_def
      sptmUatRetypeInSubtype_def sptmUatRetypeOutSubtype_def txmPageEnforcementType_def
      txmCsEnforcementType_def txmCsEntitlement_def txmPageError_def txmDispatchError_def)

text \<open>The call numbers of the trusted execution monitor are 1 to 45 without a gap, and the last is the
  highest supported one.\<close>

lemma txm_calls_contiguous:
  "map snd txmDispatchCallId = [1..<46] @ [45]"
  "map_of txmDispatchCallId ''TXM_CALL_MAX_SUPPORTED'' = Some 45"
  by (simp_all add: txmDispatchCallId_def upt_rec)

text \<open>The bits of a call descriptor.\<close>

lemma bit_call_desc:
  "bit (SPTM_CALL_DESC domain table_id) i \<longleftrightarrow>
     (48 \<le> i \<and> i < 64 \<and> bit domain (i - 48)) \<or> (32 \<le> i \<and> i < 36 \<and> bit table_id (i - 32))"
proof -
  have m: "(0xf :: u32) = mask 4" by (simp add: mask_eq_exp_minus_1)
  show ?thesis
    unfolding SPTM_CALL_DESC_def SPTM_TABLEID_MASK_def m
    by (auto simp: SPTM_DOMAIN_SHIFT_def SPTM_TABLEID_SHIFT_def bit_simps)
qed

lemma desc_domain: "AGX_FIELD_GET (SPTM_CALL_DESC domain table_id) SPTM_DOMAIN_SHIFT 0xffff = ucast (take_bit 16 domain)"
proof -
  have m: "(0xffff :: u64) = mask 16" by (simp add: mask_eq_exp_minus_1)
  show ?thesis
    unfolding m by (auto simp: word_eq_iff_bits AGX_FIELD_GET_def SPTM_DOMAIN_SHIFT_def bit_call_desc bit_simps)
qed

lemma desc_table: "AGX_FIELD_GET (SPTM_CALL_DESC domain table_id) SPTM_TABLEID_SHIFT 0xffff = ucast (take_bit 4 table_id)"
proof -
  have m: "(0xffff :: u64) = mask 16" by (simp add: mask_eq_exp_minus_1)
  show ?thesis
    unfolding m by (auto simp: word_eq_iff_bits AGX_FIELD_GET_def SPTM_TABLEID_SHIFT_def bit_call_desc bit_simps)
qed

lemma desc_low: "take_bit 32 (SPTM_CALL_DESC domain table_id) = 0"
  by (auto simp: word_eq_iff_bits bit_call_desc bit_simps)

lemma desc_cong:
  assumes "take_bit 16 domain = take_bit 16 domain'" "take_bit 4 table_id = take_bit 4 table_id'"
  shows "SPTM_CALL_DESC domain table_id = SPTM_CALL_DESC domain' table_id'"
proof -
  have "i < 16 \<Longrightarrow> bit domain i = bit domain' i" "i < 4 \<Longrightarrow> bit table_id i = bit table_id' i" for i
    using assms by (metis bit_take_bit_iff)+
  then show ?thesis by (auto simp: word_eq_iff_bits bit_call_desc)
qed

lemma portable_main_passes: "portable_main = 0"
  unfolding portable_main_def SPTM_CALL_DESC_def enum_const_def txm_calls_contiguous
  by (simp add: sptm_domain_def SPTM_DOMAIN_SHIFT_def SPTM_TABLEID_SHIFT_def SPTM_TABLEID_MASK_def
      agx_mbox_unpack_def agx_mbox_pack_msg1_def AGX_MBOX_MSG1_ENDPOINT_MASK_def sptmUatRetypeInAddr_def
      txmDispatchEntryAddr_def agx_gpu_msg_doorbell_def AGX_FIELD_PUT_def AGX_GPU_MSG_DOORBELL_def
      AGX_GPU_MSG_TYPE_SHIFT_def AGX_GPU_MSG_TYPE_MASK_def AGX_GPU_DOORBELL_CHANNEL_MASK_def
      sptmBootRegionTableCount_def)

text \<open>The structures of the SPTM headers have well-formed layouts, and the assertions the headers make about them hold: the size of a
  vector register, the offset of the first general register, the alignment of the first vector register and the
  length of the boot region table. The saved vector registers are in line up to the status words, a state
  transition has the stride of its table, a state row one transition per event type and a domain one entry per
  table number a call descriptor can hold. An entry of a dispatch table is shorter than its stride.\<close>

lemma sptm_layouts:
  "list_all well_laid [agxVec128, sptmPerCpuState, sptmDispatchTableEntry, sptmStateTransition, sptmBootRegion,
     sptmUatDeviceTreeProps] \<and>
   csize agxVec128 = 16 \<and> calign agxVec128 = 16 \<and>
   offsetof sptmPerCpuState ''savedX0'' = Some 0x450 \<and>
   (\<exists>q0. offsetof sptmPerCpuState ''savedQ0'' = Some q0 \<and> q0 mod 16 = 0 \<and>
     offsetof sptmPerCpuState ''savedFpsr'' = Some (q0 + 32 * csize agxVec128)) \<and>
   length sptmBootRegionTable = sptmBootRegionTableCount \<and>
   csize sptmStateTransition = sptmTransitionEntryStride \<and>
   sptmStateRowStride = sptmMaxEventType * sptmTransitionEntryStride \<and>
   sptmDomainTableStride = (unat SPTM_TABLEID_MASK + 1) * sptmTableEntryStride \<and>
   csize sptmDispatchTableEntry + 8 = sptmTableEntryStride"
proof -
  have "list_all well_laid [agxVec128, sptmPerCpuState, sptmDispatchTableEntry, sptmStateTransition,
      sptmBootRegion, sptmUatDeviceTreeProps]"
    by (simp add: declared_well_laid sptm_structs_declared)
  moreover have "length sptmBootRegionTable = sptmBootRegionTableCount"
    by (simp add: sptmBootRegionTable_def sptmBootRegionTableCount_def)
  ultimately show ?thesis
    by (simp add: agxVec128_size sptmPerCpuState_offsets sptm_sizes sptmTransitionEntryStride_def
        sptmStateRowStride_def sptmMaxEventType_def sptmDomainTableStride_def sptmTableEntryStride_def
        SPTM_TABLEID_MASK_def)
qed

section \<open>Properties\<close>

text \<open>C38. Call descriptors. The descriptor of a call carries the low 16 bits of its domain, the low 4 bits of its table number and nothing
  else: the fields give them back, all other bits are clear, and two calls have the same descriptor exactly when both agree.
  For the domains below \<open>2 ^ 16\<close> and the table numbers below 16 this makes the descriptor unique.\<close>

theorem sptm_call_desc_unique:
  "AGX_FIELD_GET (SPTM_CALL_DESC domain table_id) SPTM_DOMAIN_SHIFT 0xffff = ucast (take_bit 16 domain) \<and>
   AGX_FIELD_GET (SPTM_CALL_DESC domain table_id) SPTM_TABLEID_SHIFT 0xffff = ucast (take_bit 4 table_id) \<and>
   take_bit 32 (SPTM_CALL_DESC domain table_id) = 0 \<and>
   (SPTM_CALL_DESC domain table_id = SPTM_CALL_DESC domain' table_id' \<longleftrightarrow>
      take_bit 16 domain = take_bit 16 domain' \<and> take_bit 4 table_id = take_bit 4 table_id') \<and>
   (domain < 2 ^ 16 \<and> domain' < 2 ^ 16 \<and> table_id < 2 ^ 4 \<and> table_id' < 2 ^ 4 \<longrightarrow>
      (SPTM_CALL_DESC domain table_id = SPTM_CALL_DESC domain' table_id' \<longleftrightarrow> domain = domain' \<and> table_id = table_id'))"
proof -
  have same: "SPTM_CALL_DESC domain table_id = SPTM_CALL_DESC domain' table_id' \<longleftrightarrow>
      take_bit 16 domain = take_bit 16 domain' \<and> take_bit 4 table_id = take_bit 4 table_id'"
    using desc_domain [of domain table_id] desc_table [of domain table_id] desc_domain [of domain' table_id']
      desc_table [of domain' table_id'] desc_cong [of domain domain' table_id table_id'] by (metis ucast_u32_u64_u32)
  have self: "take_bit n x = x" if "x < 2 ^ n" "n < 32" for x :: u32 and n
    using that word_less_exp_iff_bits [of n x] by (auto simp: word_eq_iff_bits bit_take_bit_iff)
  have "SPTM_CALL_DESC domain table_id = SPTM_CALL_DESC domain' table_id' \<longleftrightarrow> domain = domain' \<and> table_id = table_id'"
    if "domain < 2 ^ 16" "domain' < 2 ^ 16" "table_id < 2 ^ 4" "table_id' < 2 ^ 4"
    unfolding same that [THEN self, simplified] ..
  then show ?thesis using same desc_domain desc_table desc_low by blast
qed

theorem sptm_call_desc_unique_witness:
  "SPTM_CALL_DESC 2 5 \<noteq> SPTM_CALL_DESC 1 5 \<and> AGX_FIELD_GET (SPTM_CALL_DESC 2 5) 48 0xffff = 2"
  using sptm_call_desc_unique [of 2 5 1 5] by (simp add: SPTM_DOMAIN_SHIFT_def)

end
