(* ===== verification/Spec2Isabelle.thy ===== *)
theory Spec2Isabelle
  imports Uat_Theorems Display_Memory Monitor Probe Handoff_Theorems Trace Sptm
begin

text \<open>
  Verification of agxopendev, an open driver for the AGX graphics coprocessor of the Apple M4. Paths are relative to
  \<^verbatim>\<open>agxopendev/\<close> in the repository.

  \<^bold>\<open>The program.\<close> \<^verbatim>\<open>src/probe.c\<close> binds the device, powers it and boots the driver core
  \<^verbatim>\<open>src/rtbuddy.c\<close>. The core starts the coprocessor, talks to its firmware through the mailbox
  (\<^verbatim>\<open>src/mailbox.c\<close>) with the RTKit protocol (\<^verbatim>\<open>src/rtkit.c\<close>), hands out shared buffers, forwards power changes
  to listeners (\<^verbatim>\<open>src/display.c\<close>) and sends messages to the GPU firmware; \<^verbatim>\<open>src/debugfs.c\<close> prints its state. Two
  parts are not connected to the boot path yet: the page table walker \<^verbatim>\<open>src/uat.c\<close> and the handoff structure
  \<^verbatim>\<open>src/gfxhandoff.c\<close>, through which AP and firmware take turns on the page tables. The host tools of
  \<^verbatim>\<open>tools/trace\<close> read recorded mailbox traffic, \<^verbatim>\<open>tools/monitor\<close> shows the debugfs files on a terminal. The headers
  \<^verbatim>\<open>include/agx/sptm*.h\<close> and \<^verbatim>\<open>include/agx/txm.h\<close> describe structures, tables and call numbers of the secure monitors.

  \<^bold>\<open>Theories and sources.\<close>
  \<^item> \<open>Agx_Prelude\<close>: \<^verbatim>\<open>include/agx/types.h\<close>; word, bit field and loop lemmas; the collections \<open>agx_mask\<close>, \<open>agx_field\<close>.
  \<^item> \<open>Uat_Encoding\<close>, \<open>Uat\<close>: the encodings of \<^verbatim>\<open>include/agx/uat.h\<close> and every function of \<^verbatim>\<open>src/uat.c\<close>, over a heap in which a
    dangling or out of range access is the value \<open>None\<close>. \<open>Uat_Inv\<close>, \<open>Uat_Map\<close>, \<open>Uat_Free\<close>: the invariant of the store and that each
    operation keeps it. \<open>Uat_Spec\<close>, \<open>Uat_Budget\<close>, \<open>Uat_Theorems\<close>: the abstract page map, the refinement, the walk of the GPU, the
    memory that suffices, and the properties.
  \<^item> \<open>Wire\<close>: \<^verbatim>\<open>include/agx/mailbox_regs.h\<close>, \<^verbatim>\<open>include/agx/gpu_ep.h\<close>, \<^verbatim>\<open>include/agx/power.h\<close>, \<^verbatim>\<open>src/power.c\<close>.
  \<^item> \<open>Rtkit\<close>, \<open>Rtkit_Inv\<close>, \<open>Rtkit_Theorems\<close>: \<^verbatim>\<open>src/rtkit.c\<close> as state passing over \<open>'c agx_rtkit\<close>, its invariant, its properties
    on all reachable states.
  \<^item> \<open>Mailbox\<close>, \<open>Display\<close>: \<^verbatim>\<open>src/mailbox.c\<close> and \<^verbatim>\<open>src/display.c\<close>. \<open>Display_Memory\<close>: the broker on the pointers of the intrusive list
    \<^verbatim>\<open>tests/kshim/linux/list.h\<close>, and that it implements \<open>Display\<close>.
  \<^item> \<open>Rtbuddy\<close>, \<open>Rtbuddy_Inv\<close>, \<open>Rtbuddy_Boot\<close>, \<open>Rtbuddy_Dma\<close>, \<open>Rtbuddy_Theorems\<close>: \<^verbatim>\<open>src/rtbuddy.c\<close>; the invariant of the driver,
    the stages of the boot, the ownership of DMA buffers, the properties.
  \<^item> \<open>Debugfs\<close>, \<open>Probe\<close>: \<^verbatim>\<open>src/debugfs.c\<close> and \<^verbatim>\<open>src/probe.c\<close>.
  \<^item> \<open>Fake_Asc\<close>, \<open>Harness\<close>: the simulated device and firmware of \<^verbatim>\<open>tests/driver_harness.cpp\<close> and \<^verbatim>\<open>tests/fakefw.hpp\<close>, and runs of
    the driver on them.
  \<^item> \<open>Handoff\<close>: every function of \<^verbatim>\<open>src/gfxhandoff.c\<close>. \<open>Handoff_Machine\<close>, \<open>Handoff_Firmware\<close>: the byte array and the firmware threads of
    \<^verbatim>\<open>tests/handoff_test.cpp\<close>. \<open>Handoff_Party\<close>, \<open>Handoff_Progress\<close>, \<open>Handoff_Theorems\<close>: the lock under a contract, progress under fair
    schedules, the properties.
  \<^item> \<open>Trace\<close>: \<^verbatim>\<open>tools/trace\<close>. \<open>Monitor\<close>: \<^verbatim>\<open>tools/monitor/agxmonitor.cpp\<close> as the text of each pass of its loop.
  \<^item> \<open>Sptm\<close>: the headers of the secure monitors, with the LP64 layout of their structures, and the test \<^verbatim>\<open>tests/portable_c.c\<close>.

  \<^bold>\<open>State and effects.\<close> A C struct is a record with its fields, a C status an \<open>int\<close>, machine integers are words of their
  width. What the repository does not contain is a parameter: allocator callbacks (\<open>agx_uat_ops\<close>), protocol callbacks
  (\<open>agx_rtkit_ops\<close>), kernel services (\<open>kernel_ops\<close>), platform bus and debugfs (\<open>platform_ops\<close>, \<open>debugfs_ops\<close>), handoff accesses
  (\<open>agx_handoff_ops\<close>), each a record of functions on an arbitrary machine state that the call returns changed.

  \<^bold>\<open>Contracts.\<close> Each interface is a locale, interpreted on definitions of this development.
  \<^item> \<open>uat_allocator\<close>, \<open>uat_allocator_budget\<close>: fresh and disjoint memory, and how much of it is left (on an arena allocator).
  \<^item> \<open>page_table\<close>: what a client of the walker may rely on (on \<^verbatim>\<open>src/uat.c\<close>).
  \<^item> \<open>rtkit_transport\<close>: the protocol callbacks keep an invariant (on the callbacks of \<^verbatim>\<open>src/rtbuddy.c\<close>, by sublocale).
  \<^item> \<open>kernel_clock\<close>, \<open>mailbox_device\<close>, \<open>dma_device\<close>: sleeping advances the clock, the FIFOs behind the registers, allocation and release
    of DMA buffers (on the machine of the tests).
  \<^item> \<open>platform_bus\<close>: power references and debugfs directories (on the same machine with a bus).
  \<^item> \<open>handoff_lock_party\<close>: during the accesses of the lock the other party keeps the byte of the AP and stays out when excluded (on the
    firmware of the tests with its flush slots at rest); \<open>handoff_party\<close> extends it to the accesses of the flush slots (on the same firmware
    under any schedule).
  \<^item> \<open>fw_progress\<close>: a rank that shrinks with the moves of a firmware thread (on its four threads).

  \<^bold>\<open>What is shown.\<close> The page tables refine a finite map for every sequence of calls, agree with the walk of the GPU, and are
  freed without a leak. The protocol core is well formed in all reachable states, negotiates, starts endpoints and answers
  buffer requests as specified, and never takes back an error. A boot, a wait and a removal return whatever the
  firmware does; the driver owns exactly the buffers in its slots; a complete boot against the test firmware is run as an
  example, message by message. The circular list of the display
  broker holds exactly the registered listeners, in order. Probe and removal balance power references, buffers and directories on every path. The handoff lock
  excludes the firmware in every interleaving, always returns for a limit from 1 to 2^32 - 2, and succeeds under a fair
  firmware; a cache flush is carried out exactly once with the requested range. The trace programs report exactly the
  anomalies of a file; the screen of the monitor tells two drivers apart exactly when a value it shows differs. A
  secure monitor call descriptor determines its domain and table number; the structures of those headers have well-formed layouts in which
  the headers' assertions hold.

  \<^bold>\<open>Bounds and loops.\<close> Polls, waits and the spinning loops of the handoff are partial functions in the option monad: a loop that
  does not end is \<open>None\<close>, and that they end is proved, by the clock of \<open>kernel_clock\<close>, by the 32-bit spin counter or, for the loop
  over the listeners, by the shape of the list. A limit of 0 means
  no limit, and \<open>lock_largest_limit\<close> shows that the limit 2^32 - 1 never applies. \<open>agx_uat_free_node\<close> recurses with
  \<open>uat_free_fuel = 4\<close>, enough for tables of three levels (proved). The interrupt thread drains at most 64 messages, as in the code.
  The bound 16 K of the liveness of the lock is 7 K for the firmware to give the turn away, 8 K for it to step back, and one spin.

  \<^bold>\<open>Concurrency.\<close> The threaded interrupt handler runs while the driver sleeps on its wait queue and, in the reachable states of
  \<open>driver_invariant\<close>, between any two calls of the driver; the real one may also run between two statements of a call once the
  interrupt is requested, and these interleavings are not modelled. The mutex of the mailbox and the list lock of the broker are part of the state and taking a held one is an
  error. The machine outside may change at every register access of the driver; in the
  handoff the firmware makes any number of moves before every access, each of them one access of its own: what a firmware thread
  has polled may be out of date when it stores. The
  memory of the handoff is sequentially consistent: the barriers are calls without effect there.

  \<^bold>\<open>Not modelled.\<close> Kernel log messages; device manager releases after a failed probe; the module registration tables; the
  delay between two passes of the monitor; the remaining test cases, which call the modelled functions on fixed inputs; build files
  and the device tree; weak memory effects between AP and firmware.
\<close>

end
